(* ===== verification/Prelude.thy ===== *)
theory Prelude
  imports Main "HOL-Library.Log_Nat"
begin

text \<open>
  Shared vocabulary of the development: the Python values that JSON and YAML documents
  decode to, Python's insertion-ordered dictionaries as association lists, results of
  fallible code as sums, and the string operations the sources use.
  The interface \<open>dict_store\<close> states what a dictionary promises to its clients; it is
  interpreted on the association lists of this theory.
\<close>

named_theorems dict_simps \<open>characteristic equations of the dictionary operations\<close>
named_theorems result_simps \<open>evaluation of chained fallible computations\<close>

section \<open>Results of fallible code\<close>

text \<open>A call that raises is \<open>Inl e\<close>, one that returns is \<open>Inr v\<close>.\<close>

definition and_then :: "'e + 'a \<Rightarrow> ('a \<Rightarrow> 'e + 'b) \<Rightarrow> 'e + 'b" where
  "and_then r f = (case r of Inl e \<Rightarrow> Inl e | Inr v \<Rightarrow> f v)"

lemma and_then_simps [simp, result_simps]:
  "and_then (Inl e) f = Inl e"
  "and_then (Inr v) f = f v"
  by (simp_all add: and_then_def)

lemma and_then_Inr_iff [result_simps]:
  "and_then r f = Inr w \<longleftrightarrow> (\<exists>v. r = Inr v \<and> f v = Inr w)"
  by (cases r) auto

lemma and_then_Inl_iff [result_simps]:
  "and_then r f = Inl e \<longleftrightarrow> r = Inl e \<or> (\<exists>v. r = Inr v \<and> f v = Inl e)"
  by (cases r) auto

definition is_ok :: "'e + 'a \<Rightarrow> bool" where
  "is_ok r = (case r of Inl _ \<Rightarrow> False | Inr _ \<Rightarrow> True)"

lemma is_ok_simps [simp]: "\<not> is_ok (Inl e)" "is_ok (Inr v)"
  by (simp_all add: is_ok_def)

lemma is_ok_iff: "is_ok r \<longleftrightarrow> (\<exists>v. r = Inr v)"
  by (cases r) auto

text \<open>A Python guard: \<open>if not c: raise e\<close>.\<close>

definition require :: "bool \<Rightarrow> 'e \<Rightarrow> 'e + unit" where
  "require c e = (if c then Inr () else Inl e)"

lemma require_iff [simp]:
  "require c e = Inr u \<longleftrightarrow> c"
  "require c e = Inl e' \<longleftrightarrow> \<not> c \<and> e' = e"
  by (auto simp: require_def)

section \<open>Dictionaries with insertion order\<close>

type_synonym ('k, 'v) dict = "('k \<times> 'v) list"

abbreviation dict_get :: "('k, 'v) dict \<Rightarrow> 'k \<Rightarrow> 'v option" where
  "dict_get d k \<equiv> map_of d k"

abbreviation dict_keys :: "('k, 'v) dict \<Rightarrow> 'k list" where
  "dict_keys d \<equiv> map fst d"

abbreviation dict_values :: "('k, 'v) dict \<Rightarrow> 'v list" where
  "dict_values d \<equiv> map snd d"

text \<open>\<open>d[k] = v\<close>: an existing key keeps its position, a new one goes to the end.\<close>

fun dict_set :: "'k \<Rightarrow> 'v \<Rightarrow> ('k, 'v) dict \<Rightarrow> ('k, 'v) dict" where
  "dict_set k v [] = [(k, v)]"
| "dict_set k v ((a, b) # d) = (if a = k then (a, v) # d else (a, b) # dict_set k v d)"

text \<open>\<open>d.pop(k, None)\<close> as a statement, and \<open>{x: y for x, y in d.items() if x != k}\<close>.\<close>

definition dict_pop :: "'k \<Rightarrow> ('k, 'v) dict \<Rightarrow> ('k, 'v) dict" where
  "dict_pop k d = filter (\<lambda>(a, _). a \<noteq> k) d"

text \<open>\<open>{**d, **e}\<close>.\<close>

definition dict_merge :: "('k, 'v) dict \<Rightarrow> ('k, 'v) dict \<Rightarrow> ('k, 'v) dict" where
  "dict_merge d e = fold (\<lambda>(k, v). dict_set k v) e d"

definition dict_wf :: "('k, 'v) dict \<Rightarrow> bool" where
  "dict_wf d \<longleftrightarrow> distinct (dict_keys d)"

lemma map_of_dict_set [simp, dict_simps]: "map_of (dict_set k v d) = (map_of d)(k \<mapsto> v)"
  by (induction k v d rule: dict_set.induct) (auto simp: fun_eq_iff)

lemma keys_dict_set [simp, dict_simps]: "set (dict_keys (dict_set k v d)) = insert k (set (dict_keys d))"
  by (induction k v d rule: dict_set.induct) auto

lemma fst_set_dict_set [simp]: "fst ` set (dict_set k v d) = insert k (fst ` set d)"
  using keys_dict_set [of k v d] by simp

lemma keys_order_dict_set:
  "dict_keys (dict_set k v d) = (if k \<in> set (dict_keys d) then dict_keys d else dict_keys d @ [k])"
  by (induction k v d rule: dict_set.induct) auto

lemma dict_wf_set [intro]: "dict_wf d \<Longrightarrow> dict_wf (dict_set k v d)"
  by (auto simp: dict_wf_def keys_order_dict_set)

lemma dict_wf_simps [simp]:
  "dict_wf []"
  "dict_wf (p # d) \<longleftrightarrow> fst p \<notin> set (dict_keys d) \<and> dict_wf d"
  by (auto simp: dict_wf_def)

lemma map_of_dict_pop [simp, dict_simps]: "map_of (dict_pop k d) = (map_of d)(k := None)"
  by (induction d) (auto simp: dict_pop_def fun_eq_iff)

lemma set_dict_pop: "set (dict_pop k d) = {p \<in> set d. fst p \<noteq> k}"
  by (auto simp: dict_pop_def)

lemma dict_wf_pop [intro]: "dict_wf d \<Longrightarrow> dict_wf (dict_pop k d)"
  by (induction d) (auto simp: dict_pop_def)

lemma dict_pop_absent: "k \<notin> set (dict_keys d) \<Longrightarrow> dict_pop k d = d"
  by (induction d) (auto simp: dict_pop_def)

lemma values_dict_set_new:
  "k \<notin> set (dict_keys d) \<Longrightarrow> dict_set k v d = d @ [(k, v)]"
  by (induction k v d rule: dict_set.induct) auto

lemma map_of_dict_merge [simp, dict_simps]: "map_of (dict_merge d e) k =
  (case map_of (rev e) k of Some v \<Rightarrow> Some v | None \<Rightarrow> map_of d k)"
proof (induction e arbitrary: d)
  case Nil
  then show ?case by (simp add: dict_merge_def)
next
  case (Cons p e)
  obtain a b where p: "p = (a, b)" by (cases p)
  have step: "dict_merge d (p # e) = dict_merge (dict_set a b d) e"
    by (simp add: dict_merge_def p)
  show ?case
    unfolding step Cons.IH by (auto simp: p map_add_def split: option.split)
qed

lemma dict_get_mem: "dict_get d k = Some v \<Longrightarrow> (k, v) \<in> set d"
  by (rule map_of_SomeD)

lemma dict_get_wf: "dict_wf d \<Longrightarrow> dict_get d k = Some v \<longleftrightarrow> (k, v) \<in> set d"
  by (simp add: dict_wf_def)

subsection \<open>The interface a dictionary offers\<close>

text \<open>
  \<open>get\<close>, \<open>put\<close> and \<open>del\<close> obey the laws of a finite partial function, \<open>entries\<close>
  lists the bindings. The client lemmas are about a numeric field of the values that
  has to stay unique across keys: this is how the registry uses its dictionary.
\<close>

locale dict_store =
  fixes get :: "'d \<Rightarrow> 'k \<Rightarrow> 'v option"
    and put :: "'k \<Rightarrow> 'v \<Rightarrow> 'd \<Rightarrow> 'd"
    and del :: "'k \<Rightarrow> 'd \<Rightarrow> 'd"
    and entries :: "'d \<Rightarrow> ('k \<times> 'v) list"
    and wf :: "'d \<Rightarrow> bool"
  assumes get_put: "get (put k v d) k' = (if k' = k then Some v else get d k')"
    and get_del: "get (del k d) k' = (if k' = k then None else get d k')"
    and get_entries: "wf d \<Longrightarrow> get d k = Some v \<longleftrightarrow> (k, v) \<in> set (entries d)"
    and distinct_entries: "wf d \<Longrightarrow> distinct (map fst (entries d))"
    and wf_put: "wf d \<Longrightarrow> wf (put k v d)"
    and wf_del: "wf d \<Longrightarrow> wf (del k d)"
begin

definition field_unique :: "('v \<Rightarrow> 'i) \<Rightarrow> 'd \<Rightarrow> bool" where
  "field_unique f d \<longleftrightarrow> (\<forall>k1 k2 v1 v2.
     get d k1 = Some v1 \<longrightarrow> get d k2 = Some v2 \<longrightarrow> f v1 = f v2 \<longrightarrow> k1 = k2)"

definition field_set :: "('v \<Rightarrow> 'i) \<Rightarrow> 'd \<Rightarrow> 'i set" where
  "field_set f d = {f v | k v. get d k = Some v}"

lemma field_set_entries: "wf d \<Longrightarrow> field_set f d = set (map (f \<circ> snd) (entries d))"
  by (force simp: field_set_def get_entries)

lemma finite_field_set: "wf d \<Longrightarrow> finite (field_set f d)"
  by (simp add: field_set_entries)

lemma put_fresh_unique:
  assumes "field_unique f d" and "f v \<notin> field_set f d"
  shows "field_unique f (put k v d)"
  using assms unfolding field_unique_def field_set_def get_put
  by (auto split: if_splits)

lemma put_same_unique:
  assumes "field_unique f d" and "get d k = Some v0" and "f v = f v0"
  shows "field_unique f (put k v d)"
proof -
  have "k' = k" if "get d k' = Some v'" "f v' = f v" for k' v'
    using assms that unfolding field_unique_def by metis
  with assms(1) show ?thesis
    unfolding field_unique_def get_put by (auto split: if_splits)
qed

lemma del_unique: "field_unique f d \<Longrightarrow> field_unique f (del k d)"
  unfolding field_unique_def get_del by (auto split: if_splits)

lemma field_set_del: "field_set f (del k d) \<subseteq> field_set f d"
  unfolding field_set_def get_del by (auto split: if_splits)

lemma card_field_set: "wf d \<Longrightarrow> card (field_set f d) \<le> length (entries d)"
  by (metis card_length field_set_entries length_map)

lemma field_unique_iff_distinct:
  assumes wf: "wf d"
  shows "field_unique f d \<longleftrightarrow> distinct (map (f \<circ> snd) (entries d))"
proof -
  let ?es = "entries d"
  have d: "distinct ?es" using distinct_entries [OF wf] by (simp add: distinct_map)
  have inj: "inj_on fst (set ?es)" using distinct_entries [OF wf] by (simp add: distinct_map)
  have "distinct (map (f \<circ> snd) ?es) \<longleftrightarrow> inj_on (f \<circ> snd) (set ?es)"
    using d by (simp add: distinct_map)
  also have "\<dots> \<longleftrightarrow> field_unique f d"
  proof
    assume i: "inj_on (f \<circ> snd) (set ?es)"
    show "field_unique f d"
      unfolding field_unique_def get_entries [OF wf]
      using inj_onD [OF i] by fastforce
  next
    assume u: "field_unique f d"
    show "inj_on (f \<circ> snd) (set ?es)"
    proof (rule inj_onI)
      fix p q assume pq: "p \<in> set ?es" "q \<in> set ?es" "(f \<circ> snd) p = (f \<circ> snd) q"
      then have "fst p = fst q"
        using u unfolding field_unique_def get_entries [OF wf]
        by (metis comp_apply prod.collapse)
      with inj pq(1,2) show "p = q" by (simp add: inj_on_def)
    qed
  qed
  finally show ?thesis by simp
qed

end

interpretation ad: dict_store map_of dict_set dict_pop id dict_wf
  by unfold_locales (auto simp: dict_get_wf dest: dict_wf_def [THEN iffD1])

end
