(* ===== verification/Pyvalues.thy ===== *)
theory Pyvalues
  imports Complex_Main Prelude
begin

text \<open>
  The values \<open>json.loads\<close> and \<open>yaml.safe_load\<close> produce, the part of Python's equality
  and hashing the sources use on them, and the string operations (decimal rendering,
  splitting, prefix tests) with their round trips. Floats are the rationals they denote;
  YAML timestamps and binary scalars are not represented.
\<close>

section \<open>Decoded documents\<close>

datatype pyval =
    PNone
  | PBool bool
  | PInt int
  | PFloat rat
  | PStr string
  | PList "pyval list"
  | PDict "(pyval \<times> pyval) list"

abbreviation as_dict :: "pyval \<Rightarrow> (pyval \<times> pyval) list" where
  "as_dict v \<equiv> (case v of PDict d \<Rightarrow> d | _ \<Rightarrow> [])"

fun is_dict :: "pyval \<Rightarrow> bool" where
  "is_dict (PDict d) = True"
| "is_dict _ = False"

lemma is_dict_iff: "is_dict v \<longleftrightarrow> (\<exists>d. v = PDict d)"
  by (cases v) auto

text \<open>\<open>bool(v)\<close>.\<close>

fun truthy :: "pyval \<Rightarrow> bool" where
  "truthy PNone = False"
| "truthy (PBool b) = b"
| "truthy (PInt i) = (i \<noteq> 0)"
| "truthy (PFloat q) = (q \<noteq> 0)"
| "truthy (PStr s) = (s \<noteq> [])"
| "truthy (PList xs) = (xs \<noteq> [])"
| "truthy (PDict d) = (d \<noteq> [])"

text \<open>
  Python compares numbers across types (\<open>True == 1 == 1.0\<close>), and a set or dict
  membership test hashes its operand: lists and dicts are unhashable and raise.
\<close>

fun py_num :: "pyval \<Rightarrow> rat option" where
  "py_num (PBool b) = Some (if b then 1 else 0)"
| "py_num (PInt i) = Some (of_int i)"
| "py_num (PFloat q) = Some q"
| "py_num _ = None"

fun hashable :: "pyval \<Rightarrow> bool" where
  "hashable (PList _) = False"
| "hashable (PDict _) = False"
| "hashable _ = True"

definition eq_int :: "pyval \<Rightarrow> int \<Rightarrow> bool" where
  "eq_int v n = (py_num v = Some (of_int n))"

lemma eq_int_simps [simp]:
  "eq_int PNone n = False"
  "eq_int (PStr s) n = False"
  "eq_int (PList xs) n = False"
  "eq_int (PDict d) n = False"
  "eq_int (PInt i) n = (i = n)"
  by (simp_all add: eq_int_def)

text \<open>\<open>d.get("key")\<close>, with \<open>None\<close> for an absent key.\<close>

definition get_str :: "(pyval \<times> pyval) list \<Rightarrow> string \<Rightarrow> pyval" where
  "get_str d k = (case dict_get d (PStr k) of Some v \<Rightarrow> v | None \<Rightarrow> PNone)"

definition has_str :: "(pyval \<times> pyval) list \<Rightarrow> string \<Rightarrow> bool" where
  "has_str d k = (dict_get d (PStr k) \<noteq> None)"

lemma get_str_set [simp]:
  "get_str (dict_set (PStr k) v d) k' = (if k' = k then v else get_str d k')"
  by (simp add: get_str_def)

lemma has_str_set [simp]:
  "has_str (dict_set (PStr k) v d) k' \<longleftrightarrow> k' = k \<or> has_str d k'"
  by (simp add: has_str_def)

lemma get_str_pop [simp]:
  "get_str (dict_pop (PStr k) d) k' = (if k' = k then PNone else get_str d k')"
  by (simp add: get_str_def)

section \<open>Strings\<close>

text \<open>\<open>s.startswith(p)\<close>.\<close>

fun startswith :: "string \<Rightarrow> string \<Rightarrow> bool" where
  "startswith s [] = True"
| "startswith [] (c # p) = False"
| "startswith (a # s) (c # p) = (a = c \<and> startswith s p)"

lemma startswith_iff: "startswith s p \<longleftrightarrow> (\<exists>r. s = p @ r)"
  by (induction s p rule: startswith.induct) auto

lemma startswith_append [simp]: "startswith (p @ r) p"
  by (auto simp: startswith_iff)

definition endswith :: "string \<Rightarrow> string \<Rightarrow> bool" where
  "endswith s p = startswith (rev s) (rev p)"

lemma endswith_iff: "endswith s p \<longleftrightarrow> (\<exists>r. s = r @ p)"
  unfolding endswith_def startswith_iff
  by (metis rev_append rev_rev_ident)

text \<open>\<open>sep.join(xs)\<close> and \<open>s.split(c)\<close> for a one-character separator.\<close>

fun join :: "string \<Rightarrow> string list \<Rightarrow> string" where
  "join sep [] = []"
| "join sep [x] = x"
| "join sep (x # y # xs) = x @ sep @ join sep (y # xs)"

fun split_on :: "char \<Rightarrow> string \<Rightarrow> string list" where
  "split_on c [] = [[]]"
| "split_on c (a # s) =
     (if a = c then [] # split_on c s
      else (case split_on c s of [] \<Rightarrow> [[a]] | w # ws \<Rightarrow> (a # w) # ws))"

lemma split_on_nonempty [simp]: "split_on c s \<noteq> []"
  by (induction s) (auto split: list.split)

lemma split_on_no_sep: "c \<notin> set x \<Longrightarrow> split_on c x = [x]"
  by (induction x) auto

lemma split_on_append_sep:
  "c \<notin> set x \<Longrightarrow> split_on c (x @ c # s) = x # split_on c s"
  by (induction x) auto

lemma split_join:
  assumes "xs \<noteq> []" and "\<And>x. x \<in> set xs \<Longrightarrow> c \<notin> set x"
  shows "split_on c (join [c] xs) = xs"
  using assms
  by (induction "[c]" xs rule: join.induct) (auto simp: split_on_no_sep split_on_append_sep)

lemma split_on_parts_no_sep: "w \<in> set (split_on c s) \<Longrightarrow> c \<notin> set w"
  by (induction s arbitrary: w) (auto split: if_splits list.splits)

definition NL :: string where "NL = [CHR 0x0A]"

text \<open>\<open>c.lower()\<close> on ASCII.\<close>

definition lower_char :: "char \<Rightarrow> char" where
  "lower_char c =
     (let n = of_char c :: int in if 65 \<le> n \<and> n \<le> 90 then char_of (n + 32) else c)"

definition lower :: "string \<Rightarrow> string" where
  "lower s = map lower_char s"

subsection \<open>Decimal numbers\<close>

definition is_digit :: "char \<Rightarrow> bool" where
  "is_digit c \<longleftrightarrow> 48 \<le> (of_char c :: int) \<and> (of_char c :: int) \<le> 57"

definition digit_val :: "char \<Rightarrow> int" where
  "digit_val c = of_char c - 48"

definition digit_char :: "int \<Rightarrow> char" where
  "digit_char n = char_of (48 + n)"

lemma digit_char_val [simp]: "0 \<le> n \<Longrightarrow> n < 10 \<Longrightarrow> digit_val (digit_char n) = n"
  by (simp add: digit_val_def digit_char_def)

lemma is_digit_digit_char [simp]: "0 \<le> n \<Longrightarrow> n < 10 \<Longrightarrow> is_digit (digit_char n)"
  by (simp add: is_digit_def digit_char_def)

text \<open>The decimal digits of a non-negative integer.\<close>

function dec :: "int \<Rightarrow> string" where
  "dec n = (if n < 10 then [digit_char n] else dec (n div 10) @ [digit_char (n mod 10)])"
  by pat_completeness auto
termination
  by (relation "measure nat") auto

declare dec.simps [simp del]

definition str_of_int :: "int \<Rightarrow> string" where
  "str_of_int i = (if i < 0 then ''-'' @ dec (- i) else dec i)"

definition int_of_str :: "string \<Rightarrow> int" where
  "int_of_str s = foldl (\<lambda>n c. 10 * n + digit_val c) 0 s"

lemma int_of_str_snoc [simp]: "int_of_str (s @ [c]) = 10 * int_of_str s + digit_val c"
  by (simp add: int_of_str_def)

lemma int_of_str_dec [simp]: "0 \<le> n \<Longrightarrow> int_of_str (dec n) = n"
proof (induction n rule: dec.induct)
  case (1 n)
  show ?case
  proof (cases "n < 10")
    case True
    with 1 show ?thesis by (simp add: dec.simps [of n] int_of_str_def)
  next
    case False
    with 1 show ?thesis by (simp add: dec.simps [of n])
  qed
qed

lemma dec_digits: "0 \<le> n \<Longrightarrow> c \<in> set (dec n) \<Longrightarrow> is_digit c"
proof (induction n rule: dec.induct)
  case (1 n)
  then show ?case by (cases "n < 10") (auto simp: dec.simps [of n])
qed

lemma dec_nonempty [simp]: "dec n \<noteq> []"
  by (subst dec.simps) simp

lemma dec_inject: "0 \<le> m \<Longrightarrow> 0 \<le> n \<Longrightarrow> dec m = dec n \<longleftrightarrow> m = n"
  by (metis int_of_str_dec)

lemma is_digit_not_special:
  "is_digit c \<Longrightarrow> c \<notin> {CHR '':'', CHR '','', CHR 0x0A, CHR ''-'', CHR ''.'', CHR ''/'', CHR 0x22, CHR '' ''}"
  by (auto simp: is_digit_def)

lemma dec_no_special:
  "0 \<le> n \<Longrightarrow> c \<in> {CHR '':'', CHR '','', CHR 0x0A, CHR ''-'', CHR ''.'', CHR ''/'', CHR 0x22, CHR '' ''}
     \<Longrightarrow> c \<notin> set (dec n)"
  using dec_digits is_digit_not_special by blast

lemma str_of_int_nonneg: "0 \<le> n \<Longrightarrow> str_of_int n = dec n"
  by (simp add: str_of_int_def)

lemma str_of_int_no_newline [simp]: "CHR 0x0A \<notin> set (str_of_int i)"
  using dec_no_special [of i "CHR 0x0A"] dec_no_special [of "- i" "CHR 0x0A"]
  by (auto simp: str_of_int_def)

lemma str_of_int_inject [simp]: "str_of_int i = str_of_int j \<longleftrightarrow> i = j"
proof -
  have neg: "''-'' @ dec a \<noteq> dec b" if "0 \<le> b" for a b
  proof
    assume "''-'' @ dec a = dec b"
    then have "CHR ''-'' \<in> set (dec b)" by (metis append_Cons list.set_intros(1))
    then show False using dec_no_special [OF that] by blast
  qed
  show ?thesis
    using neg [of j "- i"] neg [of i "- j"] dec_inject [of i j] dec_inject [of "- i" "- j"]
    by (auto simp: str_of_int_def)
qed

end
