(* ===== verification/Config.thy ===== *)
theory Config
  imports Pyvalues
begin

text \<open>
  \<open>config.py\<close>: the schema of \<open>beetroot.yaml\<close>, its validators, loading with the
  api-version bump and the legacy ports migration, and the rendering of \<open>.env\<close> and of the
  compose ports override. The type coercion pydantic performs on each section, YAML
  decoding, the file system and the repr of a float are arguments (\<open>yaml_env\<close>,
  \<open>float_repr\<close>); everything the source writes itself (before, field and after validators,
  field bounds, defaults of absent sections) is defined here.
\<close>

named_theorems config_defs \<open>definitions unfolded when a configuration is validated\<close>

section \<open>Constants\<close>

definition SUPPORTED_API_VERSION :: int where
  "SUPPORTED_API_VERSION = 8"

definition AUTO_BUMPABLE_API_VERSIONS :: "int list" where
  "AUTO_BUMPABLE_API_VERSIONS = [1, 2, 3, 4, 5, 6, 7]"

definition VALID_ANDROID_VERSIONS :: "int list" where
  "VALID_ANDROID_VERSIONS = [11, 12, 13, 14]"

definition WELL_KNOWN_SERVICES :: "(string, int) dict" where
  "WELL_KNOWN_SERVICES = [(''adb'', 5555), (''frida'', 27042), (''frida_control'', 27043)]"

definition MIN_PORT :: int where "MIN_PORT = 1"
definition MAX_PORT :: int where "MAX_PORT = 65535"

section \<open>Regular expressions\<close>

text \<open>
  \<open>re.match\<close> with an anchored pattern \<open>^R$\<close>: the dollar also matches just before one
  trailing newline. \<open>fullmatch\<close> has no such exception.
\<close>

definition match_dollar :: "(string \<Rightarrow> bool) \<Rightarrow> string \<Rightarrow> bool" where
  "match_dollar R s \<longleftrightarrow> R s \<or> (s \<noteq> [] \<and> last s = CHR 0x0A \<and> R (butlast s))"

lemma match_dollarI: "R s \<Longrightarrow> match_dollar R s"
  by (simp add: match_dollar_def)

lemma match_dollar_no_newline: "CHR 0x0A \<notin> set s \<Longrightarrow> match_dollar R s \<longleftrightarrow> R s"
  by (auto simp: match_dollar_def dest: last_in_set)

definition digits1 :: "string \<Rightarrow> bool" where
  "digits1 s \<longleftrightarrow> s \<noteq> [] \<and> list_all is_digit s"

definition is_alpha :: "char \<Rightarrow> bool" where
  "is_alpha c \<longleftrightarrow> (let n = of_char c :: int in (65 \<le> n \<and> n \<le> 90) \<or> (97 \<le> n \<and> n \<le> 122))"

definition is_pkg_char :: "char \<Rightarrow> bool" where
  "is_pkg_char c \<longleftrightarrow> is_alpha c \<or> is_digit c \<or> c = CHR ''.'' \<or> c = CHR ''_''"

definition is_hex :: "char \<Rightarrow> bool" where
  "is_hex c \<longleftrightarrow> (let n = of_char c :: int in
     is_digit c \<or> (65 \<le> n \<and> n \<le> 70) \<or> (97 \<le> n \<and> n \<le> 102))"

definition denylist_pkg_re :: "string \<Rightarrow> bool" where
  "denylist_pkg_re s = (case split_on (CHR ''/'') s of
     [p] \<Rightarrow> p \<noteq> [] \<and> list_all is_pkg_char p
   | [p, q] \<Rightarrow> p \<noteq> [] \<and> list_all is_pkg_char p \<and> q \<noteq> [] \<and> list_all is_pkg_char q
   | _ \<Rightarrow> False)"

definition frida_version_re :: "string \<Rightarrow> bool" where
  "frida_version_re s = (case split_on (CHR ''.'') s of
     [a, b, c] \<Rightarrow> digits1 a \<and> digits1 b \<and> digits1 c
   | _ \<Rightarrow> False)"

definition sha256_re :: "string \<Rightarrow> bool" where
  "sha256_re s \<longleftrightarrow> length s = 64 \<and> list_all is_hex s"

text \<open>A decimal \<open>\d+(\.\d+)?\<close> as numerator and denominator.\<close>

definition decimal :: "string \<Rightarrow> (int \<times> int) option" where
  "decimal s = (case split_on (CHR ''.'') s of
     [a] \<Rightarrow> if digits1 a then Some (int_of_str a, 1) else None
   | [a, b] \<Rightarrow> if digits1 a \<and> digits1 b
               then Some (int_of_str (a @ b), 10 ^ length b) else None
   | _ \<Rightarrow> None)"

definition DOCKER_SIZE_MULTIPLIERS :: "(char, int) dict" where
  "DOCKER_SIZE_MULTIPLIERS =
     [(CHR ''b'', 1), (CHR ''k'', 1024), (CHR ''m'', 1024 ^ 2),
      (CHR ''g'', 1024 ^ 3), (CHR ''t'', 1024 ^ 4)]"

definition docker_size_re :: "string \<Rightarrow> bool" where
  "docker_size_re s \<longleftrightarrow> s \<noteq> [] \<and>
     (decimal s \<noteq> None
      \<or> (last s \<in> set ''bkmgtBKMGT'' \<and> decimal (butlast s) \<noteq> None))"

section \<open>Scalar validators\<close>

text \<open>\<open>ValidationErr\<close> is pydantic's \<open>ValidationError\<close> (it wraps the \<open>ValueError\<close>s of the
  validators); \<open>TypeErr\<close> and \<open>OverflowErr\<close> are not wrapped and escape as they are.\<close>

datatype config_error = ValidationErr | TypeErr | OverflowErr

definition validate_android_version :: "int \<Rightarrow> config_error + int" where
  "validate_android_version v =
     (if v \<notin> set VALID_ANDROID_VERSIONS then Inl ValidationErr else Inr v)"

definition check_sha256_shape :: "string option \<Rightarrow> config_error + string option" where
  "check_sha256_shape v = (case v of
     None \<Rightarrow> Inr v
   | Some s \<Rightarrow> if sha256_re s then Inr v else Inl ValidationErr)"

definition is_pinned_frida_version :: "string \<Rightarrow> bool" where
  "is_pinned_frida_version v = match_dollar frida_version_re v"

definition check_docker_size :: "string \<Rightarrow> config_error + string" where
  "check_docker_size v =
     (if \<not> match_dollar docker_size_re v then Inl ValidationErr else Inr v)"

subsection \<open>Docker sizes in bytes: Python floats\<close>

text \<open>
  \<open>float(s)\<close> rounds the decimal to the nearest double, ties to even. A double is a
  mantissa and a power of two. The exponent range only matters at the top (an overflow to
  infinity, on which \<open>int\<close> raises): below the smallest normal double every size rounds
  down to zero bytes.
\<close>

definition round_half_even :: "int \<Rightarrow> int \<Rightarrow> int" where
  "round_half_even n d =
     (let q = n div d; r = n mod d
      in if 2 * r < d then q else if 2 * r > d then q + 1 else if even q then q else q + 1)"

definition double_of_ratio :: "int \<Rightarrow> int \<Rightarrow> int \<times> int" where
  "double_of_ratio n d =
     (if n = 0 then (0, 0)
      else let k = bitlen n - bitlen d;
               e = (if n * 2 ^ nat (- k) \<ge> d * 2 ^ nat k then k else k - 1);
               s = e - 52
           in (round_half_even (n * 2 ^ nat (- s)) (d * 2 ^ nat s), s))"

text \<open>\<open>int(x * mult)\<close> for a double \<open>x\<close> and a power of two \<open>mult\<close>.\<close>

definition int_of_scaled :: "int \<times> int \<Rightarrow> int \<Rightarrow> config_error + int" where
  "int_of_scaled x mult =
     (case x of (m, s) \<Rightarrow>
        let b = (m * mult * 2 ^ nat s) div 2 ^ nat (- s)
        in if b \<ge> 2 ^ 1024 then Inl OverflowErr else Inr b)"

text \<open>\<open>float(s)\<close> on the decimals of the size grammar; surrounding whitespace is ignored.\<close>

definition py_float :: "string \<Rightarrow> config_error + int \<times> int" where
  "py_float s =
     (let t = (if s \<noteq> [] \<and> last s = CHR 0x0A then butlast s else s)
      in case decimal t of None \<Rightarrow> Inl ValidationErr | Some (n, d) \<Rightarrow> Inr (double_of_ratio n d))"

definition docker_size_to_bytes :: "string \<Rightarrow> config_error + int" where
  "docker_size_to_bytes v =
     (case dict_get DOCKER_SIZE_MULTIPLIERS (lower_char (last v)) of
        Some mult \<Rightarrow> and_then (py_float (butlast v)) (\<lambda>x. int_of_scaled x mult)
      | None \<Rightarrow> and_then (py_float v) (\<lambda>x. int_of_scaled x 1))"

end
