(* ===== verification/Config_Schema.thy ===== *)
theory Config_Schema
  imports Config
begin

text \<open>
  The model classes of \<open>config.py\<close>: one record per class, its validators in the order
  pydantic runs them (before validators, type coercion, field validators, after
  validators), and the validation of a whole document. \<open>coercer\<close> is pydantic's own part:
  it turns the fields of one section into typed values or rejects them.
\<close>

section \<open>Sections of the schema\<close>

datatype rendering = Gpu | Software | RenderAuto
datatype gapps_intent = GappsNone | GappsMinimal | GappsFull
datatype gapps_vendor = LiteGapps | OpenGapps | MindTheGapps
datatype binder_mode = BinderAuto | BinderHost | BinderVm
datatype lifecycle = Ephemeral | Durable
datatype accel = AccelAuto | AccelKvm | AccelTcg
datatype smp = SmpAuto | SmpCount int

record display =
  width :: int
  height :: int
  fps :: int
  rendering :: rendering

record resources =
  mem :: string
  cpus :: rat
  shared_mem :: string
  mem_reservation :: "string option"
  memswap_limit :: "string option"
  pids_limit :: int

record frida =
  frida_version :: string
  frida_sha256 :: "string option"

record module =
  module_url :: "string option"
  module_path :: "string option"
  module_sha256 :: "string option"

record magisk =
  denylist :: "string list"

record android =
  version :: int
  gapps :: gapps_intent
  gapps_vendor :: "gapps_vendor option"

record port_mapping =
  service :: "string option"
  guest :: int
  host :: "int option"

record vm =
  kernel :: "string option"
  rootfs :: "string option"
  accel :: accel
  smp :: smp
  memory_mib :: int
  boot_cache :: bool

record instance_config =
  api_version :: int
  lifecycle :: lifecycle
  android :: android
  display :: display
  resources :: resources
  frida :: "frida option"
  modules :: "module list"
  magisk :: magisk
  ports :: "port_mapping list"
  binder_mode :: binder_mode
  vm :: vm

section \<open>Defaults\<close>

definition default_display :: display where
  "default_display = \<lparr>width = 540, height = 960, fps = 3, rendering = RenderAuto\<rparr>"

definition default_resources :: resources where
  "default_resources = \<lparr>mem = ''3g'', cpus = 2, shared_mem = ''256m'', mem_reservation = None,
     memswap_limit = None, pids_limit = 4096\<rparr>"

definition DEFAULT_DENYLIST :: "string list" where
  "DEFAULT_DENYLIST =
     [''com.google.android.gms'', ''com.google.android.gms/com.google.android.gms.unstable'']"

definition default_magisk :: magisk where
  "default_magisk = \<lparr>denylist = DEFAULT_DENYLIST\<rparr>"

definition default_android :: android where
  "default_android = \<lparr>version = 14, gapps = GappsMinimal, gapps_vendor = None\<rparr>"

definition default_vm :: vm where
  "default_vm = \<lparr>kernel = None, rootfs = None, accel = AccelAuto, smp = SmpAuto,
     memory_mib = 8192, boot_cache = False\<rparr>"

definition default_port_mappings :: "port_mapping list" where
  "default_port_mappings =
     map (\<lambda>(s, g). \<lparr>service = Some s, guest = g, host = None\<rparr>) WELL_KNOWN_SERVICES"

definition default_config :: instance_config where
  "default_config = \<lparr>api_version = SUPPORTED_API_VERSION, lifecycle = Durable,
     android = default_android, display = default_display, resources = default_resources,
     frida = None, modules = [], magisk = default_magisk, ports = default_port_mappings,
     binder_mode = BinderAuto, vm = default_vm\<rparr>"

section \<open>Validators of the sections\<close>

subsection \<open>Before validators: renamed and removed keys\<close>

definition reject_gpu_mode :: "pyval \<Rightarrow> bool" where
  "reject_gpu_mode data \<longleftrightarrow> is_dict data \<and> has_str (as_dict data) ''gpu_mode''"

definition reject_legacy_shm :: "pyval \<Rightarrow> bool" where
  "reject_legacy_shm data \<longleftrightarrow> is_dict data \<and> has_str (as_dict data) ''shm''"

definition reject_base_image :: "pyval \<Rightarrow> bool" where
  "reject_base_image data \<longleftrightarrow> is_dict data \<and> has_str (as_dict data) ''base_image''"

text \<open>\<open>data.get("gapps") in _LEGACY_GAPPS_VENDOR_VALUES\<close>: an unhashable operand raises.\<close>

definition legacy_gapps_value :: "pyval \<Rightarrow> config_error + bool" where
  "legacy_gapps_value v =
     (if \<not> hashable v then Inl TypeErr else Inr (v \<in> {PStr ''lite'', PStr ''mindthegapps''}))"

definition reject_legacy_gapps_vendor_value :: "pyval \<Rightarrow> config_error + unit" where
  "reject_legacy_gapps_vendor_value data =
     (if \<not> is_dict data then Inr ()
      else and_then (legacy_gapps_value (get_str (as_dict data) ''gapps''))
             (\<lambda>legacy. require (\<not> legacy) ValidationErr))"

subsection \<open>Field bounds, field validators and after validators\<close>

definition display_ok :: "display \<Rightarrow> bool" where
  "display_ok d \<longleftrightarrow> width d > 0 \<and> height d > 0 \<and> fps d > 0"

definition MEMSWAP_UNLIMITED :: string where
  "MEMSWAP_UNLIMITED = ''-1''"

definition check_size_optional :: "bool \<Rightarrow> string option \<Rightarrow> bool" where
  "check_size_optional is_memswap v = (case v of
     None \<Rightarrow> True
   | Some s \<Rightarrow> (is_memswap \<and> s = MEMSWAP_UNLIMITED) \<or> is_ok (check_docker_size s))"

definition check_memory_ordering :: "resources \<Rightarrow> config_error + unit" where
  "check_memory_ordering r =
     and_then (docker_size_to_bytes (mem r)) (\<lambda>mem_bytes.
     and_then (case mem_reservation r of
         None \<Rightarrow> Inr ()
       | Some s \<Rightarrow> and_then (docker_size_to_bytes s)
                    (\<lambda>b. require (\<not> b > mem_bytes) ValidationErr)) (\<lambda>_.
     (case memswap_limit r of
         None \<Rightarrow> Inr ()
       | Some s \<Rightarrow> if s = MEMSWAP_UNLIMITED then Inr ()
                    else and_then (docker_size_to_bytes s)
                           (\<lambda>b. require (\<not> b < mem_bytes) ValidationErr))))"

definition resources_fields_ok :: "resources \<Rightarrow> bool" where
  "resources_fields_ok r \<longleftrightarrow> is_ok (check_docker_size (mem r)) \<and> cpus r > 0
     \<and> is_ok (check_docker_size (shared_mem r))
     \<and> check_size_optional False (mem_reservation r)
     \<and> check_size_optional True (memswap_limit r) \<and> pids_limit r \<ge> 1"

definition validate_resources :: "resources \<Rightarrow> config_error + unit" where
  "validate_resources r =
     (if \<not> resources_fields_ok r then Inl ValidationErr else check_memory_ordering r)"

definition FRIDA_SYMBOLIC_VERSIONS :: "string list" where
  "FRIDA_SYMBOLIC_VERSIONS = [''auto'', ''latest'']"

definition frida_check_version_shape :: "string \<Rightarrow> bool" where
  "frida_check_version_shape v \<longleftrightarrow>
     v \<in> set FRIDA_SYMBOLIC_VERSIONS \<or> is_pinned_frida_version v"

definition frida_ok :: "frida \<Rightarrow> bool" where
  "frida_ok f \<longleftrightarrow> frida_check_version_shape (frida_version f)
     \<and> is_ok (check_sha256_shape (frida_sha256 f))
     \<and> \<not> (frida_sha256 f \<noteq> None \<and> frida_version f \<in> set FRIDA_SYMBOLIC_VERSIONS)"

text \<open>Python truthiness of an optional string: set and non-empty.\<close>

abbreviation nonempty :: "string option \<Rightarrow> bool" where
  "nonempty s \<equiv> s \<noteq> None \<and> s \<noteq> Some []"

definition module_post_init :: "module \<Rightarrow> bool" where
  "module_post_init m \<longleftrightarrow>
     \<not> (\<not> nonempty (module_url m) \<and> \<not> nonempty (module_path m))
     \<and> \<not> (nonempty (module_url m) \<and> nonempty (module_path m))
     \<and> (case module_url m of None \<Rightarrow> True
        | Some u \<Rightarrow> u = [] \<or> startswith u ''http://'' \<or> startswith u ''https://'')"

definition module_ok :: "module \<Rightarrow> bool" where
  "module_ok m \<longleftrightarrow> is_ok (check_sha256_shape (module_sha256 m)) \<and> module_post_init m"

definition check_packages :: "string list \<Rightarrow> bool" where
  "check_packages value = list_all (match_dollar denylist_pkg_re) value"

definition android_ok :: "android \<Rightarrow> bool" where
  "android_ok a \<longleftrightarrow> is_ok (validate_android_version (version a))
     \<and> \<not> (gapps a = GappsNone \<and> gapps_vendor a \<noteq> None)"

definition port_mapping_ok :: "port_mapping \<Rightarrow> bool" where
  "port_mapping_ok m \<longleftrightarrow> (MIN_PORT \<le> guest m \<and> guest m \<le> MAX_PORT)
     \<and> (case host m of None \<Rightarrow> True | Some v \<Rightarrow> MIN_PORT \<le> v \<and> v \<le> MAX_PORT)"

definition vm_ok :: "vm \<Rightarrow> bool" where
  "vm_ok v \<longleftrightarrow> memory_mib v \<ge> 256 \<and> (case smp v of SmpAuto \<Rightarrow> True | SmpCount n \<Rightarrow> \<not> n < 1)"

section \<open>Validators of the whole configuration\<close>

definition check_ports_distinct :: "instance_config \<Rightarrow> bool" where
  "check_ports_distinct c \<longleftrightarrow>
     distinct (List.map_filter service (ports c))
     \<and> distinct (map guest (ports c))
     \<and> distinct (List.map_filter host (ports c))"

definition services_of :: "port_mapping list \<Rightarrow> string list" where
  "services_of ps = List.map_filter service ps"

definition canonical_guest :: "port_mapping \<Rightarrow> bool" where
  "canonical_guest m = (case service m of None \<Rightarrow> True
     | Some s \<Rightarrow> (case dict_get WELL_KNOWN_SERVICES s of None \<Rightarrow> True | Some g \<Rightarrow> guest m = g))"

definition check_required_addressing_services :: "instance_config \<Rightarrow> bool" where
  "check_required_addressing_services c \<longleftrightarrow>
     list_all canonical_guest (ports c)
     \<and> ''adb'' \<in> set (services_of (ports c))
     \<and> \<not> (frida c \<noteq> None \<and> ''frida'' \<notin> set (services_of (ports c)))
     \<and> \<not> (frida c \<noteq> None \<and> ''frida_control'' \<notin> set (services_of (ports c)))"

definition check_api_version :: "instance_config \<Rightarrow> bool" where
  "check_api_version c \<longleftrightarrow> api_version c = SUPPORTED_API_VERSION"

definition config_after_ok :: "instance_config \<Rightarrow> bool" where
  "config_after_ok c \<longleftrightarrow> check_ports_distinct c \<and> check_required_addressing_services c
     \<and> check_api_version c"

text \<open>The type invariant every validated configuration satisfies.\<close>

definition config_valid :: "instance_config \<Rightarrow> bool" where
  "config_valid c \<longleftrightarrow> android_ok (android c) \<and> display_ok (display c)
     \<and> validate_resources (resources c) = Inr ()
     \<and> (case frida c of None \<Rightarrow> True | Some f \<Rightarrow> frida_ok f)
     \<and> list_all module_ok (modules c) \<and> check_packages (denylist (magisk c))
     \<and> list_all port_mapping_ok (ports c) \<and> vm_ok (vm c) \<and> config_after_ok c"

end
