(* ===== verification/Config_Load.thy ===== *)
theory Config_Load
  imports Config_Schema
begin

text \<open>
  Validation of a decoded document, \<open>load_yaml\<close> with its advisory notes and their
  per-path deduplication, \<open>write_yaml\<close>, and what is derived from a configuration: image
  tags, the inert-field advisory, the \<open>.env\<close> file and the compose ports override.
\<close>

section \<open>Validation of a document\<close>

text \<open>pydantic's coercion of each section (defaults of absent fields included).\<close>

record coercer =
  co_top :: "(pyval \<times> pyval) list \<Rightarrow> (int \<times> lifecycle \<times> binder_mode) option"
  co_android :: "pyval \<Rightarrow> android option"
  co_display :: "pyval \<Rightarrow> display option"
  co_resources :: "pyval \<Rightarrow> resources option"
  co_frida :: "pyval \<Rightarrow> frida option"
  co_module :: "pyval \<Rightarrow> module option"
  co_magisk :: "pyval \<Rightarrow> magisk option"
  co_port :: "pyval \<Rightarrow> port_mapping option"
  co_vm :: "pyval \<Rightarrow> vm option"

definition of_option :: "'a option \<Rightarrow> config_error + 'a" where
  "of_option r = (case r of None \<Rightarrow> Inl ValidationErr | Some v \<Rightarrow> Inr v)"

definition guarded :: "('a \<Rightarrow> bool) \<Rightarrow> 'a option \<Rightarrow> config_error + 'a" where
  "guarded ok r = and_then (of_option r) (\<lambda>v. and_then (require (ok v) ValidationErr) (\<lambda>_. Inr v))"

lemma guarded_Inr_iff [simp]: "guarded ok r = Inr v \<longleftrightarrow> r = Some v \<and> ok v"
  by (auto simp: guarded_def of_option_def result_simps split: option.splits)

definition validate_android :: "coercer \<Rightarrow> pyval \<Rightarrow> config_error + android" where
  "validate_android co data =
     and_then (reject_legacy_gapps_vendor_value data) (\<lambda>_.
     and_then (require (\<not> reject_base_image data) ValidationErr) (\<lambda>_.
     guarded android_ok (co_android co data)))"

definition validate_display :: "coercer \<Rightarrow> pyval \<Rightarrow> config_error + display" where
  "validate_display co data =
     and_then (require (\<not> reject_gpu_mode data) ValidationErr) (\<lambda>_.
     guarded display_ok (co_display co data))"

definition validate_resources_section :: "coercer \<Rightarrow> pyval \<Rightarrow> config_error + resources" where
  "validate_resources_section co data =
     and_then (require (\<not> reject_legacy_shm data) ValidationErr) (\<lambda>_.
     and_then (of_option (co_resources co data)) (\<lambda>r.
     and_then (validate_resources r) (\<lambda>_. Inr r)))"

definition validate_frida :: "coercer \<Rightarrow> pyval \<Rightarrow> config_error + frida option" where
  "validate_frida co data =
     (if data = PNone then Inr None
      else and_then (guarded frida_ok (co_frida co data)) (\<lambda>f. Inr (Some f)))"

definition validate_list :: "(pyval \<Rightarrow> 'a option) \<Rightarrow> ('a \<Rightarrow> bool) \<Rightarrow> pyval \<Rightarrow> config_error + 'a list" where
  "validate_list co ok data = (case data of
     PList xs \<Rightarrow> guarded (list_all ok) (those (map co xs))
   | _ \<Rightarrow> Inl ValidationErr)"

text \<open>A field of the document: absent means the default, present means validated.\<close>

definition field_of :: "(pyval \<times> pyval) list \<Rightarrow> string \<Rightarrow> (pyval \<Rightarrow> config_error + 'a) \<Rightarrow> 'a
    \<Rightarrow> config_error + 'a" where
  "field_of d key validate dflt =
     (case dict_get d (PStr key) of None \<Rightarrow> Inr dflt | Some v \<Rightarrow> validate v)"

definition err_of :: "config_error + 'a \<Rightarrow> config_error list" where
  "err_of r = (case r of Inl e \<Rightarrow> [e] | Inr _ \<Rightarrow> [])"

text \<open>Validation errors are collected over the fields; any other exception escapes at once.\<close>

definition first_error :: "config_error list \<Rightarrow> config_error option" where
  "first_error es = (case filter (\<lambda>e. e \<noteq> ValidationErr) es of
     e # _ \<Rightarrow> Some e
   | [] \<Rightarrow> if es = [] then None else Some ValidationErr)"

lemma first_error_None [simp]: "first_error es = None \<longleftrightarrow> es = []"
  by (auto simp: first_error_def split: list.splits)

lemma err_of_Nil [simp]: "err_of r = [] \<longleftrightarrow> is_ok r"
  by (cases r) (auto simp: err_of_def)

definition validate_fields :: "coercer \<Rightarrow> (pyval \<times> pyval) list \<Rightarrow> config_error + instance_config" where
  "validate_fields co d =
     (let t = of_option (co_top co d);
          a = field_of d ''android'' (validate_android co) default_android;
          di = field_of d ''display'' (validate_display co) default_display;
          r = field_of d ''resources'' (validate_resources_section co) default_resources;
          f = field_of d ''frida'' (validate_frida co) None;
          m = field_of d ''modules'' (validate_list (co_module co) module_ok) [];
          g = field_of d ''magisk''
                (\<lambda>v. guarded (\<lambda>x. check_packages (denylist x)) (co_magisk co v)) default_magisk;
          p = field_of d ''ports'' (validate_list (co_port co) port_mapping_ok)
                default_port_mappings;
          v = field_of d ''vm'' (\<lambda>x. guarded vm_ok (co_vm co x)) default_vm
      in case first_error (err_of t @ err_of a @ err_of di @ err_of r @ err_of f @ err_of m
                           @ err_of g @ err_of p @ err_of v) of
           Some e \<Rightarrow> Inl e
         | None \<Rightarrow> Inr \<lparr>api_version = fst (projr t), lifecycle = fst (snd (projr t)),
             android = projr a, display = projr di, resources = projr r, frida = projr f,
             modules = projr m, magisk = projr g, ports = projr p,
             binder_mode = snd (snd (projr t)), vm = projr v\<rparr>)"

subsection \<open>Before validators of the whole document\<close>

definition is_well_known :: "pyval \<Rightarrow> bool" where
  "is_well_known k \<longleftrightarrow> k \<in> PStr ` set (dict_keys WELL_KNOWN_SERVICES)"

lemma is_well_known_code [code, simp]:
  "is_well_known k = (case k of PStr s \<Rightarrow> s \<in> set (dict_keys WELL_KNOWN_SERVICES) | _ \<Rightarrow> False)"
  by (auto simp: is_well_known_def split: pyval.split)

text \<open>\<open>sorted(keys)\<close> raises on keys that do not compare.\<close>

definition py_sortable :: "pyval list \<Rightarrow> bool" where
  "py_sortable ks \<longleftrightarrow> length ks \<le> 1 \<or> list_all (\<lambda>k. py_num k \<noteq> None) ks
     \<or> list_all (\<lambda>k. case k of PStr _ \<Rightarrow> True | _ \<Rightarrow> False) ks"

definition migrated_ports :: "(pyval \<times> pyval) list \<Rightarrow> pyval" where
  "migrated_ports raw_ports = PList (map (\<lambda>(s, g). PDict
     [(PStr ''service'', PStr s), (PStr ''guest'', PInt g), (PStr ''host'', get_str raw_ports s)])
     WELL_KNOWN_SERVICES)"

definition migrate_legacy_ports_mapping :: "pyval \<Rightarrow> config_error + pyval" where
  "migrate_legacy_ports_mapping data = (case data of
     PDict d \<Rightarrow> (case get_str d ''ports'' of
         PDict raw_ports \<Rightarrow>
           if raw_ports = [] then Inr (PDict (dict_pop (PStr ''ports'') d))
           else let unknown = filter (\<lambda>k. \<not> is_well_known k) (dict_keys raw_ports)
                in if \<not> py_sortable unknown then Inl TypeErr
                   else if unknown \<noteq> [] then Inl ValidationErr
                   else Inr (PDict (dict_set (PStr ''ports'') (migrated_ports raw_ports) d))
       | _ \<Rightarrow> Inr data)
   | _ \<Rightarrow> Inr data)"

definition reject_stealth_key :: "pyval \<Rightarrow> bool" where
  "reject_stealth_key data \<longleftrightarrow> is_dict data \<and> has_str (as_dict data) ''stealth''"

definition InstanceConfig_model_validate :: "coercer \<Rightarrow> pyval \<Rightarrow> config_error + instance_config" where
  "InstanceConfig_model_validate co raw =
     and_then (migrate_legacy_ports_mapping raw) (\<lambda>data.
     and_then (require (\<not> reject_stealth_key data) ValidationErr) (\<lambda>_.
     and_then (require (is_dict data) ValidationErr) (\<lambda>_.
     and_then (validate_fields co (as_dict data)) (\<lambda>c.
     and_then (require (config_after_ok c) ValidationErr) (\<lambda>_. Inr c)))))"

section \<open>Loading a file\<close>

datatype advisory =
    NoteAutoBump pyval string
  | NotePortsMigrated
  | NoteVendorOverride string
  | NotePrivilegedPorts "int list"
  | NoteInert string "string list"
  | NoteRegistryBackup string
  | NoteV02Registry

datatype load_error = FileNotFound | YamlErr | Rejected config_error

record yaml_env =
  read_text :: "string \<Rightarrow> string option"
  safe_load :: "string \<Rightarrow> pyval option"
  resolve_path :: "string \<Rightarrow> string"
  coerce :: coercer

text \<open>The module-level dedup sets and what was printed on the console.\<close>

record load_state =
  bump_warned :: "string list"
  ports_warned :: "string list"
  vendor_warned :: "string list"
  printed :: "advisory list"

definition emit :: "advisory \<Rightarrow> load_state \<Rightarrow> load_state" where
  "emit n st = st\<lparr>printed := printed st @ [n]\<rparr>"

text \<open>\<open>raw.get("api_version") in _AUTO_BUMPABLE_API_VERSIONS\<close>.\<close>

definition auto_bumpable :: "pyval \<Rightarrow> config_error + bool" where
  "auto_bumpable v =
     (if \<not> hashable v then Inl TypeErr else Inr (list_ex (eq_int v) AUTO_BUMPABLE_API_VERSIONS))"

definition renamed_key_present :: "(pyval \<times> pyval) list \<Rightarrow> config_error + bool" where
  "renamed_key_present raw =
     (if has_str raw ''stealth'' then Inr True
      else if is_dict (get_str raw ''display'')
              \<and> has_str (as_dict (get_str raw ''display'')) ''gpu_mode'' then Inr True
      else and_then
        (if is_dict (get_str raw ''android'')
         then legacy_gapps_value (get_str (as_dict (get_str raw ''android'')) ''gapps'')
         else Inr False)
        (\<lambda>legacy. Inr (legacy \<or>
           (is_dict (get_str raw ''ports'')
            \<and> list_ex (\<lambda>k. \<not> is_well_known k) (dict_keys (as_dict (get_str raw ''ports'')))))))"

text \<open>The api-version bump: the rewritten document and the state after the note.\<close>

definition bump_api_version :: "yaml_env \<Rightarrow> string \<Rightarrow> pyval \<Rightarrow> load_state \<Rightarrow>
    (config_error + pyval) \<times> load_state" where
  "bump_api_version env path raw st = (case raw of
     PDict d \<Rightarrow> (case auto_bumpable (get_str d ''api_version'') of
         Inl e \<Rightarrow> (Inl e, st)
       | Inr False \<Rightarrow> (Inr raw, st)
       | Inr True \<Rightarrow> (case renamed_key_present d of
             Inl e \<Rightarrow> (Inl e, st)
           | Inr renamed \<Rightarrow>
               let resolved = resolve_path env path;
                   st' = (if \<not> renamed \<and> resolved \<notin> set (bump_warned st)
                          then (emit (NoteAutoBump (get_str d ''api_version'') path) st)
                                 \<lparr>bump_warned := resolved # bump_warned st\<rparr>
                          else st)
               in (Inr (PDict (dict_set (PStr ''api_version'') (PInt SUPPORTED_API_VERSION) d)),
                   st')))
   | _ \<Rightarrow> (Inr raw, st))"

definition note_ports_migration :: "yaml_env \<Rightarrow> string \<Rightarrow> pyval \<Rightarrow> load_state \<Rightarrow> load_state" where
  "note_ports_migration env path raw st =
     (let p = get_str (as_dict raw) ''ports''; resolved = resolve_path env path
      in if is_dict raw \<and> is_dict p \<and> as_dict p \<noteq> [] \<and> list_all is_well_known (dict_keys (as_dict p))
            \<and> resolved \<notin> set (ports_warned st)
         then (emit NotePortsMigrated st)\<lparr>ports_warned := resolved # ports_warned st\<rparr>
         else st)"

definition note_vendor_override :: "yaml_env \<Rightarrow> string \<Rightarrow> instance_config \<Rightarrow> load_state \<Rightarrow> load_state" where
  "note_vendor_override env path cfg st =
     (let resolved = resolve_path env path
      in if gapps_vendor (android cfg) \<noteq> None \<and> gapps (android cfg) \<noteq> GappsNone
            \<and> resolved \<notin> set (vendor_warned st)
         then (emit (NoteVendorOverride path) st)\<lparr>vendor_warned := resolved # vendor_warned st\<rparr>
         else st)"

definition load_yaml :: "yaml_env \<Rightarrow> string \<Rightarrow> load_state \<Rightarrow>
    (load_error + instance_config) \<times> load_state" where
  "load_yaml env path st = (case read_text env path of
     None \<Rightarrow> (Inl FileNotFound, st)
   | Some text \<Rightarrow> (case safe_load env text of
       None \<Rightarrow> (Inl YamlErr, st)
     | Some v \<Rightarrow>
         let raw = (if v = PNone then PDict [] else v)
         in case bump_api_version env path raw st of
              (Inl e, st1) \<Rightarrow> (Inl (Rejected e), st1)
            | (Inr raw1, st1) \<Rightarrow>
                let st2 = note_ports_migration env path raw1 st1
                in case InstanceConfig_model_validate (coerce env) raw1 of
                     Inl e \<Rightarrow> (Inl (Rejected e), st2)
                   | Inr cfg \<Rightarrow> (Inr cfg, note_vendor_override env path cfg st2)))"

section \<open>Writing a file\<close>

definition dump_opt :: "('a \<Rightarrow> pyval) \<Rightarrow> 'a option \<Rightarrow> pyval" where
  "dump_opt f v = (case v of None \<Rightarrow> PNone | Some x \<Rightarrow> f x)"

abbreviation fields :: "(string \<times> pyval) list \<Rightarrow> pyval" where
  "fields kvs \<equiv> PDict (map (\<lambda>(k, v). (PStr k, v)) kvs)"

definition dump_android :: "android \<Rightarrow> pyval" where
  "dump_android a = fields
     [(''version'', PInt (version a)),
      (''gapps'', PStr (case gapps a of GappsNone \<Rightarrow> ''none'' | GappsMinimal \<Rightarrow> ''minimal''
                        | GappsFull \<Rightarrow> ''full'')),
      (''gapps_vendor'', dump_opt (\<lambda>v. PStr (case v of LiteGapps \<Rightarrow> ''litegapps''
         | OpenGapps \<Rightarrow> ''opengapps'' | MindTheGapps \<Rightarrow> ''mindthegapps'')) (gapps_vendor a))]"

definition dump_display :: "display \<Rightarrow> pyval" where
  "dump_display d = fields
     [(''width'', PInt (width d)), (''height'', PInt (height d)), (''fps'', PInt (fps d)),
      (''rendering'', PStr (case rendering d of Gpu \<Rightarrow> ''gpu'' | Software \<Rightarrow> ''software''
                            | RenderAuto \<Rightarrow> ''auto''))]"

definition dump_resources :: "resources \<Rightarrow> pyval" where
  "dump_resources r = fields
     [(''mem'', PStr (mem r)), (''cpus'', PFloat (cpus r)), (''shared_mem'', PStr (shared_mem r)),
      (''mem_reservation'', dump_opt PStr (mem_reservation r)),
      (''memswap_limit'', dump_opt PStr (memswap_limit r)), (''pids_limit'', PInt (pids_limit r))]"

definition dump_frida :: "frida \<Rightarrow> pyval" where
  "dump_frida f = fields [(''version'', PStr (frida_version f)), (''sha256'', dump_opt PStr (frida_sha256 f))]"

definition dump_module :: "module \<Rightarrow> pyval" where
  "dump_module m = fields
     [(''url'', dump_opt PStr (module_url m)), (''path'', dump_opt PStr (module_path m)),
      (''sha256'', dump_opt PStr (module_sha256 m))]"

definition dump_magisk :: "magisk \<Rightarrow> pyval" where
  "dump_magisk m = fields [(''denylist'', PList (map PStr (denylist m)))]"

definition dump_port :: "port_mapping \<Rightarrow> pyval" where
  "dump_port m = fields
     [(''service'', dump_opt PStr (service m)), (''guest'', PInt (guest m)),
      (''host'', dump_opt PInt (host m))]"

definition dump_vm :: "vm \<Rightarrow> pyval" where
  "dump_vm v = fields
     [(''kernel'', dump_opt PStr (kernel v)), (''rootfs'', dump_opt PStr (rootfs v)),
      (''accel'', PStr (case accel v of AccelAuto \<Rightarrow> ''auto'' | AccelKvm \<Rightarrow> ''kvm'' | AccelTcg \<Rightarrow> ''tcg'')),
      (''smp'', case smp v of SmpAuto \<Rightarrow> PStr ''auto'' | SmpCount n \<Rightarrow> PInt n),
      (''memory_mib'', PInt (memory_mib v)), (''boot_cache'', PBool (boot_cache v))]"

text \<open>\<open>cfg.model_dump()\<close>: every field in declaration order.\<close>

definition dump_config_fields :: "instance_config \<Rightarrow> (pyval \<times> pyval) list" where
  "dump_config_fields c = as_dict (fields
     [(''api_version'', PInt (api_version c)),
      (''lifecycle'', PStr (case lifecycle c of Ephemeral \<Rightarrow> ''ephemeral'' | Durable \<Rightarrow> ''durable'')),
      (''android'', dump_android (android c)), (''display'', dump_display (display c)),
      (''resources'', dump_resources (resources c)), (''frida'', dump_opt dump_frida (frida c)),
      (''modules'', PList (map dump_module (modules c))), (''magisk'', dump_magisk (magisk c)),
      (''ports'', PList (map dump_port (ports c))),
      (''binder'', PStr (case binder_mode c of BinderAuto \<Rightarrow> ''auto'' | BinderHost \<Rightarrow> ''host''
                         | BinderVm \<Rightarrow> ''vm'')),
      (''vm'', dump_vm (vm c))])"

definition write_yaml :: "(pyval \<Rightarrow> string) \<Rightarrow> string \<Rightarrow> instance_config \<Rightarrow> yaml_env \<Rightarrow> yaml_env" where
  "write_yaml safe_dump path cfg env =
     env\<lparr>read_text := (read_text env)(path \<mapsto> safe_dump (PDict (dump_config_fields cfg)))\<rparr>"

section \<open>Derived values\<close>

definition resolve_rendering :: "bool \<Rightarrow> rendering \<Rightarrow> string" where
  "resolve_rendering host_has_render_node r = (case r of
     Gpu \<Rightarrow> ''host'' | Software \<Rightarrow> ''guest''
   | RenderAuto \<Rightarrow> if host_has_render_node then ''host'' else ''guest'')"

definition resolve_gapps_vendor :: "android \<Rightarrow> gapps_vendor option" where
  "resolve_gapps_vendor a = (case gapps_vendor a of
     Some v \<Rightarrow> Some v
   | None \<Rightarrow> (case gapps a of GappsNone \<Rightarrow> None | GappsMinimal \<Rightarrow> Some LiteGapps
              | GappsFull \<Rightarrow> Some OpenGapps))"

definition VENDOR_SLUG :: "gapps_vendor \<Rightarrow> string" where
  "VENDOR_SLUG v = (case v of LiteGapps \<Rightarrow> ''_litegapps'' | OpenGapps \<Rightarrow> ''_gapps''
     | MindTheGapps \<Rightarrow> ''_mindthegapps'')"

definition base_image_tag :: "android \<Rightarrow> string" where
  "base_image_tag a =
     (let slug = (case resolve_gapps_vendor a of None \<Rightarrow> [] | Some v \<Rightarrow> VENDOR_SLUG v)
      in ''redroid/redroid:'' @ str_of_int (version a) @ ''.0.0'' @ slug @ ''_houdini_magisk'')"

definition vm_redroid_image :: "int \<Rightarrow> string" where
  "vm_redroid_image v = ''redroid/redroid:'' @ str_of_int v @ ''.0.0-latest''"

definition inert_fields :: "instance_config \<Rightarrow> string list" where
  "inert_fields cfg =
     (if binder_mode cfg \<noteq> BinderVm then []
      else (if gapps (android cfg) \<noteq> GappsNone then [''android.gapps''] else [])
         @ (if frida cfg \<noteq> None then [''frida''] else [])
         @ (if denylist (magisk cfg) \<noteq> [] \<and> denylist (magisk cfg) \<noteq> denylist default_magisk
            then [''magisk.denylist''] else [])
         @ (if modules cfg \<noteq> [] then [''modules''] else [])
         @ (if display cfg \<noteq> default_display then [''display''] else [])
         @ (if filter (\<lambda>m. \<not> (case service m of None \<Rightarrow> False
                              | Some s \<Rightarrow> s \<in> set (dict_keys WELL_KNOWN_SERVICES))) (ports cfg) \<noteq> []
            then [''ports''] else []))"

definition warn_inert_fields :: "instance_config \<Rightarrow> string \<Rightarrow> load_state \<Rightarrow> load_state" where
  "warn_inert_fields cfg name st =
     (if inert_fields cfg = [] then st else emit (NoteInert name (inert_fields cfg)) st)"

definition STEALTH_PATH_DEFAULTS :: "(string, string) dict" where
  "STEALTH_PATH_DEFAULTS = [(''magisk_db'', ''/data/adb/magisk.db''),
     (''modules_dir'', ''/data/adb/modules_update''),
     (''frida_bin'', ''/data/local/tmp/frida-server'')]"

text \<open>The lines of the \<open>.env\<close> file as variable and value.\<close>

definition render_env_vars :: "(rat \<Rightarrow> string) \<Rightarrow> bool \<Rightarrow> string \<Rightarrow> instance_config \<Rightarrow>
    (string, string) dict option \<Rightarrow> (string \<times> string) list" where
  "render_env_vars float_repr has_node name cfg stealth_paths =
     (let resolved = dict_merge STEALTH_PATH_DEFAULTS
                       (case stealth_paths of None \<Rightarrow> [] | Some d \<Rightarrow> d);
          path = (\<lambda>k. the (dict_get resolved k)); r = resources cfg; d = display cfg
      in [(''INSTANCE_NAME'', name),
          (''BASE_IMAGE'', base_image_tag (android cfg)),
          (''MEM_LIMIT'', mem r), (''CPUS'', float_repr (cpus r)),
          (''SHM_SIZE'', shared_mem r), (''PIDS_LIMIT'', str_of_int (pids_limit r)),
          (''DISPLAY_WIDTH'', str_of_int (width d)), (''DISPLAY_HEIGHT'', str_of_int (height d)),
          (''DISPLAY_FPS'', str_of_int (fps d)),
          (''DISPLAY_GPU'', resolve_rendering has_node (rendering d)),
          (''BEETROOT_DENYLIST_PACKAGES'', join '','' (denylist (magisk cfg))),
          (''BEETROOT_MAGISK_DB'', path ''magisk_db''),
          (''BEETROOT_MODULES_DIR'', path ''modules_dir''),
          (''BEETROOT_FRIDA_BIN'', path ''frida_bin'')]
         @ (case mem_reservation r of None \<Rightarrow> [] | Some v \<Rightarrow> [(''MEM_RESERVATION'', v)])
         @ (case memswap_limit r of None \<Rightarrow> [] | Some v \<Rightarrow> [(''MEMSWAP_LIMIT'', v)]))"

definition render_env :: "(rat \<Rightarrow> string) \<Rightarrow> bool \<Rightarrow> string \<Rightarrow> instance_config \<Rightarrow>
    (string, string) dict option \<Rightarrow> string" where
  "render_env float_repr has_node name cfg stealth_paths =
     join NL (map (\<lambda>(k, v). k @ ''='' @ v)
       (render_env_vars float_repr has_node name cfg stealth_paths)) @ NL"

end
