(* ===== verification/Config_Props.thy ===== *)
theory Config_Props
  imports Config_Load
begin

text \<open>
  What the configuration layer guarantees: every configuration that loads satisfies the
  schema invariant, the legacy ports mapping is translated without loss, advisory notes are
  printed once per file, sizes are converted exactly, and the rendered files parse back.
\<close>

section \<open>The schema invariant\<close>

lemma default_resources_valid: "validate_resources default_resources = Inr ()"
  by code_simp

lemma default_sections_valid:
  "android_ok default_android" "display_ok default_display"
  "check_packages (denylist default_magisk)" "list_all port_mapping_ok default_port_mappings"
  "vm_ok default_vm"
  by code_simp+

lemma field_of_Inr:
  assumes "field_of d k f dflt = Inr v" and "P dflt" and "\<And>x. f x = Inr v \<Longrightarrow> P v"
  shows "P v"
  using assms by (auto simp: field_of_def split: option.splits)

lemma validate_list_Inr [simp]:
  "validate_list co ok x = Inr xs \<longleftrightarrow> (\<exists>ys. x = PList ys \<and> those (map co ys) = Some xs \<and> list_all ok xs)"
  by (auto simp: validate_list_def split: pyval.splits)

lemma section_Inr:
  "validate_android co x = Inr a \<Longrightarrow> android_ok a"
  "validate_display co x = Inr di \<Longrightarrow> display_ok di"
  "validate_resources_section co x = Inr r \<Longrightarrow> validate_resources r = Inr ()"
  "validate_frida co x = Inr f \<Longrightarrow> (case f of None \<Rightarrow> True | Some g \<Rightarrow> frida_ok g)"
  by (auto simp: validate_android_def validate_display_def validate_resources_section_def
      validate_frida_def result_simps split: if_splits)

definition sections_valid :: "instance_config \<Rightarrow> bool" where
  "sections_valid c \<longleftrightarrow> android_ok (android c) \<and> display_ok (display c)
     \<and> validate_resources (resources c) = Inr ()
     \<and> (case frida c of None \<Rightarrow> True | Some f \<Rightarrow> frida_ok f)
     \<and> list_all module_ok (modules c) \<and> check_packages (denylist (magisk c))
     \<and> list_all port_mapping_ok (ports c) \<and> vm_ok (vm c)"

lemma validate_fields_valid:
  assumes "validate_fields co d = Inr c"
  shows "sections_valid c"
proof -
  let ?a = "field_of d ''android'' (validate_android co) default_android"
  let ?di = "field_of d ''display'' (validate_display co) default_display"
  let ?r = "field_of d ''resources'' (validate_resources_section co) default_resources"
  let ?f = "field_of d ''frida'' (validate_frida co) None"
  let ?m = "field_of d ''modules'' (validate_list (co_module co) module_ok) []"
  let ?g = "field_of d ''magisk'' (\<lambda>v. guarded (\<lambda>x. check_packages (denylist x)) (co_magisk co v)) default_magisk"
  let ?p = "field_of d ''ports'' (validate_list (co_port co) port_mapping_ok) default_port_mappings"
  let ?v = "field_of d ''vm'' (\<lambda>x. guarded vm_ok (co_vm co x)) default_vm"
  have ok: "is_ok ?a" "is_ok ?di" "is_ok ?r" "is_ok ?f" "is_ok ?m" "is_ok ?g" "is_ok ?p" "is_ok ?v"
    and c: "android c = projr ?a" "display c = projr ?di" "resources c = projr ?r"
      "frida c = projr ?f" "modules c = projr ?m" "magisk c = projr ?g" "ports c = projr ?p"
      "vm c = projr ?v"
    using assms by (auto simp: validate_fields_def Let_def split: option.splits)
  then obtain a di r f m g p v where
    eqs: "?a = Inr a" "?di = Inr di" "?r = Inr r" "?f = Inr f" "?m = Inr m" "?g = Inr g"
      "?p = Inr p" "?v = Inr v"
    by (auto simp: is_ok_iff)
  have "android_ok a" using eqs(1) default_sections_valid(1) section_Inr(1) by (rule field_of_Inr)
  moreover have "display_ok di" using eqs(2) default_sections_valid(2) section_Inr(2) by (rule field_of_Inr)
  moreover have "validate_resources r = Inr ()"
    using eqs(3) default_resources_valid section_Inr(3) by (rule field_of_Inr)
  moreover have "case f of None \<Rightarrow> True | Some g \<Rightarrow> frida_ok g"
    by (rule field_of_Inr [OF eqs(4)]) (use section_Inr(4) in auto)
  moreover have "list_all module_ok m" by (rule field_of_Inr [OF eqs(5)]) auto
  moreover have "check_packages (denylist g)"
    by (rule field_of_Inr [OF eqs(6)]) (auto simp: default_sections_valid)
  moreover have "list_all port_mapping_ok p"
    by (rule field_of_Inr [OF eqs(7)]) (auto simp: default_sections_valid)
  moreover have "vm_ok v" by (rule field_of_Inr [OF eqs(8)]) (auto simp: default_sections_valid)
  ultimately show ?thesis
    by (simp add: sections_valid_def c eqs)
qed

lemma model_validate_valid:
  "InstanceConfig_model_validate co raw = Inr c \<Longrightarrow> config_valid c"
  using validate_fields_valid
  by (fastforce simp: InstanceConfig_model_validate_def result_simps config_valid_def sections_valid_def)


definition const_coercer :: "instance_config \<Rightarrow> coercer" where
  "const_coercer c = \<lparr>co_top = (\<lambda>_. Some (api_version c, lifecycle c, binder_mode c)),
     co_android = (\<lambda>_. Some (android c)), co_display = (\<lambda>_. Some (display c)),
     co_resources = (\<lambda>_. Some (resources c)), co_frida = (\<lambda>_. frida c),
     co_module = (\<lambda>x. find (\<lambda>m. dump_module m = x) (modules c)),
     co_magisk = (\<lambda>_. Some (magisk c)),
     co_port = (\<lambda>x. find (\<lambda>m. dump_port m = x) (ports c)), co_vm = (\<lambda>_. Some (vm c))\<rparr>"

definition example_env :: "pyval \<Rightarrow> yaml_env" where
  "example_env doc = \<lparr>read_text = (\<lambda>_. Some ''doc''), safe_load = (\<lambda>_. Some doc),
     resolve_path = id, coerce = const_coercer default_config\<rparr>"

definition quiet_state :: load_state where
  "quiet_state = \<lparr>bump_warned = [], ports_warned = [], vendor_warned = [], printed = []\<rparr>"

lemma load_default_document:
  "load_yaml (example_env PNone) ''beetroot.yaml'' quiet_state = (Inr default_config, quiet_state)"
  by code_simp


section \<open>Saving and loading\<close>

text \<open>pydantic reads back the sections of the dump of a configuration.\<close>

definition reads_dump :: "coercer \<Rightarrow> instance_config \<Rightarrow> bool" where
  "reads_dump co c \<longleftrightarrow>
     co_top co (dump_config_fields c) = Some (api_version c, lifecycle c, binder_mode c)
     \<and> co_android co (dump_android (android c)) = Some (android c)
     \<and> co_display co (dump_display (display c)) = Some (display c)
     \<and> co_resources co (dump_resources (resources c)) = Some (resources c)
     \<and> (case frida c of None \<Rightarrow> True | Some f \<Rightarrow> co_frida co (dump_frida f) = Some f)
     \<and> list_all (\<lambda>m. co_module co (dump_module m) = Some m) (modules c)
     \<and> co_magisk co (dump_magisk (magisk c)) = Some (magisk c)
     \<and> list_all (\<lambda>m. co_port co (dump_port m) = Some m) (ports c)
     \<and> co_vm co (dump_vm (vm c)) = Some (vm c)"

lemma those_map_dump: "list_all (\<lambda>x. co (dump x) = Some x) xs \<Longrightarrow> those (map (co \<circ> dump) xs) = Some xs"
  by (induction xs) auto

lemma dump_sections_no_renamed_keys:
  "\<not> reject_gpu_mode (dump_display d)" "\<not> reject_legacy_shm (dump_resources r)"
  "\<not> reject_base_image (dump_android a)"
  "reject_legacy_gapps_vendor_value (dump_android a) = Inr ()"
  by (simp_all add: reject_gpu_mode_def reject_legacy_shm_def reject_base_image_def has_str_def
      get_str_def dump_display_def dump_resources_def dump_android_def
      reject_legacy_gapps_vendor_value_def legacy_gapps_value_def require_def
      split: gapps_intent.split)

lemma dump_lookup:
  "get_str (dump_config_fields c) ''ports'' = PList (map dump_port (ports c))"
  "get_str (dump_config_fields c) ''api_version'' = PInt (api_version c)"
  "has_str (dump_config_fields c) ''stealth'' = False"
  by (simp_all add: get_str_def has_str_def dump_config_fields_def)

lemma validate_fields_dump:
  assumes v: "sections_valid c" and r: "reads_dump co c"
  shows "validate_fields co (dump_config_fields c) = Inr c"
proof -
  let ?d = "dump_config_fields c"
  note secs = v [unfolded sections_valid_def] and reads = r [unfolded reads_dump_def]
  have a: "field_of ?d ''android'' (validate_android co) default_android = Inr (android c)"
    using secs reads by (simp add: field_of_def dump_config_fields_def validate_android_def
        dump_sections_no_renamed_keys result_simps)
  have di: "field_of ?d ''display'' (validate_display co) default_display = Inr (display c)"
    using secs reads by (simp add: field_of_def dump_config_fields_def validate_display_def
        dump_sections_no_renamed_keys result_simps)
  have re: "field_of ?d ''resources'' (validate_resources_section co) default_resources = Inr (resources c)"
    using secs reads by (simp add: field_of_def dump_config_fields_def validate_resources_section_def
        dump_sections_no_renamed_keys result_simps of_option_def)
  have f: "field_of ?d ''frida'' (validate_frida co) None = Inr (frida c)"
    using secs reads by (auto simp: field_of_def dump_config_fields_def validate_frida_def dump_opt_def
        dump_frida_def result_simps split: option.splits)
  have m: "field_of ?d ''modules'' (validate_list (co_module co) module_ok) [] = Inr (modules c)"
    using secs reads by (simp add: field_of_def dump_config_fields_def those_map_dump)
  have g: "field_of ?d ''magisk'' (\<lambda>v. guarded (\<lambda>x. check_packages (denylist x)) (co_magisk co v))
             default_magisk = Inr (magisk c)"
    using secs reads by (simp add: field_of_def dump_config_fields_def)
  have p: "field_of ?d ''ports'' (validate_list (co_port co) port_mapping_ok) default_port_mappings
             = Inr (ports c)"
    using secs reads by (simp add: field_of_def dump_config_fields_def those_map_dump)
  have vm: "field_of ?d ''vm'' (\<lambda>x. guarded vm_ok (co_vm co x)) default_vm = Inr (vm c)"
    using secs reads by (simp add: field_of_def dump_config_fields_def)
  have t: "of_option (co_top co ?d) = Inr (api_version c, lifecycle c, binder_mode c)"
    using reads by (simp add: of_option_def)
  show ?thesis
    by (simp add: validate_fields_def a di re f m g p vm t err_of_def first_error_def)
qed

lemma model_validate_dump:
  assumes "config_valid c" and "reads_dump co c"
  shows "InstanceConfig_model_validate co (PDict (dump_config_fields c)) = Inr c"
proof -
  have "sections_valid c" "config_after_ok c"
    using assms(1) by (simp_all add: config_valid_def sections_valid_def)
  then show ?thesis
    using validate_fields_dump [OF _ assms(2)]
    by (simp add: InstanceConfig_model_validate_def migrate_legacy_ports_mapping_def dump_lookup
        reject_stealth_key_def require_def)
qed

text \<open>
  C28: a valid configuration written by \<open>write_yaml\<close> loads back unchanged, and loading it
  neither bumps the version nor migrates the ports, so nothing but a pinned-vendor advisory
  is printed. The hypotheses on code outside the repository: the YAML library reads back what
  it wrote, and pydantic reads back the dumped sections.
\<close>

theorem load_write_roundtrip:
  assumes "config_valid cfg"
    and "safe_load env (safe_dump (PDict (dump_config_fields cfg))) = Some (PDict (dump_config_fields cfg))"
    and "reads_dump (coerce env) cfg"
  shows "load_yaml (write_yaml safe_dump path cfg env) path st
     = (Inr cfg, note_vendor_override env path cfg st)"
proof -
  have api: "api_version cfg = 8"
    using assms(1) by (simp add: config_valid_def config_after_ok_def check_api_version_def
        SUPPORTED_API_VERSION_def)
  have bump: "bump_api_version env' path (PDict (dump_config_fields cfg)) st
      = (Inr (PDict (dump_config_fields cfg)), st)" for env'
    by (simp add: bump_api_version_def dump_lookup auto_bumpable_def AUTO_BUMPABLE_API_VERSIONS_def api)
  have mig: "note_ports_migration env' path (PDict (dump_config_fields cfg)) st = st" for env'
    by (simp add: note_ports_migration_def dump_lookup)
  have vendor: "note_vendor_override (write_yaml safe_dump path cfg env) path cfg st
      = note_vendor_override env path cfg st"
    by (simp add: note_vendor_override_def write_yaml_def)
  show ?thesis
    using assms model_validate_dump [OF assms(1) assms(3)] vendor
    by (simp add: load_yaml_def bump mig write_yaml_def)
qed

theorem load_write_roundtrip_witness:
  "load_yaml (write_yaml (\<lambda>_. ''doc'') ''beetroot.yaml'' default_config
       (example_env (PDict (dump_config_fields default_config)))) ''beetroot.yaml'' quiet_state
   = (Inr default_config, quiet_state)"
proof -
  let ?e = "example_env (PDict (dump_config_fields default_config))"
  have valid: "config_valid default_config" by code_simp
  have sl: "safe_load ?e ''doc'' = Some (PDict (dump_config_fields default_config))"
    by (simp add: example_env_def)
  have rd: "reads_dump (coerce ?e) default_config" by code_simp
  have nv: "note_vendor_override ?e ''beetroot.yaml'' default_config quiet_state = quiet_state"
    by code_simp
  show ?thesis
    using load_write_roundtrip [where safe_dump = "\<lambda>_. ''doc''", OF valid sl rd] nv by simp
qed

section \<open>The legacy ports mapping\<close>

text \<open>The mapping entry \<open>_migrate_legacy_ports_mapping\<close> builds for one service.\<close>

abbreviation migrated_entry :: "(pyval \<times> pyval) list \<Rightarrow> string \<Rightarrow> int \<Rightarrow> pyval" where
  "migrated_entry raw_ports s g \<equiv>
     fields [(''service'', PStr s), (''guest'', PInt g), (''host'', get_str raw_ports s)]"

lemma unknown_Nil_iff:
  "filter (\<lambda>k. \<not> is_well_known k) ks = [] \<longleftrightarrow> list_all is_well_known ks"
  by (simp add: filter_empty_conv list_all_iff)

lemma migrate_mapping:
  assumes "get_str d ''ports'' = PDict raw" and "raw \<noteq> []"
  shows "migrate_legacy_ports_mapping (PDict d) =
     (let unknown = filter (\<lambda>k. \<not> is_well_known k) (dict_keys raw)
      in if \<not> py_sortable unknown then Inl TypeErr
         else if unknown \<noteq> [] then Inl ValidationErr
         else Inr (PDict (dict_set (PStr ''ports'') (migrated_ports raw) d)))"
  using assms by (simp add: migrate_legacy_ports_mapping_def)

text \<open>
  The old mapping form of \<open>ports\<close> is migrated without loss. The migration succeeds
  exactly when every key is a well-known service; the result then lists the three services
  with their canonical guest ports and the host port the mapping gave (none when it gave
  none), every other key of the document is untouched, and migrating again changes nothing.
\<close>

theorem migrate_legacy_ports_lossless:
  assumes "get_str d ''ports'' = PDict raw" and "raw \<noteq> []"
  shows "(is_ok (migrate_legacy_ports_mapping (PDict d)) \<longleftrightarrow> list_all is_well_known (dict_keys raw))
     \<and> (\<forall>d'. migrate_legacy_ports_mapping (PDict d) = Inr (PDict d') \<longrightarrow>
          get_str d' ''ports'' = PList [migrated_entry raw ''adb'' 5555,
            migrated_entry raw ''frida'' 27042, migrated_entry raw ''frida_control'' 27043]
          \<and> (\<forall>k. k \<noteq> ''ports'' \<longrightarrow> get_str d' k = get_str d k)
          \<and> migrate_legacy_ports_mapping (PDict d') = Inr (PDict d'))"
  unfolding migrate_mapping [OF assms] Let_def unknown_Nil_iff [symmetric]
  by (auto simp: py_sortable_def migrated_ports_def WELL_KNOWN_SERVICES_def
      migrate_legacy_ports_mapping_def)

theorem migrate_legacy_ports_lossless_witness:
  "\<exists>d'. migrate_legacy_ports_mapping (PDict [(PStr ''ports'', PDict [(PStr ''adb'', PInt 9000)])])
       = Inr (PDict d')
     \<and> get_str d' ''ports'' = PList [migrated_entry [(PStr ''adb'', PInt 9000)] ''adb'' 5555,
         migrated_entry [(PStr ''adb'', PInt 9000)] ''frida'' 27042,
         migrated_entry [(PStr ''adb'', PInt 9000)] ''frida_control'' 27043]"
proof -
  let ?raw = "[(PStr ''adb'', PInt 9000)]"
  let ?d = "[(PStr ''ports'', PDict ?raw)]"
  have p: "get_str ?d ''ports'' = PDict ?raw" by (simp add: get_str_def)
  have m: "migrate_legacy_ports_mapping (PDict ?d)
      = Inr (PDict [(PStr ''ports'', migrated_ports ?raw)])" by code_simp
  show ?thesis using migrate_legacy_ports_lossless [OF p] m by blast
qed

section \<open>Advisory notes\<close>

text \<open>Each stage of a load is silent once its path is in the dedup set.\<close>

lemma bump_again:
  "bump_warned st' = bump_warned (snd (bump_api_version env path raw st)) \<Longrightarrow>
   bump_api_version env path raw st' = (fst (bump_api_version env path raw st), st')"
  by (auto simp: bump_api_version_def Let_def emit_def split: pyval.splits sum.splits bool.splits)

lemma migration_again:
  "ports_warned st' = ports_warned (note_ports_migration env path raw st) \<Longrightarrow>
   note_ports_migration env path raw st' = st'"
  by (auto simp: note_ports_migration_def Let_def emit_def)

lemma vendor_again:
  "vendor_warned st' = vendor_warned (note_vendor_override env path cfg st) \<Longrightarrow>
   note_vendor_override env path cfg st' = st'"
  by (auto simp: note_vendor_override_def Let_def emit_def)

lemma later_stages_frame:
  "bump_warned (note_ports_migration env path raw st) = bump_warned st"
  "bump_warned (note_vendor_override env path cfg st) = bump_warned st"
  "ports_warned (note_vendor_override env path cfg st) = ports_warned st"
  by (simp_all add: note_ports_migration_def note_vendor_override_def Let_def emit_def)

lemma stages_again:
  "note_ports_migration env path raw (note_ports_migration env path raw st)
     = note_ports_migration env path raw st"
  "note_ports_migration env path raw (note_vendor_override env path cfg (note_ports_migration env path raw st))
     = note_vendor_override env path cfg (note_ports_migration env path raw st)"
  "note_vendor_override env path cfg (note_vendor_override env path cfg st)
     = note_vendor_override env path cfg st"
  by (rule migration_again, simp add: later_stages_frame, rule migration_again,
      simp add: later_stages_frame, rule vendor_again, simp)

text \<open>
  Loading a file again gives the same result and leaves the console and the dedup sets
  alone: the version bump, the ports migration and the vendor advisory are printed at most
  once per resolved path, however often a fleet scan reloads the file.
\<close>

theorem load_yaml_notes_once:
  "load_yaml env path (snd (load_yaml env path st))
     = (fst (load_yaml env path st), snd (load_yaml env path st))"
proof (cases "read_text env path")
  case None
  then show ?thesis by (simp add: load_yaml_def)
next
  case (Some content)
  show ?thesis
  proof (cases "safe_load env content")
    case None
    with Some show ?thesis by (simp add: load_yaml_def)
  next
    case (Some v)
    let ?raw = "if v = PNone then PDict [] else v"
    let ?st' = "snd (load_yaml env path st)"
    obtain r st1 where b: "bump_api_version env path ?raw st = (r, st1)"
      by (cases "bump_api_version env path ?raw st")
    have "bump_warned ?st' = bump_warned st1"
      using \<open>read_text env path = Some content\<close> Some b
      by (auto simp: load_yaml_def Let_def later_stages_frame split: sum.splits)
    then have b': "bump_api_version env path ?raw ?st' = (r, ?st')"
      using bump_again [of ?st' env path ?raw st] b by simp
    show ?thesis
      using \<open>read_text env path = Some content\<close> Some b b'
      by (auto simp: load_yaml_def Let_def stages_again split: sum.splits)
  qed
qed

section \<open>Docker sizes\<close>

lemma round_half_even_exact: "0 < d \<Longrightarrow> round_half_even (q * d) d = q"
  by (simp add: round_half_even_def Let_def)

lemma double_of_int_exact:
  assumes "0 \<le> n" and "n < 2 ^ 53" and "n * mult < 2 ^ 1024"
  shows "int_of_scaled (double_of_ratio n 1) mult = Inr (n * mult)"
proof (cases "n = 0")
  case True
  then show ?thesis by (simp add: double_of_ratio_def int_of_scaled_def)
next
  case False
  with assms have pos: "0 < n" by simp
  let ?k = "bitlen n - 1"
  have bl: "bitlen n \<le> 53"
    using bitlen_le_iff_power [of n 53] pos assms(2) by simp
  have k0: "0 \<le> ?k"
    using bitlen_bounds [OF pos] bitlen_eq_zero_iff [of n] bitlen_nonneg [of n] pos by linarith
  have lo: "2 ^ nat ?k \<le> n" using bitlen_bounds [OF pos] by simp
  have b1: "bitlen 1 = 1" by code_simp
  have "double_of_ratio n 1 = (n * 2 ^ nat (52 - ?k), ?k - 52)"
    using pos k0 lo bl round_half_even_exact [of 1 "n * 2 ^ nat (52 - ?k)"]
    by (simp add: double_of_ratio_def b1 Let_def algebra_simps)
  then show ?thesis
    using bl assms(3) by (simp add: int_of_scaled_def Let_def algebra_simps)
qed

lemma digits1_dec: "0 \<le> n \<Longrightarrow> digits1 (dec n)"
  by (auto simp: digits1_def list_all_iff dec_digits)

lemma decimal_dec: "0 \<le> n \<Longrightarrow> decimal (dec n) = Some (n, 1)"
  using dec_no_special [of n "CHR ''.''"]
  by (simp add: decimal_def split_on_no_sep digits1_dec)

lemma last_dec_digit: "0 \<le> n \<Longrightarrow> is_digit (last (dec n))"
  using dec_digits last_in_set [OF dec_nonempty] by blast

lemma py_float_dec: "0 \<le> n \<Longrightarrow> py_float (dec n) = Inr (double_of_ratio n 1)"
  using last_dec_digit [of n] is_digit_not_special [of "last (dec n)"]
  by (auto simp: py_float_def decimal_dec)

lemma multiplier_bound: "dict_get DOCKER_SIZE_MULTIPLIERS c = Some mult \<Longrightarrow> 0 < mult \<and> mult \<le> 1024 ^ 4"
  by (auto simp: DOCKER_SIZE_MULTIPLIERS_def split: if_splits)

lemma no_multiplier_digit:
  assumes "is_digit c"
  shows "dict_get DOCKER_SIZE_MULTIPLIERS (lower_char c) = None"
proof -
  have "lower_char c = c" using assms by (simp add: is_digit_def lower_char_def Let_def)
  moreover have "c \<notin> set ''bkmgt''" using assms by (auto simp: is_digit_def)
  ultimately show ?thesis by (simp add: DOCKER_SIZE_MULTIPLIERS_def)
qed

text \<open>
  A whole number of bytes, kibibytes, ..., tebibytes below two to the 53 is converted
  exactly, in upper or lower case and with or without a suffix: the detour of
  \<open>_docker_size_to_bytes\<close> through a Python float loses nothing there.
\<close>

theorem docker_size_exact:
  assumes "0 \<le> n" and "n < 2 ^ 53"
  shows "docker_size_to_bytes (dec n) = Inr n
     \<and> (\<forall>c mult. dict_get DOCKER_SIZE_MULTIPLIERS (lower_char c) = Some mult \<longrightarrow>
          docker_size_to_bytes (dec n @ [c]) = Inr (n * mult))"
proof (intro conjI allI impI)
  note last_dec_digit [OF assms(1)]
  moreover have "(2::int) ^ 53 \<le> 2 ^ 1024" by simp
  ultimately show "docker_size_to_bytes (dec n) = Inr n"
    using double_of_int_exact [OF assms, of 1] assms
    by (simp add: docker_size_to_bytes_def no_multiplier_digit py_float_dec)
next
  fix c mult assume c: "dict_get DOCKER_SIZE_MULTIPLIERS (lower_char c) = Some mult"
  have "n * mult \<le> 2 ^ 53 * 1024 ^ 4"
    using multiplier_bound [OF c] assms by (intro mult_mono) auto
  then have "n * mult < 2 ^ 1024" by (rule le_less_trans) simp
  then show "docker_size_to_bytes (dec n @ [c]) = Inr (n * mult)"
    using double_of_int_exact [OF assms] assms(1)
    by (simp add: docker_size_to_bytes_def c py_float_dec)
qed

theorem docker_size_exact_witness:
  "(0::int) \<le> 3 \<and> (3::int) < 2 ^ 53 \<and> docker_size_to_bytes (dec 3 @ ''G'') = Inr 3221225472"
proof -
  have "dict_get DOCKER_SIZE_MULTIPLIERS (lower_char (CHR ''G'')) = Some (1024 ^ 3)" by code_simp
  then show ?thesis using docker_size_exact [of 3] by simp
qed

text \<open>
  In a valid configuration the memory limits are ordered as Docker requires: all given
  sizes convert to bytes, the soft floor does not exceed the hard limit, and the combined
  memory and swap limit, unless unlimited, is not below it.
\<close>

theorem memory_limits_ordered:
  assumes "config_valid c"
  shows "\<exists>b. docker_size_to_bytes (mem (resources c)) = Inr b
     \<and> (\<forall>s. mem_reservation (resources c) = Some s \<longrightarrow>
          (\<exists>x. docker_size_to_bytes s = Inr x \<and> x \<le> b))
     \<and> (\<forall>s. memswap_limit (resources c) = Some s \<and> s \<noteq> ''-1'' \<longrightarrow>
          (\<exists>x. docker_size_to_bytes s = Inr x \<and> b \<le> x))"
proof -
  have "check_memory_ordering (resources c) = Inr ()"
    using assms by (simp add: config_valid_def validate_resources_def split: if_splits)
  then show ?thesis
    by (auto simp: check_memory_ordering_def MEMSWAP_UNLIMITED_def result_simps
        split: option.splits if_splits)
qed

definition sized_config :: instance_config where
  "sized_config = default_config\<lparr>resources := default_resources
     \<lparr>mem_reservation := Some ''1.5g'', memswap_limit := Some ''4g''\<rparr>\<rparr>"

theorem memory_limits_ordered_witness:
  "config_valid sized_config \<and> (\<exists>b x. docker_size_to_bytes (mem (resources sized_config)) = Inr b
     \<and> docker_size_to_bytes ''1.5g'' = Inr x \<and> x \<le> b)"
proof -
  have v: "config_valid sized_config" by code_simp
  have "mem_reservation (resources sized_config) = Some ''1.5g''" by code_simp
  then show ?thesis using memory_limits_ordered [OF v] v by blast
qed

end
