(* ===== verification/Config_Render.thy ===== *)
theory Config_Render
  imports Config_Props
begin

text \<open>
  The rendered artefacts of a configuration: the \<open>.env\<close> file parses back line by line, the
  denylist survives its comma-separated encoding, and image tags identify the Android
  version and GApps vendor. The last property records where validation is too weak: a
  denylist entry may end in a newline.
\<close>

section \<open>The denylist grammar\<close>

lemma split_on_covers:
  assumes "x \<in> set s" and "x \<noteq> c"
  shows "\<exists>w\<in>set (split_on c s). x \<in> set w"
  using assms
proof (induction s)
  case (Cons a s)
  then show ?case by (cases "split_on c s") auto
qed simp

lemma denylist_pkg_re_chars:
  assumes "denylist_pkg_re s" and "x \<in> set s"
  shows "is_pkg_char x \<or> x = CHR ''/''"
proof -
  have "list_all (list_all is_pkg_char) (split_on (CHR ''/'') s)"
    using assms(1) by (auto simp: denylist_pkg_re_def split: list.splits)
  then show ?thesis
    using split_on_covers [OF assms(2), of "CHR ''/''"] by (auto simp: list_all_iff)
qed

lemma match_dollar_chars:
  assumes "match_dollar R s" and "\<And>t x. R t \<Longrightarrow> x \<in> set t \<Longrightarrow> P x" and "x \<in> set s"
  shows "P x \<or> x = CHR 0x0A"
  using assms by (cases s rule: rev_cases) (auto simp: match_dollar_def)

text \<open>
  The comma-separated encoding of the denylist is faithful: splitting the value at commas,
  as the boot helper does, gives the configured entries back. Entries consist of package
  characters and slashes (or a final newline), so none carries a quote, a blank or a comma.
\<close>

theorem denylist_encoding_roundtrip:
  assumes "check_packages ps" and "ps \<noteq> []"
  shows "split_on (CHR '','') (join '','' ps) = ps
     \<and> (\<forall>p\<in>set ps. \<forall>x\<in>set p. is_pkg_char x \<or> x = CHR ''/'' \<or> x = CHR 0x0A)"
proof -
  have chars: "is_pkg_char x \<or> x = CHR ''/'' \<or> x = CHR 0x0A" if "p \<in> set ps" "x \<in> set p" for p x
  proof -
    have "match_dollar denylist_pkg_re p"
      using assms(1) that(1) by (simp add: check_packages_def list_all_iff)
    from match_dollar_chars [OF this denylist_pkg_re_chars that(2)] show ?thesis by simp
  qed
  have "\<not> is_pkg_char (CHR '','')" by code_simp
  then have "CHR '','' \<notin> set p" if "p \<in> set ps" for p
    using chars [OF that, of "CHR '',''"] by auto
  then show ?thesis
    using chars split_join [OF assms(2)] by blast
qed

theorem denylist_encoding_roundtrip_witness:
  "check_packages DEFAULT_DENYLIST \<and> split_on (CHR '','') (join '','' DEFAULT_DENYLIST) = DEFAULT_DENYLIST"
proof -
  have "check_packages DEFAULT_DENYLIST" "DEFAULT_DENYLIST \<noteq> []" by code_simp+
  then show ?thesis using denylist_encoding_roundtrip by blast
qed

section \<open>The environment file\<close>

text \<open>How compose reads the file: one assignment per line, split at the first equals sign.\<close>

definition parse_line :: "string \<Rightarrow> string \<times> string" where
  "parse_line l = (takeWhile (\<lambda>c. c \<noteq> CHR ''='') l, tl (dropWhile (\<lambda>c. c \<noteq> CHR ''='') l))"

definition parse_env :: "string \<Rightarrow> (string \<times> string) list" where
  "parse_env s = map parse_line (filter (\<lambda>l. l \<noteq> []) (split_on (CHR 0x0A) s))"

lemma parse_line_assign: "CHR ''='' \<notin> set k \<Longrightarrow> parse_line (k @ ''='' @ v) = (k, v)"
  by (induction k) (auto simp: parse_line_def)

lemma parse_env_render:
  assumes "kvs \<noteq> []" and "\<And>k v. (k, v) \<in> set kvs \<Longrightarrow> CHR ''='' \<notin> set k \<and> CHR 0x0A \<notin> set k \<and> CHR 0x0A \<notin> set v"
  shows "parse_env (join NL (map (\<lambda>(k, v). k @ ''='' @ v) kvs) @ NL) = kvs"
proof -
  let ?ls = "map (\<lambda>(k, v). k @ ''='' @ v) kvs"
  have join_snoc: "join NL xs @ NL = join NL (xs @ [[]])" if "xs \<noteq> []" for xs
    using that by (induction "NL" xs rule: join.induct) auto
  have "split_on (CHR 0x0A) (join NL (?ls @ [[]])) = ?ls @ [[]]"
    unfolding NL_def by (rule split_join) (use assms(2) in fastforce)+
  moreover have "map parse_line ?ls = kvs"
    using assms(2) by (auto simp: parse_line_assign [simplified] intro!: map_idI)
  moreover have "filter (\<lambda>l. l \<noteq> []) (?ls @ [[]]) = ?ls"
    by (auto simp: filter_id_conv)
  ultimately show ?thesis
    using join_snoc [of ?ls] assms(1) by (simp add: parse_env_def)
qed

definition newline_free :: "string \<Rightarrow> bool" where
  "newline_free s \<longleftrightarrow> CHR 0x0A \<notin> set s"

text \<open>The free-form strings of a configuration that reach the environment file.\<close>

definition env_strings :: "instance_config \<Rightarrow> string list" where
  "env_strings c = [mem (resources c), shared_mem (resources c)] @ denylist (magisk c)
     @ (case mem_reservation (resources c) of None \<Rightarrow> [] | Some v \<Rightarrow> [v])
     @ (case memswap_limit (resources c) of None \<Rightarrow> [] | Some v \<Rightarrow> [v])"

lemma newline_free_join: "list_all newline_free xs \<Longrightarrow> newline_free sep \<Longrightarrow> newline_free (join sep xs)"
  by (induction sep xs rule: join.induct) (auto simp: newline_free_def)

lemma newline_free_tag: "newline_free (base_image_tag a)"
  by (auto simp: newline_free_def base_image_tag_def VENDOR_SLUG_def Let_def
      split: option.splits gapps_vendor.splits)

lemma newline_free_misc:
  "newline_free (str_of_int i)" "newline_free (resolve_rendering b r)"
  by (auto simp: newline_free_def resolve_rendering_def split: rendering.splits)

text \<open>
  The environment file defines what it is meant to define. When the instance name, the
  float repr, the overridden container paths and the configuration's own strings carry no
  newline, reading the rendered file line by line gives exactly the list of variables and
  values it was rendered from, in order.
\<close>

theorem render_env_roundtrip:
  assumes "newline_free name" and "newline_free (fr (cpus (resources cfg)))"
    and "list_all newline_free (env_strings cfg)"
    and "\<forall>k\<in>{''magisk_db'', ''modules_dir'', ''frida_bin''}. newline_free (the (dict_get
          (dict_merge STEALTH_PATH_DEFAULTS (case stealth of None \<Rightarrow> [] | Some d \<Rightarrow> d)) k))"
  shows "parse_env (render_env fr has_node name cfg stealth) = render_env_vars fr has_node name cfg stealth"
proof -
  let ?vars = "render_env_vars fr has_node name cfg stealth"
  have keys: "CHR ''='' \<notin> set k \<and> CHR 0x0A \<notin> set k" if "(k, v) \<in> set ?vars" for k v
    using that by (auto simp: render_env_vars_def Let_def split: option.splits)
  have vals: "newline_free v" if "(k, v) \<in> set ?vars" for k v
    using that assms newline_free_join [of "denylist (magisk cfg)" "'',''"]
      newline_free_tag newline_free_misc
    by (auto simp: render_env_vars_def Let_def env_strings_def newline_free_def [of "'',''"]
        split: option.splits)
  have "?vars \<noteq> []" by (simp add: render_env_vars_def Let_def)
  then show ?thesis
    unfolding render_env_def using keys vals
    by (intro parse_env_render) (auto simp: newline_free_def)
qed

theorem render_env_roundtrip_witness:
  "parse_env (render_env (\<lambda>_. ''2.0'') False ''alpha'' default_config None)
     = render_env_vars (\<lambda>_. ''2.0'') False ''alpha'' default_config None"
  by (rule render_env_roundtrip) code_simp+

text \<open>
  Validation admits a denylist that breaks the environment file. The denylist pattern is
  applied with \<open>re.match\<close>, whose dollar also matches before a final newline, so an entry
  ending in a newline is accepted; the rendered file then splits the denylist over two lines
  and no longer defines the variables it was rendered from.
\<close>

definition newline_config :: instance_config where
  "newline_config = default_config\<lparr>magisk := \<lparr>denylist = [''com.foo'' @ NL, ''com.bar'']\<rparr>\<rparr>"

theorem denylist_newline_accepted:
  "config_valid newline_config
   \<and> parse_env (render_env (\<lambda>_. ''2.0'') False ''alpha'' newline_config None)
       \<noteq> render_env_vars (\<lambda>_. ''2.0'') False ''alpha'' newline_config None
   \<and> (''BEETROOT_DENYLIST_PACKAGES'', ''com.foo'')
       \<in> set (parse_env (render_env (\<lambda>_. ''2.0'') False ''alpha'' newline_config None))"
  by (intro conjI; code_simp)

section \<open>Image tags\<close>

lemma append_sep_cancel:
  assumes "c \<notin> set x" and "c \<notin> set y"
  shows "x @ c # u = y @ c # v \<longleftrightarrow> x = y \<and> u = v"
proof
  assume eq: "x @ c # u = y @ c # v"
  have tw: "takeWhile (\<lambda>a. a \<noteq> c) (z @ c # w) = z" if "c \<notin> set z" for z w
    using that by (induction z) auto
  have "x = y" using tw [OF assms(1), of u] tw [OF assms(2), of v] eq by simp
  with eq show "x = y \<and> u = v" by simp
qed simp

text \<open>
  The base-image tag determines and is determined by the Android version and the
  resolved GApps vendor, so two configurations share an image exactly when they agree on
  both; a pinned vendor and the intent that defaults to it give the same tag.
\<close>

theorem base_image_tag_inject:
  assumes "android_ok a" and "android_ok b"
  shows "base_image_tag a = base_image_tag b \<longleftrightarrow>
     version a = version b \<and> resolve_gapps_vendor a = resolve_gapps_vendor b"
proof -
  let ?slug = "\<lambda>a. case resolve_gapps_vendor a of None \<Rightarrow> [] | Some v \<Rightarrow> VENDOR_SLUG v"
  have pos: "0 \<le> version a" "0 \<le> version b"
    using assms by (auto simp: android_ok_def validate_android_version_def VALID_ANDROID_VERSIONS_def
        split: if_splits)
  have slug: "?slug a = ?slug b \<longleftrightarrow> resolve_gapps_vendor a = resolve_gapps_vendor b"
    by (auto simp: VENDOR_SLUG_def split: option.splits gapps_vendor.splits)
  have "base_image_tag a = base_image_tag b \<longleftrightarrow>
      dec (version a) @ CHR ''.'' # (''0.0'' @ ?slug a @ ''_houdini_magisk'')
      = dec (version b) @ CHR ''.'' # (''0.0'' @ ?slug b @ ''_houdini_magisk'')"
    using pos by (simp add: base_image_tag_def str_of_int_nonneg Let_def)
  also have "\<dots> \<longleftrightarrow> dec (version a) = dec (version b) \<and> ?slug a = ?slug b"
    using dec_no_special pos by (subst append_sep_cancel) auto
  finally show ?thesis
    using slug dec_inject [OF pos] by simp
qed

theorem base_image_tag_inject_witness:
  "base_image_tag default_android = base_image_tag (default_android\<lparr>gapps_vendor := Some LiteGapps\<rparr>)"
proof -
  have "android_ok default_android" "android_ok (default_android\<lparr>gapps_vendor := Some LiteGapps\<rparr>)"
    by code_simp+
  from base_image_tag_inject [OF this] show ?thesis
    by (simp add: default_android_def resolve_gapps_vendor_def)
qed

end
