(* ===== verification/Ports.thy ===== *)
theory Ports
  imports Config_Load
begin

text \<open>
  \<open>ports.py\<close>: the stride-of-10 allocation of host ports from an instance index, the
  resolution of a configuration's port list, and the lowest free index. The interface
  \<open>index_allocator\<close> is what the registry relies on when it picks an index for a new
  instance; it is interpreted on \<open>lowest_free_index\<close>.
\<close>

section \<open>Constants\<close>

definition ADB_BASE :: int where "ADB_BASE = 5555"
definition FRIDA_BASE :: int where "FRIDA_BASE = 27042"
definition FRIDA_CONTROL_BASE :: int where "FRIDA_CONTROL_BASE = 27043"
definition STRIDE :: int where "STRIDE = 10"
definition TCP_MAX_PORT :: int where "TCP_MAX_PORT = 65535"
definition PRIVILEGED_PORT_CEILING :: int where "PRIVILEGED_PORT_CEILING = 1024"
definition EXTRA_POOL_BASE :: int where "EXTRA_POOL_BASE = 40000"

definition WELL_KNOWN_BASE :: "(string, int) dict" where
  "WELL_KNOWN_BASE = [(''adb'', ADB_BASE), (''frida'', FRIDA_BASE), (''frida_control'', FRIDA_CONTROL_BASE)]"

definition MAX_PORT_INDEX :: int where
  "MAX_PORT_INDEX =
     min ((EXTRA_POOL_BASE - 1 - Max (set (dict_values WELL_KNOWN_BASE))) div STRIDE)
         ((TCP_MAX_PORT - EXTRA_POOL_BASE - STRIDE) div STRIDE)"

lemmas port_consts = ADB_BASE_def FRIDA_BASE_def FRIDA_CONTROL_BASE_def STRIDE_def
  TCP_MAX_PORT_def PRIVILEGED_PORT_CEILING_def EXTRA_POOL_BASE_def WELL_KNOWN_BASE_def

lemma MAX_PORT_INDEX_value [simp]: "MAX_PORT_INDEX = 1295"
  by (simp add: MAX_PORT_INDEX_def port_consts)

section \<open>Operations\<close>

record resolved_port =
  rp_service :: "string option"
  rp_guest :: int
  rp_host :: int

text \<open>
  \<open>NegativeIndex\<close> and \<open>IndexTooLarge\<close> are the two \<open>ValueError\<close>s of \<open>_check_index\<close>;
  \<open>ExtraPoolExhausted\<close> and \<open>HostsCollide\<close> the two \<open>PortCollisionError\<close>s of
  \<open>resolve_ports\<close>, the latter with the colliding host ports.
\<close>

datatype port_error =
    NegativeIndex int
  | IndexTooLarge int
  | ExtraPoolExhausted int
  | HostsCollide "int list"

definition is_port_collision :: "port_error \<Rightarrow> bool" where
  "is_port_collision e = (case e of ExtraPoolExhausted _ \<Rightarrow> True | HostsCollide _ \<Rightarrow> True | _ \<Rightarrow> False)"

definition check_index :: "int \<Rightarrow> port_error + unit" where
  "check_index index =
     (if index < 0 then Inl (NegativeIndex index)
      else if index > MAX_PORT_INDEX then Inl (IndexTooLarge index)
      else Inr ())"

definition ports_for_index :: "int \<Rightarrow> port_error + (string, int) dict" where
  "ports_for_index index = and_then (check_index index)
     (\<lambda>_. Inr (map (\<lambda>(service, base). (service, base + index * STRIDE)) WELL_KNOWN_BASE))"

text \<open>\<open>_WELL_KNOWN_BASE\<close> looked up with an optional label.\<close>

definition base_of :: "string option \<Rightarrow> int option" where
  "base_of s = (case s of None \<Rightarrow> None | Some n \<Rightarrow> dict_get WELL_KNOWN_BASE n)"

text \<open>The loop of \<open>resolve_ports\<close>; \<open>extra_slot\<close> counts the auto-allocated arbitrary entries.\<close>

fun resolve_loop :: "int \<Rightarrow> int \<Rightarrow> port_mapping list \<Rightarrow> port_error + resolved_port list" where
  "resolve_loop index extra_slot [] = Inr []"
| "resolve_loop index extra_slot (m # ms) =
     (case host m of
        Some h \<Rightarrow> and_then (resolve_loop index extra_slot ms)
          (\<lambda>r. Inr (\<lparr>rp_service = service m, rp_guest = guest m, rp_host = h\<rparr> # r))
      | None \<Rightarrow> (case base_of (service m) of
          Some b \<Rightarrow> and_then (resolve_loop index extra_slot ms)
            (\<lambda>r. Inr (\<lparr>rp_service = service m, rp_guest = guest m, rp_host = b + index * STRIDE\<rparr> # r))
        | None \<Rightarrow>
            if extra_slot \<ge> STRIDE then Inl (ExtraPoolExhausted index)
            else and_then (resolve_loop index (extra_slot + 1) ms)
              (\<lambda>r. Inr (\<lparr>rp_service = service m, rp_guest = guest m,
                         rp_host = EXTRA_POOL_BASE + index * STRIDE + extra_slot\<rparr> # r))))"

definition duplicates :: "'a list \<Rightarrow> 'a list" where
  "duplicates xs = remdups (filter (\<lambda>x. count_list xs x > 1) xs)"

definition privileged_hosts :: "resolved_port list \<Rightarrow> int list" where
  "privileged_hosts r = sort (remdups (filter (\<lambda>h. h < PRIVILEGED_PORT_CEILING) (map rp_host r)))"

text \<open>The resolved list and the advisories printed.\<close>

definition resolve_ports :: "int \<Rightarrow> port_mapping list \<Rightarrow> bool \<Rightarrow>
    port_error + resolved_port list \<times> advisory list" where
  "resolve_ports index ms quiet =
     and_then (check_index index) (\<lambda>_.
     and_then (resolve_loop index 0 ms) (\<lambda>resolved.
       let dupes = duplicates (map rp_host resolved);
           privileged = privileged_hosts resolved
       in if dupes \<noteq> [] then Inl (HostsCollide dupes)
          else Inr (resolved,
                    if privileged \<noteq> [] \<and> \<not> quiet then [NotePrivilegedPorts privileged] else [])))"

text \<open>A later entry of the same service overwrites an earlier one.\<close>

definition well_known :: "resolved_port list \<Rightarrow> (string, int) dict" where
  "well_known resolved = fold (\<lambda>rp d. case rp_service rp of
       None \<Rightarrow> d
     | Some s \<Rightarrow> if s \<in> set (dict_keys WELL_KNOWN_SERVICES) then dict_set s (rp_host rp) d else d)
     resolved []"

text \<open>\<open>i = 0; while i in used: i += 1\<close>; the set is given by the list of its elements.\<close>

function lowest_free_from :: "int list \<Rightarrow> int \<Rightarrow> int" where
  "lowest_free_from used i = (if i \<in> set used then lowest_free_from used (i + 1) else i)"
  by pat_completeness auto
termination
proof (relation "measure (\<lambda>(used, i). card {u \<in> set used. i \<le> u})")
  fix used :: "int list" and i assume "i \<in> set used"
  then have "i \<in> {u \<in> set used. i \<le> u} - {u \<in> set used. i + 1 \<le> u}" by simp
  moreover have "{u \<in> set used. i + 1 \<le> u} \<subseteq> {u \<in> set used. i \<le> u}" by auto
  ultimately have "{u \<in> set used. i + 1 \<le> u} \<subset> {u \<in> set used. i \<le> u}" by blast
  then show "((used, i + 1), used, i) \<in> measure (\<lambda>(used, i). card {u \<in> set used. i \<le> u})"
    by (simp add: psubset_card_mono)
qed simp

declare lowest_free_from.simps [simp del]

definition lowest_free_index :: "int list \<Rightarrow> int" where
  "lowest_free_index used = lowest_free_from used 0"

text \<open>\<open>render_compose_ports_override\<close> of \<open>config.py\<close>.\<close>

definition override_line :: "resolved_port \<Rightarrow> string" where
  "override_line rp = ''      - '' @ [CHR 0x22] @ str_of_int (rp_host rp) @ '':'' @ str_of_int (rp_guest rp) @ [CHR 0x22]"

definition render_compose_ports_override :: "resolved_port list \<Rightarrow> string" where
  "render_compose_ports_override resolved =
     join NL ([''services:'', ''  phone:'', ''    ports:''] @ map override_line resolved) @ NL"

section \<open>The interface of index allocation\<close>

locale index_allocator =
  fixes alloc :: "int list \<Rightarrow> int"
  assumes alloc_fresh: "alloc used \<notin> set used"
    and alloc_nonneg: "0 \<le> alloc used"
    and alloc_least: "0 \<le> j \<Longrightarrow> j < alloc used \<Longrightarrow> j \<in> set used"
begin

text \<open>Pigeonhole: the allocated index is at most the number of indices in use.\<close>

lemma alloc_le_card: "alloc used \<le> int (card (set used))"
proof -
  have "{0..<alloc used} \<subseteq> set used" using alloc_least by auto
  then have "card {0..<alloc used} \<le> card (set used)" by (intro card_mono) auto
  then show ?thesis using alloc_nonneg [of used] by simp
qed

lemma alloc_le_length: "alloc used \<le> int (length used)"
  using alloc_le_card [of used] card_length [of used] by linarith

lemma alloc_unique:
  assumes "i \<notin> set used" and "0 \<le> i" and "\<And>j. 0 \<le> j \<Longrightarrow> j < i \<Longrightarrow> j \<in> set used"
  shows "alloc used = i"
  using assms alloc_fresh [of used] alloc_nonneg [of used] alloc_least [of i used]
  by (meson linorder_neqE)

text \<open>Only the set of used indices matters, and freeing the smallest one gets it reused.\<close>

lemma alloc_cong: "set used = set used' \<Longrightarrow> alloc used = alloc used'"
  using alloc_unique [of "alloc used'" used] alloc_fresh alloc_nonneg alloc_least by metis

lemma alloc_reuse:
  assumes "set used' = set used - {i}" and "0 \<le> i" and "i \<le> alloc used"
  shows "alloc used' = i"
  using assms alloc_least [of _ used] by (intro alloc_unique) auto

end

lemma lowest_free_from_props:
  "i \<le> lowest_free_from used i \<and> lowest_free_from used i \<notin> set used
   \<and> (\<forall>j. i \<le> j \<longrightarrow> j < lowest_free_from used i \<longrightarrow> j \<in> set used)"
proof (induction used i rule: lowest_free_from.induct)
  case (1 used i)
  show ?case
  proof (cases "i \<in> set used")
    case True
    with "1.IH" have ih: "i + 1 \<le> lowest_free_from used (i + 1)
        \<and> lowest_free_from used (i + 1) \<notin> set used
        \<and> (\<forall>j. i + 1 \<le> j \<longrightarrow> j < lowest_free_from used (i + 1) \<longrightarrow> j \<in> set used)" by blast
    have "j \<in> set used" if "i \<le> j" "j < lowest_free_from used (i + 1)" for j
      using that ih True by (cases "j = i") auto
    with ih True show ?thesis by (simp add: lowest_free_from.simps [of used i])
  next
    case False
    then show ?thesis by (simp add: lowest_free_from.simps [of used i])
  qed
qed

interpretation lfi: index_allocator lowest_free_index
  by unfold_locales (use lowest_free_from_props in \<open>auto simp: lowest_free_index_def\<close>)

end
