(* ===== verification/Ports_Props.thy ===== *)
theory Ports_Props
  imports Ports
begin

text \<open>
  Correctness of port allocation: a closed form of the resolved list and when it exists,
  range of every port, absence of cross-instance collisions between automatically allocated
  ports, the least-free-index contract, and the round trip of the compose override.
\<close>

section \<open>Closed form of the resolution\<close>

definition is_auto :: "port_mapping \<Rightarrow> bool" where
  "is_auto m \<longleftrightarrow> host m = None \<and> base_of (service m) = None"

text \<open>Host port of mapping \<open>m\<close> when \<open>slot\<close> automatic entries precede it.\<close>

definition spec_host :: "int \<Rightarrow> int \<Rightarrow> port_mapping \<Rightarrow> int" where
  "spec_host index slot m = (case host m of Some h \<Rightarrow> h
     | None \<Rightarrow> (case base_of (service m) of Some b \<Rightarrow> b + index * STRIDE
                | None \<Rightarrow> EXTRA_POOL_BASE + index * STRIDE + slot))"

definition spec_port :: "int \<Rightarrow> int \<Rightarrow> port_mapping \<Rightarrow> resolved_port" where
  "spec_port index slot m =
     \<lparr>rp_service = service m, rp_guest = guest m, rp_host = spec_host index slot m\<rparr>"

text \<open>The reference resolution: each entry on its own, the slot counted from the prefix.\<close>

definition autos_before :: "port_mapping list \<Rightarrow> nat \<Rightarrow> int" where
  "autos_before ms k = int (length (filter is_auto (take k ms)))"

definition spec_ports :: "int \<Rightarrow> int \<Rightarrow> port_mapping list \<Rightarrow> resolved_port list" where
  "spec_ports index slot ms =
     map (\<lambda>k. spec_port index (slot + autos_before ms k) (ms ! k)) [0..<length ms]"

lemma autos_before_simps [simp]:
  "autos_before ms 0 = 0"
  "autos_before (m # ms) (Suc k) = (if is_auto m then 1 else 0) + autos_before ms k"
  by (simp_all add: autos_before_def)

lemma spec_ports_simps [simp]:
  "spec_ports index slot [] = []"
  "spec_ports index slot (m # ms) =
     spec_port index slot m # spec_ports index (slot + (if is_auto m then 1 else 0)) ms"
  unfolding spec_ports_def
  by (simp_all add: upt_rec [of 0] map_Suc_upt [symmetric] add.assoc del: upt_Suc)

lemma resolve_loop_spec:
  "resolve_loop index slot ms = Inr r \<longleftrightarrow>
     r = spec_ports index slot ms \<and> (slot + int (length (filter is_auto ms)) \<le> STRIDE
        \<or> filter is_auto ms = [])"
  (is "?L ms slot r \<longleftrightarrow> ?R ms slot r")
proof (induction ms arbitrary: slot r)
  case Nil
  then show ?case by auto
next
  case (Cons m ms)
  let ?slot' = "slot + (if is_auto m then 1 else 0)"
  have step: "resolve_loop index slot (m # ms) =
      (if is_auto m \<and> slot \<ge> STRIDE then Inl (ExtraPoolExhausted index)
       else and_then (resolve_loop index ?slot' ms) (\<lambda>r. Inr (spec_port index slot m # r)))"
    by (auto simp: is_auto_def spec_port_def spec_host_def split: option.split)
  show ?case
    unfolding step
    by (cases "is_auto m") (simp_all add: Cons.IH and_then_Inr_iff, auto)
qed

lemma distinct_iff_count: "distinct xs \<longleftrightarrow> (\<forall>x\<in>set xs. count_list xs x \<le> 1)"
proof (induction xs)
  case (Cons a xs)
  have "count_list xs a = 0 \<longleftrightarrow> a \<notin> set xs" by (rule count_list_0_iff)
  moreover have "count_list xs x \<le> 1" if "\<forall>x\<in>set (a # xs). count_list (a # xs) x \<le> 1" "x \<in> set xs" for x
    using that by (cases "x = a") fastforce+
  ultimately show ?case using Cons.IH by auto
qed simp

lemma duplicates_Nil [simp]: "duplicates xs = [] \<longleftrightarrow> distinct xs"
proof -
  have "duplicates xs = [] \<longleftrightarrow> (\<forall>x\<in>set xs. count_list xs x \<le> 1)"
    by (auto simp: duplicates_def filter_empty_conv not_less)
  also have "\<dots> \<longleftrightarrow> distinct xs"
    by (rule distinct_iff_count [symmetric])
  finally show ?thesis .
qed

lemma resolve_ports_char:
  "(\<exists>adv. resolve_ports index ms quiet = Inr (r, adv)) \<longleftrightarrow>
     0 \<le> index \<and> index \<le> MAX_PORT_INDEX \<and> length (filter is_auto ms) \<le> 10
     \<and> r = spec_ports index 0 ms \<and> distinct (map rp_host r)"
proof -
  have idx: "check_index index = Inr u \<longleftrightarrow> 0 \<le> index \<and> index \<le> MAX_PORT_INDEX" for u
    by (auto simp: check_index_def)
  have "filter is_auto ms = [] \<or> int (length (filter is_auto ms)) \<le> STRIDE
      \<longleftrightarrow> length (filter is_auto ms) \<le> 10"
    by (auto simp: STRIDE_def)
  then show ?thesis
    by (auto simp: resolve_ports_def and_then_Inr_iff idx resolve_loop_spec Let_def)
qed

text \<open>
  C8: \<open>resolve_ports\<close> computes the documented allocation. It succeeds exactly when the
  index is in range, at most ten unpinned arbitrary entries are asked for and the resulting
  host ports are distinct, and then returns one entry per mapping, in order: the pinned host
  port, the stride default of a well-known service, or the next slot of the extra pool.
\<close>

theorem resolve_ports_spec:
  "(\<exists>adv. resolve_ports index ms quiet = Inr (r, adv)) \<longleftrightarrow>
     0 \<le> index \<and> index \<le> MAX_PORT_INDEX \<and> length (filter is_auto ms) \<le> 10
     \<and> r = spec_ports index 0 ms \<and> distinct (map rp_host r)"
  by (rule resolve_ports_char)

lemma resolve_ports_InrD:
  assumes "resolve_ports index ms quiet = Inr (r, adv)"
  shows "0 \<le> index" "index \<le> 1295" "length (filter is_auto ms) \<le> 10"
    "r = spec_ports index 0 ms" "distinct (map rp_host r)"
  using resolve_ports_char [of index ms quiet r] assms by auto

section \<open>Bands\<close>

lemma base_of_cases:
  "base_of s = Some b \<longleftrightarrow> (s = Some ''adb'' \<and> b = 5555) \<or> (s = Some ''frida'' \<and> b = 27042)
     \<or> (s = Some ''frida_control'' \<and> b = 27043)"
  by (auto simp: base_of_def port_consts split: option.splits if_splits)

lemma autos_before_bound: "k < length ms \<Longrightarrow> is_auto (ms ! k) \<Longrightarrow>
  0 \<le> autos_before ms k \<and> autos_before ms k < int (length (filter is_auto ms))"
proof (induction ms arbitrary: k)
  case (Cons m ms)
  then show ?case
    by (cases k) (fastforce simp: autos_before_def)+
qed simp

text \<open>Every resolved port comes from one mapping, in one of three ways.\<close>

lemma resolved_cases:
  assumes "resolve_ports index ms quiet = Inr (r, adv)" and "rp \<in> set r"
  obtains (pinned) m where "m \<in> set ms" "host m = Some (rp_host rp)"
  | (stride) m b where "m \<in> set ms" "host m = None" "base_of (service m) = Some b"
      "rp_host rp = b + index * 10"
  | (extra) k where "k < length ms" "is_auto (ms ! k)" "0 \<le> autos_before ms k" "autos_before ms k < 10"
      "rp_host rp = 40000 + index * 10 + autos_before ms k"
proof -
  note D = resolve_ports_InrD [OF assms(1)]
  obtain k where k: "k < length ms" and rp: "rp = spec_port index (autos_before ms k) (ms ! k)"
    using assms(2) unfolding D(4) spec_ports_def by auto
  show ?thesis
  proof (cases "host (ms ! k)")
    case (Some h)
    then show ?thesis using pinned [of "ms ! k"] k rp by (simp add: spec_port_def spec_host_def)
  next
    case None
    show ?thesis
    proof (cases "base_of (service (ms ! k))")
      case (Some b)
      with None show ?thesis
        using stride [of "ms ! k" b] k rp by (simp add: spec_port_def spec_host_def STRIDE_def)
    next
      case None': None
      with None have a: "is_auto (ms ! k)" by (simp add: is_auto_def)
      then show ?thesis
        using extra [OF k a] autos_before_bound [OF k a] D(3) None None' rp
        by (simp add: spec_port_def spec_host_def STRIDE_def EXTRA_POOL_BASE_def)
    qed
  qed
qed

text \<open>
  Every host port a valid configuration resolves to is a TCP port (1 to 65535).
\<close>

theorem resolved_ports_in_range:
  assumes "list_all port_mapping_ok ms" and "resolve_ports index ms quiet = Inr (r, adv)"
    and "rp \<in> set r"
  shows "1 \<le> rp_host rp \<and> rp_host rp \<le> 65535"
proof -
  note D = resolve_ports_InrD [OF assms(2)]
  from assms(2,3) show ?thesis
  proof (cases rule: resolved_cases)
    case (pinned m)
    with assms(1) have "port_mapping_ok m" by (simp add: list_all_iff)
    with pinned show ?thesis by (simp add: port_mapping_ok_def MIN_PORT_def MAX_PORT_def)
  next
    case (stride m b)
    with D show ?thesis by (auto simp: base_of_cases)
  next
    case (extra k)
    with D show ?thesis by simp
  qed
qed

lemma default_resolution_0:
  "resolve_ports 0 default_port_mappings True = Inr
     ([\<lparr>rp_service = Some ''adb'', rp_guest = 5555, rp_host = 5555\<rparr>,
       \<lparr>rp_service = Some ''frida'', rp_guest = 27042, rp_host = 27042\<rparr>,
       \<lparr>rp_service = Some ''frida_control'', rp_guest = 27043, rp_host = 27043\<rparr>], [])"
  by code_simp

lemma default_resolution_1:
  "resolve_ports 1 default_port_mappings True = Inr
     ([\<lparr>rp_service = Some ''adb'', rp_guest = 5555, rp_host = 5565\<rparr>,
       \<lparr>rp_service = Some ''frida'', rp_guest = 27042, rp_host = 27052\<rparr>,
       \<lparr>rp_service = Some ''frida_control'', rp_guest = 27043, rp_host = 27053\<rparr>], [])"
  by code_simp

theorem resolved_ports_in_range_witness:
  "\<exists>r adv. resolve_ports 0 default_port_mappings True = Inr (r, adv) \<and> r \<noteq> []
     \<and> 1 \<le> rp_host (hd r) \<and> rp_host (hd r) \<le> 65535"
proof -
  have ok: "list_all port_mapping_ok default_port_mappings" by code_simp
  show ?thesis
    using resolved_ports_in_range [OF ok default_resolution_0] default_resolution_0 by fastforce
qed

lemma auto_host_cases:
  assumes "resolve_ports i ms q = Inr (r, adv)" and "\<forall>m\<in>set ms. host m = None" and "a \<in> set r"
  shows "(\<exists>base\<in>{5555, 27042, 27043}. rp_host a = base + i * 10)
    \<or> (\<exists>s. 0 \<le> s \<and> s < 10 \<and> rp_host a = 40000 + i * 10 + s)"
  using assms(1,3,2) by (cases rule: resolved_cases) (auto simp: base_of_cases)

lemma auto_hosts_disjoint:
  assumes "resolve_ports i ms q = Inr (r, adv)" and "resolve_ports j ms' q' = Inr (r', adv')"
    and "i \<noteq> j" and "\<forall>m\<in>set ms. host m = None" and "\<forall>m\<in>set ms'. host m = None"
  shows "rp_host ` set r \<inter> rp_host ` set r' = {}"
proof -
  note I = resolve_ports_InrD(1,2) [OF assms(1)] and J = resolve_ports_InrD(1,2) [OF assms(2)]
  have "rp_host a \<noteq> rp_host b" if "a \<in> set r" "b \<in> set r'" for a b
    using auto_host_cases [OF assms(1,4) that(1)] auto_host_cases [OF assms(2,5) that(2)] I J assms(3)
    by (elim disjE) auto
  then show ?thesis by auto
qed

lemma auto_host_nonneg:
  assumes "resolve_ports i ms q = Inr (r, adv)" and "\<forall>m\<in>set ms. host m = None" and "a \<in> set r"
  shows "0 \<le> rp_host a"
  using auto_host_cases [OF assms] resolve_ports_InrD(1) [OF assms(1)] by auto

text \<open>
  Automatically allocated ports never collide across instances. Two instances with
  different indices and no pinned host port share no host port, whatever services their
  port lists name: the stride defaults and the extra pool of each index are disjoint from
  those of every other index.
\<close>

theorem auto_ports_disjoint:
  assumes "resolve_ports i ms q = Inr (r, adv)" and "resolve_ports j ms' q' = Inr (r', adv')"
    and "i \<noteq> j" and "\<forall>m\<in>set ms. host m = None" and "\<forall>m\<in>set ms'. host m = None"
  shows "rp_host ` set r \<inter> rp_host ` set r' = {}"
  by (rule auto_hosts_disjoint [OF assms])

theorem auto_ports_disjoint_witness:
  "\<exists>r r'. resolve_ports 0 default_port_mappings True = Inr (r, [])
     \<and> resolve_ports 1 default_port_mappings True = Inr (r', [])
     \<and> rp_host ` set r \<inter> rp_host ` set r' = {}"
proof -
  have "\<forall>m\<in>set default_port_mappings. host m = None"
    by (auto simp: default_port_mappings_def)
  then show ?thesis
    using auto_ports_disjoint [OF default_resolution_0 default_resolution_1] default_resolution_0
      default_resolution_1 by (intro exI conjI) auto
qed

section \<open>When resolution succeeds\<close>

lemma map_filter_distinct_nth:
  assumes "distinct (List.map_filter f xs)" and "k < length xs" and "l < length xs"
    and "f (xs ! k) = Some y" and "f (xs ! l) = Some y"
  shows "k = l"
  using assms
proof (induction xs arbitrary: k l)
  case (Cons x xs)
  have hit: "y \<in> set (List.map_filter f xs)" if "n < length xs" "f (xs ! n) = Some y" for n
    using that nth_mem [OF that(1)] by (force simp: List.map_filter_def)
  have d: "distinct (List.map_filter f xs)"
    and x: "\<And>z. f x = Some z \<Longrightarrow> z \<notin> set (List.map_filter f xs)"
    using Cons.prems(1) by (auto simp: List.map_filter_simps split: option.splits)
  show ?case
    using Cons.IH [OF d] Cons.prems(2-5) hit x by (cases k; cases l) auto
qed simp

lemma autos_before_mono:
  "k < l \<Longrightarrow> k < length ms \<Longrightarrow> is_auto (ms ! k) \<Longrightarrow> autos_before ms k < autos_before ms l"
proof (induction ms arbitrary: k l)
  case (Cons m ms)
  then show ?case by (cases k; cases l) (auto simp: autos_before_def)
qed simp

lemma spec_host_unpinned:
  assumes "host m = None"
  obtains (stride) s b where "service m = Some s" "(s, b) \<in> {(''adb'', 5555), (''frida'', 27042), (''frida_control'', 27043)}"
      "spec_host index slot m = b + index * 10"
  | (extra) "is_auto m" "spec_host index slot m = 40000 + index * 10 + slot"
proof (cases "base_of (service m)")
  case None
  then show ?thesis
    using extra assms by (simp add: spec_host_def is_auto_def STRIDE_def EXTRA_POOL_BASE_def)
next
  case (Some b)
  then have "spec_host index slot m = b + index * 10"
    using assms by (simp add: spec_host_def STRIDE_def)
  with Some show ?thesis
    using stride by (auto simp: base_of_cases)
qed

lemma spec_hosts_distinct:
  assumes "0 \<le> index" "index \<le> 1295" "length (filter is_auto ms) \<le> 10"
    and "\<forall>m\<in>set ms. host m = None" and "distinct (List.map_filter service ms)"
  shows "distinct (map rp_host (spec_ports index 0 ms))"
proof -
  let ?h = "\<lambda>k. spec_host index (autos_before ms k) (ms ! k)"
  have neq: "?h k \<noteq> ?h l" if "k < l" "l < length ms" for k l
  proof -
    have none: "host (ms ! k) = None" "host (ms ! l) = None" using assms(4) that by auto
    have svc: "service (ms ! k) \<noteq> Some s \<or> service (ms ! l) \<noteq> Some s" for s
      using map_filter_distinct_nth [OF assms(5), of k l s] that by force
    have bound: "is_auto (ms ! n) \<Longrightarrow> 0 \<le> autos_before ms n \<and> autos_before ms n < 10"
      if "n < length ms" for n
      using autos_before_bound [OF that] assms(3) by force
    have mono: "is_auto (ms ! k) \<Longrightarrow> autos_before ms k < autos_before ms l"
      using autos_before_mono [OF that(1)] that by simp
    from none(1) show ?thesis
    proof (cases rule: spec_host_unpinned [where index = index and slot = "autos_before ms k", case_names stride extra])
      case k: (stride s b)
      from none(2) show ?thesis
      proof (cases rule: spec_host_unpinned [where index = index and slot = "autos_before ms l", case_names stride extra])
        case (stride s' b')
        then show ?thesis using k svc [of s] by auto
      next
        case extra
        then show ?thesis using k bound [of l] that assms(1,2) by auto
      qed
    next
      case k: extra
      from none(2) show ?thesis
      proof (cases rule: spec_host_unpinned [where index = index and slot = "autos_before ms l", case_names stride extra])
        case (stride s' b')
        then show ?thesis using k bound [of k] that assms(1,2) by auto
      next
        case extra
        then show ?thesis using k mono by simp
      qed
    qed
  qed
  have "map rp_host (spec_ports index 0 ms) = map ?h [0..<length ms]"
    by (simp add: spec_ports_def spec_port_def)
  moreover have "inj_on ?h (set [0..<length ms])"
  proof (rule linorder_inj_onI)
    fix k l assume "k < l" "k \<in> set [0..<length ms]" "l \<in> set [0..<length ms]"
    then show "?h k \<noteq> ?h l" using neq by simp
  qed auto
  ultimately show ?thesis by (simp add: distinct_map)
qed

text \<open>
  Without pinned host ports resolution cannot fail on a well-formed list: for every
  index in range, distinct services and at most ten arbitrary entries resolve to distinct
  host ports. Only a pinned port can make an instance collide with itself.
\<close>

theorem unpinned_resolution_succeeds:
  assumes "0 \<le> index" "index \<le> MAX_PORT_INDEX" and "\<forall>m\<in>set ms. host m = None"
    and "distinct (List.map_filter service ms)" and "length (filter is_auto ms) \<le> 10"
  shows "\<exists>r adv. resolve_ports index ms quiet = Inr (r, adv)"
  using resolve_ports_char [of index ms quiet "spec_ports index 0 ms"]
    spec_hosts_distinct [of index ms] assms by auto

theorem unpinned_resolution_succeeds_witness:
  "\<exists>r adv. resolve_ports 1295 default_port_mappings False = Inr (r, adv)"
  by (rule unpinned_resolution_succeeds) code_simp+

section \<open>Service addresses\<close>

lemma well_known_get:
  "dict_get (well_known rs) s =
     (if s \<in> set (dict_keys WELL_KNOWN_SERVICES)
      then map_option rp_host (find (\<lambda>rp. rp_service rp = Some s) (rev rs)) else None)"
proof (induction rs rule: rev_induct)
  case Nil
  then show ?case by (simp add: well_known_def)
next
  case (snoc rp rs)
  have "well_known (rs @ [rp]) = (case rp_service rp of None \<Rightarrow> well_known rs
      | Some t \<Rightarrow> if t \<in> set (dict_keys WELL_KNOWN_SERVICES) then dict_set t (rp_host rp) (well_known rs)
                  else well_known rs)"
    by (simp add: well_known_def split: option.split)
  then show ?case using snoc.IH by (auto split: option.split)
qed

lemma well_known_member:
  assumes "dict_get (well_known rs) s = Some p"
  shows "p \<in> rp_host ` set rs"
proof -
  obtain rp where rp: "find (\<lambda>rp. rp_service rp = Some s) (rev rs) = Some rp" "p = rp_host rp"
    using assms by (auto simp: well_known_get split: if_splits)
  then have "rp \<in> set (rev rs)" unfolding find_Some_iff by (metis nth_mem)
  then show ?thesis using rp(2) by simp
qed

lemma spec_ports_services: "map rp_service (spec_ports index slot ms) = map service ms"
  by (induction ms arbitrary: slot) (auto simp: spec_port_def)

lemma well_known_service:
  assumes "resolve_ports index ms quiet = Inr (r, adv)" and "s \<in> set (services_of ms)"
    and "s \<in> set (dict_keys WELL_KNOWN_SERVICES)"
  shows "\<exists>rp\<in>set r. rp_service rp = Some s \<and> dict_get (well_known r) s = Some (rp_host rp)"
proof -
  have "Some s \<in> set (map service ms)"
    using assms(2) by (force simp: services_of_def List.map_filter_def)
  then have "Some s \<in> set (map rp_service r)"
    using resolve_ports_InrD(4) [OF assms(1)] spec_ports_services by metis
  then obtain rp where "find (\<lambda>rp. rp_service rp = Some s) (rev r) = Some rp"
    by (cases "find (\<lambda>rp. rp_service rp = Some s) (rev r)") (force simp: find_None_iff)+
  moreover from this have "rp \<in> set r \<and> rp_service rp = Some s"
    by (metis (mono_tags, lifting) find_Some_iff nth_mem set_rev)
  ultimately show ?thesis
    using assms(3) by (auto simp: well_known_get intro!: bexI [of _ rp])
qed

text \<open>
  Addresses exist. For a valid configuration whose ports resolve, the well-known
  projection has an adb port, and when Frida is configured also its data and control ports,
  each the host port of a resolved entry of that service; the address accessors never miss
  their key.
\<close>

theorem addresses_resolved:
  assumes "config_valid c" and "resolve_ports index (ports c) quiet = Inr (r, adv)"
    and "s = ''adb'' \<or> frida c \<noteq> None \<and> (s = ''frida'' \<or> s = ''frida_control'')"
  shows "\<exists>rp\<in>set r. rp_service rp = Some s \<and> dict_get (well_known r) s = Some (rp_host rp)"
proof -
  have "s \<in> set (services_of (ports c))"
    using assms(1,3) by (auto simp: config_valid_def config_after_ok_def check_required_addressing_services_def)
  then show ?thesis
    using assms(2,3) by (intro well_known_service) (auto simp: WELL_KNOWN_SERVICES_def)
qed

theorem addresses_resolved_witness:
  "\<exists>r adv. resolve_ports 0 (ports default_config) True = Inr (r, adv)
     \<and> (\<exists>rp\<in>set r. rp_service rp = Some ''adb'' \<and> dict_get (well_known r) ''adb'' = Some (rp_host rp))"
proof -
  have v: "config_valid default_config" by code_simp
  have p: "ports default_config = default_port_mappings" by (simp add: default_config_def)
  show ?thesis
    using addresses_resolved [OF v, of 0 True _ "[]" "''adb''"] default_resolution_0 unfolding p by blast
qed

section \<open>The lowest free index\<close>

text \<open>
  \<open>lowest_free_index\<close> returns, for every finite set of indices in use, the least
  non-negative index that is free; it is at most the number of indices in use, and freeing
  any index below it makes that index the next one handed out.
\<close>

theorem lowest_free_index_least:
  "lowest_free_index used \<notin> set used \<and> 0 \<le> lowest_free_index used
   \<and> (\<forall>j. 0 \<le> j \<and> j < lowest_free_index used \<longrightarrow> j \<in> set used)
   \<and> lowest_free_index used \<le> int (card (set used))
   \<and> (\<forall>i. 0 \<le> i \<and> i < lowest_free_index used \<longrightarrow>
        lowest_free_index (filter (\<lambda>u. u \<noteq> i) used) = i)"
  using lfi.alloc_fresh lfi.alloc_nonneg lfi.alloc_least lfi.alloc_le_card
  by (auto intro!: lfi.alloc_reuse [where used = used])

theorem lowest_free_index_least_witness:
  "lowest_free_index [0, 1, 3] = 2 \<and> lowest_free_index (filter (\<lambda>u. u \<noteq> 1) [0, 1, 3]) = 1"
proof -
  have "lowest_free_index [0, 1, 3] = 2"
    by (simp add: lowest_free_index_def lowest_free_from.simps)
  moreover have "(0::int) \<le> 1 \<and> 1 < lowest_free_index [0, 1, 3] \<longrightarrow>
      lowest_free_index (filter (\<lambda>u. u \<noteq> 1) [0, 1, 3]) = 1"
    using lowest_free_index_least [of "[0, 1, 3]"] by blast
  ultimately show ?thesis by simp
qed

section \<open>The compose override\<close>

text \<open>Reading the override back: the quoted pair of a list line.\<close>

definition parse_override_line :: "string \<Rightarrow> int \<times> int" where
  "parse_override_line l = (let q = butlast (drop 9 l); parts = split_on (CHR '':'') q
     in (int_of_str (hd parts), int_of_str (last parts)))"

definition parse_override :: "string \<Rightarrow> (int \<times> int) list" where
  "parse_override s = map parse_override_line (butlast (drop 3 (split_on (CHR 0x0A) s)))"

lemma parse_override_line_inverse:
  "0 \<le> rp_host rp \<Longrightarrow> 0 \<le> rp_guest rp \<Longrightarrow>
   parse_override_line (override_line rp) = (rp_host rp, rp_guest rp)"
  using dec_no_special [of "rp_host rp" "CHR '':''"] dec_no_special [of "rp_guest rp" "CHR '':''"]
  by (simp add: parse_override_line_def override_line_def str_of_int_nonneg butlast_append
      split_on_append_sep split_on_no_sep Let_def)

lemma join_snoc_sep: "xs \<noteq> [] \<Longrightarrow> join sep xs @ sep = join sep (xs @ [[]])"
  by (induction sep xs rule: join.induct) auto

text \<open>
  The compose override lists exactly the resolved mappings: reading the rendered
  document back gives the host and guest port of every entry, in the resolved order.
\<close>

theorem override_roundtrip:
  assumes "\<forall>rp\<in>set r. 0 \<le> rp_host rp \<and> 0 \<le> rp_guest rp"
  shows "parse_override (render_compose_ports_override r) = map (\<lambda>rp. (rp_host rp, rp_guest rp)) r"
proof -
  let ?ls = "[''services:'', ''  phone:'', ''    ports:''] @ map override_line r"
  have nl: "CHR 0x0A \<notin> set (override_line rp)" for rp
    by (auto simp: override_line_def)
  have "split_on (CHR 0x0A) (join [CHR 0x0A] (?ls @ [[]])) = ?ls @ [[]]"
    by (rule split_join) (use nl in auto)
  then have "split_on (CHR 0x0A) (render_compose_ports_override r) = ?ls @ [[]]"
    using join_snoc_sep [of ?ls NL] by (simp add: render_compose_ports_override_def NL_def)
  then show ?thesis
    using assms by (auto simp: parse_override_def butlast_append parse_override_line_inverse)
qed

theorem override_roundtrip_witness:
  "parse_override (render_compose_ports_override
     [\<lparr>rp_service = Some ''adb'', rp_guest = 5555, rp_host = 5565\<rparr>]) = [(5565, 5555)]"
  using override_roundtrip [of "[\<lparr>rp_service = Some ''adb'', rp_guest = 5555, rp_host = 5565\<rparr>]"]
  by simp

end
