(* ===== verification/Registry.thy ===== *)
theory Registry
  imports Ports
begin

text \<open>
  \<open>registry.py\<close>: the user-global JSON file that maps instance names to backend, port index
  and creation time. The file system around it is part of the state (\<open>world\<close>); every
  public operation runs inside the exclusive lock and is one transition of that state.
  pydantic's scalar coercions and the third-party backend classes are an argument (\<open>pyd\<close>).
\<close>

section \<open>Backends and rows\<close>

datatype backend =
    Redroid string "(string, string) dict"
  | Adb string
  | VmBackend string
  | Third string string "(pyval \<times> pyval) list"
  | Unresolved string "(pyval \<times> pyval) list"

text \<open>
  A backend config class: in-tree ones by constructor, a third-party one by name with the
  pinned default of its \<open>kind\<close> field, if it has one.
\<close>

datatype cfg_class = RedroidCls | AdbCls | VmCls | ThirdCls string "string option"

fun kind_default :: "cfg_class \<Rightarrow> string option" where
  "kind_default RedroidCls = Some ''redroid''"
| "kind_default AdbCls = Some ''adb''"
| "kind_default VmCls = Some ''vm''"
| "kind_default (ThirdCls _ k) = k"

record instance_meta =
  backend :: backend
  index :: int
  created_at :: string

text \<open>
  What pydantic decides: coercion of an integer, a string and a timestamp (given back in
  its ISO form), and validation of a third-party payload (given back as its dump).
\<close>

record pyd =
  pyd_int :: "pyval \<Rightarrow> int option"
  pyd_str :: "pyval \<Rightarrow> string option"
  pyd_datetime :: "pyval \<Rightarrow> string option"
  pyd_third :: "string \<Rightarrow> (pyval \<times> pyval) list \<Rightarrow> (pyval \<times> pyval) list option"

definition SCHEMA_VERSION :: int where "SCHEMA_VERSION = 3"

type_synonym registry_file = "(string, instance_meta) dict"

datatype doc = BadUtf8 | EmptyText | BadJson | Json pyval

record world =
  registry_json :: "doc option"
  registry_bak :: "doc option"
  cwd_json :: "doc option"
  legacy_hint_printed :: bool
  v02_hint_printed :: bool
  classes :: "(string, cfg_class) dict"
  yaml :: yaml_env
  loads :: load_state

datatype reg_error =
    AlreadyRegistered string
  | MissingBackend
  | UnknownInstance string
  | NotDirectoryBacked string
  | NoKindDefault
  | KindTaken string
  | RowError
  | UnicodeDecodeErr
  | PortErr port_error
  | LoadErr load_error
  | PortCollision int string string

definition note_world :: "advisory \<Rightarrow> world \<Rightarrow> world" where
  "note_world n w = w\<lparr>loads := emit n (loads w)\<rparr>"

section \<open>Backend classes\<close>

definition BACKEND_CONFIG_REGISTRY :: "(string, cfg_class) dict" where
  "BACKEND_CONFIG_REGISTRY = [(''redroid'', RedroidCls), (''adb'', AdbCls), (''vm'', VmCls)]"

definition register_backend_config :: "cfg_class \<Rightarrow> world \<Rightarrow> (reg_error + unit) \<times> world" where
  "register_backend_config cls w = (case kind_default cls of
     None \<Rightarrow> (Inl NoKindDefault, w)
   | Some kind \<Rightarrow> (case dict_get (classes w) kind of
       Some existing \<Rightarrow> if existing \<noteq> cls then (Inl (KindTaken kind), w)
                        else (Inr (), w\<lparr>classes := dict_set kind cls (classes w)\<rparr>)
     | None \<Rightarrow> (Inr (), w\<lparr>classes := dict_set kind cls (classes w)\<rparr>)))"

fun kind_of :: "backend \<Rightarrow> string" where
  "kind_of (Redroid _ _) = ''redroid''"
| "kind_of (Adb _) = ''adb''"
| "kind_of (VmBackend _) = ''vm''"
| "kind_of (Third _ k _) = k"
| "kind_of (Unresolved k _) = k"

definition dump_backend_config :: "backend \<Rightarrow> (pyval \<times> pyval) list" where
  "dump_backend_config b = (case b of
     Unresolved _ raw \<Rightarrow> raw
   | Redroid p sp \<Rightarrow> [(PStr ''kind'', PStr ''redroid''), (PStr ''absolute_path'', PStr p),
       (PStr ''stealth_paths'', PDict (map (\<lambda>(k, v). (PStr k, PStr v)) sp))]
   | Adb s \<Rightarrow> [(PStr ''kind'', PStr ''adb''), (PStr ''serial'', PStr s)]
   | VmBackend p \<Rightarrow> [(PStr ''kind'', PStr ''vm''), (PStr ''absolute_path'', PStr p)]
   | Third _ _ d \<Rightarrow> d)"

definition only_keys :: "string list \<Rightarrow> (pyval \<times> pyval) list \<Rightarrow> bool" where
  "only_keys ks d \<longleftrightarrow> set (dict_keys d) \<subseteq> PStr ` set ks"

definition str_field :: "pyd \<Rightarrow> string \<Rightarrow> (pyval \<times> pyval) list \<Rightarrow> string option" where
  "str_field p k d = Option.bind (dict_get d (PStr k)) (pyd_str p)"

definition str_dict :: "pyd \<Rightarrow> pyval \<Rightarrow> (string, string) dict option" where
  "str_dict p v = (case v of
     PDict d \<Rightarrow> those (map (\<lambda>(k, x). Option.bind (pyd_str p k) (\<lambda>k'.
       map_option (Pair k') (pyd_str p x))) d)
   | _ \<Rightarrow> None)"

definition kind_str :: "(pyval \<times> pyval) list \<Rightarrow> string" where
  "kind_str raw = (case dict_get raw (PStr ''kind'') of Some (PStr s) \<Rightarrow> s | _ \<Rightarrow> [])"

text \<open>\<open>cls.model_validate(raw)\<close>: extra keys are forbidden, required fields must be present.\<close>

definition class_model_validate :: "pyd \<Rightarrow> cfg_class \<Rightarrow> (pyval \<times> pyval) list \<Rightarrow> backend option" where
  "class_model_validate p cls raw = (case cls of
     RedroidCls \<Rightarrow>
       if \<not> only_keys [''kind'', ''absolute_path'', ''stealth_paths''] raw
          \<or> dict_get raw (PStr ''kind'') \<notin> {None, Some (PStr ''redroid'')} then None
       else Option.bind (str_field p ''absolute_path'' raw) (\<lambda>ap.
              map_option (Redroid ap) (case dict_get raw (PStr ''stealth_paths'') of
                None \<Rightarrow> Some [] | Some v \<Rightarrow> str_dict p v))
   | AdbCls \<Rightarrow>
       if \<not> only_keys [''kind'', ''serial''] raw
          \<or> dict_get raw (PStr ''kind'') \<notin> {None, Some (PStr ''adb'')} then None
       else map_option Adb (str_field p ''serial'' raw)
   | VmCls \<Rightarrow>
       if \<not> only_keys [''kind'', ''absolute_path''] raw
          \<or> dict_get raw (PStr ''kind'') \<notin> {None, Some (PStr ''vm'')} then None
       else map_option VmBackend (str_field p ''absolute_path'' raw)
   | ThirdCls n _ \<Rightarrow> map_option (\<lambda>d. Third n (kind_str d) d) (pyd_third p n raw))"

definition opaque_backend :: "(pyval \<times> pyval) list \<Rightarrow> backend" where
  "opaque_backend raw = Unresolved (kind_str raw) raw"

text \<open>\<open>None\<close> is a validation error of the class.\<close>

definition parse_backend_config :: "pyd \<Rightarrow> (string, cfg_class) dict \<Rightarrow> (pyval \<times> pyval) list
    \<Rightarrow> backend option" where
  "parse_backend_config p cs raw = (case dict_get cs (kind_str raw) of
     None \<Rightarrow> Some (opaque_backend raw)
   | Some cls \<Rightarrow> class_model_validate p cls raw)"

section \<open>Reading and writing the file\<close>

text \<open>\<open>InstanceMeta.model_validate({**meta_dict, "backend": b})\<close>.\<close>

definition meta_model_validate :: "pyd \<Rightarrow> (pyval \<times> pyval) list \<Rightarrow> backend \<Rightarrow> instance_meta option" where
  "meta_model_validate p meta b =
     (if \<not> only_keys [''backend'', ''index'', ''created_at''] meta then None
      else Option.bind (Option.bind (dict_get meta (PStr ''index'')) (pyd_int p)) (\<lambda>i.
           Option.bind (Option.bind (dict_get meta (PStr ''created_at'')) (pyd_datetime p)) (\<lambda>t.
           Some \<lparr>backend = b, index = i, created_at = t\<rparr>)))"

definition parse_row :: "pyd \<Rightarrow> (string, cfg_class) dict \<Rightarrow> (pyval \<times> pyval) list
    \<Rightarrow> (pyval \<times> pyval) list \<Rightarrow> reg_error + instance_meta" where
  "parse_row p cs meta_dict backend_raw =
     (case Option.bind (parse_backend_config p cs backend_raw) (meta_model_validate p meta_dict) of
        Some m \<Rightarrow> Inr m
      | None \<Rightarrow> (case meta_model_validate p meta_dict (opaque_backend backend_raw) of
          Some m \<Rightarrow> Inr m
        | None \<Rightarrow> Inl RowError))"

text \<open>
  One row of the loop in \<open>_read\<close>; \<open>None\<close> is \<open>continue\<close>: a row that is no dict, or whose
  \<open>backend\<close> is no dict, is skipped.
\<close>

definition read_row :: "pyd \<Rightarrow> (string, cfg_class) dict \<Rightarrow> pyval \<Rightarrow> (reg_error + instance_meta) option" where
  "read_row p cs meta = (case meta of
     PDict meta_dict \<Rightarrow> (case dict_get meta_dict (PStr ''backend'') of
         Some (PDict backend_raw) \<Rightarrow> Some (parse_row p cs meta_dict backend_raw)
       | _ \<Rightarrow> None)
   | _ \<Rightarrow> None)"

definition key_str :: "pyval \<Rightarrow> string" where
  "key_str v = (case v of PStr s \<Rightarrow> s | _ \<Rightarrow> [])"

fun read_rows :: "pyd \<Rightarrow> (string, cfg_class) dict \<Rightarrow> (pyval \<times> pyval) list
    \<Rightarrow> registry_file \<Rightarrow> reg_error + registry_file" where
  "read_rows p cs [] acc = Inr acc"
| "read_rows p cs ((name, meta) # rows) acc = (case read_row p cs meta of
     None \<Rightarrow> read_rows p cs rows acc
   | Some (Inl e) \<Rightarrow> Inl e
   | Some (Inr m) \<Rightarrow> read_rows p cs rows (dict_set (key_str name) m acc))"

definition check_v02_registry_at_cwd :: "world \<Rightarrow> (reg_error + unit) \<times> world" where
  "check_v02_registry_at_cwd w =
     (if v02_hint_printed w then (Inr (), w)
      else case cwd_json w of
        None \<Rightarrow> (Inr (), w)
      | Some candidate \<Rightarrow>
          if registry_json w \<noteq> None \<and> registry_json w \<noteq> Some EmptyText then (Inr (), w)
          else (case candidate of
              BadUtf8 \<Rightarrow> (Inl UnicodeDecodeErr, w)
            | Json (PDict d) \<Rightarrow>
                if \<not> has_str d ''version'' \<and> \<not> has_str d ''instances''
                then (Inr (), (note_world NoteV02Registry w)\<lparr>v02_hint_printed := True\<rparr>)
                else (Inr (), w)
            | _ \<Rightarrow> (Inr (), w)))"

definition backup_and_warn :: "string \<Rightarrow> world \<Rightarrow> registry_file \<times> world" where
  "backup_and_warn reason w = (case registry_json w of
     None \<Rightarrow> ([], w)
   | Some d \<Rightarrow>
       let w1 = w\<lparr>registry_bak := Some d, registry_json := None\<rparr>
       in ([], if \<not> legacy_hint_printed w
               then (note_world (NoteRegistryBackup reason) w1)\<lparr>legacy_hint_printed := True\<rparr>
               else w1))"

text \<open>\<open>raw.get("version") != SCHEMA_VERSION\<close> for a decoded document.\<close>

definition version_ok :: "pyval \<Rightarrow> bool" where
  "version_ok raw \<longleftrightarrow> is_dict raw \<and> eq_int (get_str (as_dict raw) ''version'') SCHEMA_VERSION"

definition needs_legacy_migration :: "world \<Rightarrow> bool" where
  "needs_legacy_migration w = (case registry_json w of
     None \<Rightarrow> False | Some (Json raw) \<Rightarrow> \<not> version_ok raw | Some _ \<Rightarrow> True)"

definition read_registry :: "pyd \<Rightarrow> world \<Rightarrow> (reg_error + registry_file) \<times> world" where
  "read_registry p w0 = (case check_v02_registry_at_cwd w0 of
     (Inl e, w) \<Rightarrow> (Inl e, w)
   | (Inr _, w) \<Rightarrow> (case registry_json w of
       None \<Rightarrow> (Inr [], w)
     | Some BadUtf8 \<Rightarrow> (Inl UnicodeDecodeErr, w)
     | Some (Json raw) \<Rightarrow>
         if \<not> version_ok raw then (let (f, w') = backup_and_warn ''version'' w in (Inr f, w'))
         else (case read_rows p (classes w)
                  (case dict_get (as_dict raw) (PStr ''instances'') of Some (PDict d) \<Rightarrow> d | _ \<Rightarrow> []) [] of
             Inl _ \<Rightarrow> (let (f, w') = backup_and_warn ''row'' w in (Inr f, w'))
           | Inr rows \<Rightarrow> (Inr rows, w))
     | Some _ \<Rightarrow> (let (f, w') = backup_and_warn ''json'' w in (Inr f, w'))))"

definition dump_meta :: "instance_meta \<Rightarrow> pyval" where
  "dump_meta m = PDict [(PStr ''backend'', PDict (dump_backend_config (backend m))),
     (PStr ''index'', PInt (index m)), (PStr ''created_at'', PStr (created_at m))]"

definition registry_to_json :: "registry_file \<Rightarrow> pyval" where
  "registry_to_json f = PDict [(PStr ''version'', PInt SCHEMA_VERSION),
     (PStr ''instances'', PDict (map (\<lambda>(name, m). (PStr name, dump_meta m)) f))]"

text \<open>The atomic replace: the file holds the new document, nothing else changes.\<close>

definition write_registry :: "registry_file \<Rightarrow> world \<Rightarrow> world" where
  "write_registry f w = w\<lparr>registry_json := Some (Json (registry_to_json f))\<rparr>"

text \<open>First-time initialisation under the exclusive lock.\<close>

definition locked_init :: "world \<Rightarrow> world" where
  "locked_init w = (if registry_json w = None then write_registry [] w else w)"

section \<open>Operations\<close>

definition list_instances :: "pyd \<Rightarrow> world \<Rightarrow> (reg_error + registry_file) \<times> world" where
  "list_instances p w =
     (if registry_json w = None
      then (case check_v02_registry_at_cwd w of (Inl e, w') \<Rightarrow> (Inl e, w') | (Inr _, w') \<Rightarrow> (Inr [], w'))
      else if \<not> needs_legacy_migration w then read_registry p w
      else read_registry p (locked_init w))"

definition get :: "pyd \<Rightarrow> string \<Rightarrow> world \<Rightarrow> (reg_error + instance_meta option) \<times> world" where
  "get p name w = (case list_instances p w of
     (Inl e, w') \<Rightarrow> (Inl e, w') | (Inr f, w') \<Rightarrow> (Inr (dict_get f name), w'))"

definition used_indices :: "pyd \<Rightarrow> world \<Rightarrow> (reg_error + int list) \<times> world" where
  "used_indices p w = (case list_instances p w of
     (Inl e, w') \<Rightarrow> (Inl e, w') | (Inr f, w') \<Rightarrow> (Inr (map index (dict_values f)), w'))"

text \<open>A critical section: lock, read, run the body on the file, give its result.\<close>

definition locked_section :: "pyd \<Rightarrow> (registry_file \<Rightarrow> world \<Rightarrow> (reg_error + 'a) \<times> world)
    \<Rightarrow> world \<Rightarrow> (reg_error + 'a) \<times> world" where
  "locked_section p body w = (case read_registry p (locked_init w) of
     (Inl e, w') \<Rightarrow> (Inl e, w') | (Inr f, w') \<Rightarrow> body f w')"

definition add_allocating_body :: "string \<Rightarrow> backend \<Rightarrow> string \<Rightarrow> registry_file \<Rightarrow> world
    \<Rightarrow> (reg_error + int) \<times> world" where
  "add_allocating_body name b now f w =
     (if dict_get f name \<noteq> None then (Inl (AlreadyRegistered name), w)
      else let i = lowest_free_index (map index (dict_values f))
           in case check_index i of
                Inl e \<Rightarrow> (Inl (PortErr e), w)
              | Inr _ \<Rightarrow> (Inr i, write_registry
                  (dict_set name \<lparr>backend = b, index = i, created_at = now\<rparr> f) w))"

definition add_allocating :: "pyd \<Rightarrow> string \<Rightarrow> string option \<Rightarrow> backend option \<Rightarrow> string \<Rightarrow> world
    \<Rightarrow> (reg_error + int) \<times> world" where
  "add_allocating p name absolute_path backend_arg now w = (case backend_arg of
     Some b \<Rightarrow> locked_section p (add_allocating_body name b now) w
   | None \<Rightarrow> (case absolute_path of
       None \<Rightarrow> (Inl MissingBackend, w)
     | Some ap \<Rightarrow> locked_section p (add_allocating_body name (Redroid ap []) now) w))"

definition remove_body :: "string \<Rightarrow> registry_file \<Rightarrow> world \<Rightarrow> (reg_error + unit) \<times> world" where
  "remove_body name f w = (Inr (), write_registry (dict_pop name f) w)"

definition remove :: "pyd \<Rightarrow> string \<Rightarrow> world \<Rightarrow> (reg_error + unit) \<times> world" where
  "remove p name w = locked_section p (remove_body name) w"

definition set_stealth_paths_body :: "string \<Rightarrow> (string, string) dict \<Rightarrow> registry_file \<Rightarrow> world
    \<Rightarrow> (reg_error + unit) \<times> world" where
  "set_stealth_paths_body name sp f w = (case dict_get f name of
     None \<Rightarrow> (Inl (UnknownInstance name), w)
   | Some m \<Rightarrow> (case backend m of
       Redroid ap _ \<Rightarrow> (Inr (), write_registry (dict_set name (m\<lparr>backend := Redroid ap sp\<rparr>) f) w)
     | b \<Rightarrow> (Inl (NotDirectoryBacked name), w)))"

definition set_stealth_paths :: "pyd \<Rightarrow> string \<Rightarrow> (string, string) dict \<Rightarrow> world
    \<Rightarrow> (reg_error + unit) \<times> world" where
  "set_stealth_paths p name sp w = locked_section p (set_stealth_paths_body name sp) w"

definition reconcile_body :: "string \<Rightarrow> bool \<Rightarrow> registry_file \<Rightarrow> world \<Rightarrow> (reg_error + bool) \<times> world" where
  "reconcile_body name want_vm f w = (case dict_get f name of
     None \<Rightarrow> (Inr False, w)
   | Some m \<Rightarrow> (case backend m of
       Redroid ap _ \<Rightarrow> if \<not> want_vm then (Inr False, w)
         else (Inr True, write_registry (dict_set name (m\<lparr>backend := VmBackend ap\<rparr>) f) w)
     | VmBackend ap \<Rightarrow> if want_vm then (Inr False, w)
         else (Inr True, write_registry (dict_set name (m\<lparr>backend := Redroid ap []\<rparr>) f) w)
     | _ \<Rightarrow> (Inr False, w)))"

definition reconcile_backend_kind :: "pyd \<Rightarrow> string \<Rightarrow> binder_mode \<Rightarrow> world
    \<Rightarrow> (reg_error + bool) \<times> world" where
  "reconcile_backend_kind p name mode w = locked_section p (reconcile_body name (mode = BinderVm)) w"

definition dir_of :: "backend \<Rightarrow> string option" where
  "dir_of b = (case b of Redroid ap _ \<Rightarrow> Some ap | VmBackend ap \<Rightarrow> Some ap | _ \<Rightarrow> None)"

definition instance_path :: "pyd \<Rightarrow> string \<Rightarrow> world \<Rightarrow> (reg_error + string) \<times> world" where
  "instance_path p name w = (case get p name w of
     (Inl e, w') \<Rightarrow> (Inl e, w')
   | (Inr None, w') \<Rightarrow> (Inl (UnknownInstance name), w')
   | (Inr (Some m), w') \<Rightarrow> (case dir_of (backend m) of
       None \<Rightarrow> (Inl (NotDirectoryBacked name), w')
     | Some ap \<Rightarrow> (Inr ap, w')))"

section \<open>Cross-instance port collisions\<close>

definition instance_yaml :: "string \<Rightarrow> string" where
  "instance_yaml r = r @ ''/beetroot.yaml''"

definition stride_defaults :: "int \<Rightarrow> reg_error + int list" where
  "stride_defaults i = (case ports_for_index i of Inl e \<Rightarrow> Inl (PortErr e) | Inr d \<Rightarrow> Inr (dict_values d))"

text \<open>The ports of one row; \<open>Inr None\<close> skips an orphan. A load adds its notes to the console.\<close>

definition row_host_ports :: "instance_meta \<Rightarrow> world \<Rightarrow> (reg_error + int list option) \<times> world" where
  "row_host_ports m w = (case dir_of (backend m) of
     None \<Rightarrow> (case stride_defaults (index m) of Inl e \<Rightarrow> (Inl e, w) | Inr ps \<Rightarrow> (Inr (Some ps), w))
   | Some ap \<Rightarrow> (case load_yaml (yaml w) (instance_yaml ap) (loads w) of
       (Inl FileNotFound, st) \<Rightarrow> (Inr None, w\<lparr>loads := st\<rparr>)
     | (Inl e, st) \<Rightarrow> (Inl (LoadErr e), w\<lparr>loads := st\<rparr>)
     | (Inr cfg, st) \<Rightarrow> (case resolve_ports (index m) (ports cfg) True of
         Inr (resolved, _) \<Rightarrow> (Inr (Some (map rp_host resolved)), w\<lparr>loads := st\<rparr>)
       | Inl _ \<Rightarrow> (case stride_defaults (index m) of
           Inl e \<Rightarrow> (Inl e, w\<lparr>loads := st\<rparr>)
         | Inr ps \<Rightarrow> (Inr (Some (List.map_filter host (ports cfg) @ ps)), w\<lparr>loads := st\<rparr>)))))"

fun resolved_host_ports_from :: "registry_file \<Rightarrow> world \<Rightarrow> (reg_error + (string, int list) dict) \<times> world" where
  "resolved_host_ports_from [] w = (Inr [], w)"
| "resolved_host_ports_from ((name, m) # rows) w = (case row_host_ports m w of
     (Inl e, w') \<Rightarrow> (Inl e, w')
   | (Inr r, w') \<Rightarrow> (case resolved_host_ports_from rows w' of
       (Inl e, w'') \<Rightarrow> (Inl e, w'')
     | (Inr out, w'') \<Rightarrow> (Inr (case r of None \<Rightarrow> out | Some ps \<Rightarrow> (name, ps) # out), w'')))"

definition all_resolved_host_ports :: "pyd \<Rightarrow> world \<Rightarrow> (reg_error + (string, int list) dict) \<times> world" where
  "all_resolved_host_ports p w = (case list_instances p w of
     (Inl e, w') \<Rightarrow> (Inl e, w') | (Inr f, w') \<Rightarrow> resolved_host_ports_from f w')"

definition service_label :: "string option \<Rightarrow> string" where
  "service_label s = (case s of None \<Rightarrow> ''None'' | Some n \<Rightarrow> n)"

fun find_in_others :: "resolved_port \<Rightarrow> (string, int list) dict \<Rightarrow> (int \<times> string \<times> string) option" where
  "find_in_others rp [] = None"
| "find_in_others rp ((other, ps) # others) =
     (if rp_host rp \<in> set ps then Some (rp_host rp, other, service_label (rp_service rp))
      else find_in_others rp others)"

fun find_port_collision :: "resolved_port list \<Rightarrow> (string, int list) dict
    \<Rightarrow> (int \<times> string \<times> string) option" where
  "find_port_collision [] others = None"
| "find_port_collision (rp # rps) others = (case find_in_others rp others of
     Some c \<Rightarrow> Some c | None \<Rightarrow> find_port_collision rps others)"

definition assert_no_port_collision :: "pyd \<Rightarrow> string \<Rightarrow> resolved_port list \<Rightarrow> world
    \<Rightarrow> (reg_error + unit) \<times> world" where
  "assert_no_port_collision p name new_ports w = locked_section p (\<lambda>f w1.
     case resolved_host_ports_from f w1 of
       (Inl e, w2) \<Rightarrow> (Inl e, w2)
     | (Inr siblings, w2) \<Rightarrow> (case find_port_collision new_ports (dict_pop name siblings) of
         None \<Rightarrow> (Inr (), w2)
       | Some (port, other, kind) \<Rightarrow> (Inl (PortCollision port other kind), w2))) w"

end
