(* ===== verification/Registry_Codec.thy ===== *)
theory Registry_Codec
  imports Registry
begin

text \<open>
  Writing the registry and reading it back: which rows survive the round trip and why every
  row obtained from a file does. \<open>pyd_laws\<close> collects the documented behaviour of pydantic
  the round trip relies on.
\<close>

section \<open>What is assumed of pydantic\<close>

definition pyd_laws :: "pyd \<Rightarrow> bool" where
  "pyd_laws p \<longleftrightarrow> (\<forall>i. pyd_int p (PInt i) = Some i) \<and> (\<forall>s. pyd_str p (PStr s) = Some s)
     \<and> (\<forall>v t. pyd_datetime p v = Some t \<longrightarrow> pyd_datetime p (PStr t) = Some t)
     \<and> (\<forall>n raw d. pyd_third p n raw = Some d \<longrightarrow> pyd_third p n d = Some d \<and> kind_str d = kind_str raw)"

text \<open>A concrete instance: no coercion between types, ISO strings kept, no third-party class.\<close>

definition strict_pyd :: pyd where
  "strict_pyd = \<lparr>pyd_int = (\<lambda>v. case v of PInt i \<Rightarrow> Some i | _ \<Rightarrow> None),
     pyd_str = (\<lambda>v. case v of PStr s \<Rightarrow> Some s | _ \<Rightarrow> None),
     pyd_datetime = (\<lambda>v. case v of PStr s \<Rightarrow> Some s | _ \<Rightarrow> None),
     pyd_third = (\<lambda>n d. None)\<rparr>"

lemma strict_pyd_laws: "pyd_laws strict_pyd"
  by (auto simp: pyd_laws_def strict_pyd_def split: pyval.splits)

definition classes_ok :: "(string, cfg_class) dict \<Rightarrow> bool" where
  "classes_ok cs \<longleftrightarrow> dict_get cs ''redroid'' = Some RedroidCls \<and> dict_get cs ''adb'' = Some AdbCls
     \<and> dict_get cs ''vm'' = Some VmCls"

lemma in_tree_classes_ok: "classes_ok BACKEND_CONFIG_REGISTRY"
  by (simp add: classes_ok_def BACKEND_CONFIG_REGISTRY_def)

section \<open>Rows\<close>

definition stored_backend :: "pyd \<Rightarrow> (string, cfg_class) dict \<Rightarrow> backend \<Rightarrow> bool" where
  "stored_backend p cs b \<longleftrightarrow> (case parse_backend_config p cs (dump_backend_config b) of
     Some b' \<Rightarrow> b' = b | None \<Rightarrow> opaque_backend (dump_backend_config b) = b)"

definition iso_time :: "pyd \<Rightarrow> string \<Rightarrow> bool" where
  "iso_time p t \<longleftrightarrow> pyd_datetime p (PStr t) = Some t"

definition row_good :: "pyd \<Rightarrow> (string, cfg_class) dict \<Rightarrow> instance_meta \<Rightarrow> bool" where
  "row_good p cs m \<longleftrightarrow> iso_time p (created_at m) \<and> stored_backend p cs (backend m)"

lemma str_dict_dump:
  "pyd_laws p \<Longrightarrow> str_dict p (PDict (map (\<lambda>(k, v). (PStr k, PStr v)) sp)) = Some sp"
  by (induction sp) (auto simp: str_dict_def pyd_laws_def)

lemmas dump_lookup_simps = dump_backend_config_def kind_str_def only_keys_def str_field_def

lemma stored_in_tree:
  assumes "pyd_laws p" and "classes_ok cs"
  shows "stored_backend p cs (Redroid ap sp)" "stored_backend p cs (Adb s)"
    "stored_backend p cs (VmBackend ap)"
  using assms str_dict_dump [OF assms(1), of sp]
  by (simp_all add: stored_backend_def parse_backend_config_def class_model_validate_def
      dump_lookup_simps classes_ok_def pyd_laws_def)

lemma opaque_dump [simp]: "dump_backend_config (opaque_backend raw) = raw"
  by (simp add: opaque_backend_def dump_backend_config_def)

lemma stored_opaque:
  "parse_backend_config p cs raw = None \<or> dict_get cs (kind_str raw) = None \<Longrightarrow>
   stored_backend p cs (opaque_backend raw)"
  by (auto simp: stored_backend_def parse_backend_config_def split: option.splits)

lemma stored_parsed:
  assumes "pyd_laws p" and "classes_ok cs" and "parse_backend_config p cs raw = Some b"
  shows "stored_backend p cs b"
proof (cases "dict_get cs (kind_str raw)")
  case None
  with assms(3) show ?thesis
    by (auto simp: parse_backend_config_def intro: stored_opaque)
next
  case (Some cls)
  with assms(3) have v: "class_model_validate p cls raw = Some b"
    by (simp add: parse_backend_config_def)
  show ?thesis
  proof (cases cls)
    case (ThirdCls n k)
    with v obtain d where d: "pyd_third p n raw = Some d" "b = Third n (kind_str d) d"
      by (auto simp: class_model_validate_def)
    with assms(1) have "pyd_third p n d = Some d" "kind_str d = kind_str raw"
      by (auto simp: pyd_laws_def)
    with d ThirdCls Some show ?thesis
      by (simp add: stored_backend_def parse_backend_config_def class_model_validate_def
          dump_backend_config_def)
  qed (use v stored_in_tree [OF assms(1,2)] in
      \<open>auto simp: class_model_validate_def bind_eq_Some_conv split: if_splits option.splits\<close>)
qed

lemma meta_model_validate_Some:
  "meta_model_validate p meta b = Some m \<Longrightarrow>
     backend m = b \<and> (\<exists>v. dict_get meta (PStr ''created_at'') = Some v \<and> pyd_datetime p v = Some (created_at m))
     \<and> (\<exists>v. dict_get meta (PStr ''index'') = Some v \<and> pyd_int p v = Some (index m))"
  by (auto simp: meta_model_validate_def bind_eq_Some_conv split: if_splits)

lemma meta_model_validate_backend:
  "meta_model_validate p meta b = None \<longleftrightarrow> meta_model_validate p meta b' = None"
  by (auto simp: meta_model_validate_def bind_eq_None_conv)

lemma parse_row_Inr:
  assumes "parse_row p cs meta raw = Inr m"
  shows "\<exists>b. meta_model_validate p meta b = Some m
     \<and> (parse_backend_config p cs raw = Some b
        \<or> parse_backend_config p cs raw = None \<and> b = opaque_backend raw)"
proof (cases "parse_backend_config p cs raw")
  case None
  with assms show ?thesis by (auto simp: parse_row_def split: option.splits)
next
  case (Some b)
  with assms meta_model_validate_backend [of p meta b "opaque_backend raw"] show ?thesis
    by (auto simp: parse_row_def split: option.splits)
qed

lemma parse_row_good:
  assumes "pyd_laws p" and "classes_ok cs" and "parse_row p cs meta raw = Inr m"
  shows "row_good p cs m"
proof -
  obtain b where b: "meta_model_validate p meta b = Some m"
      "parse_backend_config p cs raw = Some b
        \<or> parse_backend_config p cs raw = None \<and> b = opaque_backend raw"
    using parse_row_Inr [OF assms(3)] by blast
  have "stored_backend p cs b"
    using b(2) stored_parsed [OF assms(1,2)] stored_opaque by blast
  then show ?thesis
    using meta_model_validate_Some [OF b(1)] assms(1)
    by (auto simp: row_good_def iso_time_def pyd_laws_def)
qed

lemma parse_row_dump:
  assumes "pyd_laws p" and "row_good p cs m"
  shows "parse_row p cs [(PStr ''backend'', PDict (dump_backend_config (backend m))),
       (PStr ''index'', PInt (index m)), (PStr ''created_at'', PStr (created_at m))]
     (dump_backend_config (backend m)) = Inr m"
proof -
  let ?meta = "[(PStr ''backend'', PDict (dump_backend_config (backend m))),
       (PStr ''index'', PInt (index m)), (PStr ''created_at'', PStr (created_at m))]"
  have "meta_model_validate p ?meta b = Some (m\<lparr>backend := b\<rparr>)" for b
    using assms by (simp add: meta_model_validate_def only_keys_def pyd_laws_def row_good_def iso_time_def)
  then show ?thesis
    using assms(2) by (auto simp: parse_row_def row_good_def stored_backend_def split: option.splits)
qed

section \<open>Files\<close>

definition rows_good :: "pyd \<Rightarrow> (string, cfg_class) dict \<Rightarrow> registry_file \<Rightarrow> bool" where
  "rows_good p cs f \<longleftrightarrow> dict_wf f \<and> list_all (row_good p cs) (dict_values f)"

lemma rows_good_set: "rows_good p cs f \<Longrightarrow> row_good p cs m \<Longrightarrow> rows_good p cs (dict_set n m f)"
  unfolding rows_good_def
  by (induction n m f rule: dict_set.induct) auto

lemma rows_good_pop: "rows_good p cs f \<Longrightarrow> rows_good p cs (dict_pop n f)"
  by (auto simp: rows_good_def list_all_iff set_dict_pop)

lemma rows_good_Nil [simp]: "rows_good p cs []"
  by (simp add: rows_good_def)

lemma rows_good_get: "rows_good p cs f \<Longrightarrow> dict_get f n = Some m \<Longrightarrow> row_good p cs m"
  by (auto simp: rows_good_def list_all_iff dest!: map_of_SomeD)

lemma read_row_good:
  "pyd_laws p \<Longrightarrow> classes_ok cs \<Longrightarrow> read_row p cs meta = Some (Inr m) \<Longrightarrow> row_good p cs m"
  by (auto simp: read_row_def split: pyval.splits option.splits intro: parse_row_good)

lemma read_rows_good:
  assumes "pyd_laws p" and "classes_ok cs"
  shows "read_rows p cs rows acc = Inr f \<Longrightarrow> rows_good p cs acc \<Longrightarrow> rows_good p cs f"
proof (induction rows arbitrary: acc)
  case (Cons r rows)
  then show ?case
    using assms by (cases r) (auto split: option.splits sum.splits intro: rows_good_set read_row_good)
qed simp

lemma read_rows_dump:
  assumes "pyd_laws p"
  shows "list_all (row_good p cs) (dict_values f) \<Longrightarrow> dict_wf (acc @ f) \<Longrightarrow>
    read_rows p cs (map (\<lambda>(name, m). (PStr name, dump_meta m)) f) acc = Inr (acc @ f)"
proof (induction f arbitrary: acc)
  case (Cons r f)
  obtain n m where r: "r = (n, m)" by (cases r)
  have "n \<notin> set (dict_keys acc)" using Cons.prems(2) by (auto simp: r dict_wf_def)
  then have "dict_set n m acc = acc @ [r]" by (simp add: values_dict_set_new r)
  then show ?case
    using Cons.IH [of "acc @ [r]"] Cons.prems parse_row_dump [OF assms, of cs m]
    by (simp add: r dump_meta_def read_row_def key_str_def)
qed simp

lemma check_v02_present:
  "registry_json w = Some (Json v) \<Longrightarrow> check_v02_registry_at_cwd w = (Inr (), w)"
  by (simp add: check_v02_registry_at_cwd_def split: option.split)

lemma read_written:
  assumes "pyd_laws p" and "rows_good p (classes w) f"
  shows "read_registry p (write_registry f w) = (Inr f, write_registry f w)"
proof -
  have "read_rows p (classes w) (map (\<lambda>(name, m). (PStr name, dump_meta m)) f) [] = Inr f"
    using read_rows_dump [OF assms(1), of "classes w" f "[]"] assms(2) by (simp add: rows_good_def)
  then show ?thesis
    by (simp add: read_registry_def check_v02_present write_registry_def registry_to_json_def
        version_ok_def get_str_def)
qed

lemma check_v02_frame:
  "check_v02_registry_at_cwd w = (r, w') \<Longrightarrow>
     classes w' = classes w \<and> registry_json w' = registry_json w \<and> registry_bak w' = registry_bak w
     \<and> yaml w' = yaml w"
  by (auto simp: check_v02_registry_at_cwd_def note_world_def split: if_splits option.splits doc.splits pyval.splits)

lemma backup_frame: "backup_and_warn r w = (f, w') \<Longrightarrow> classes w' = classes w \<and> yaml w' = yaml w \<and> f = []"
  by (auto simp: backup_and_warn_def note_world_def Let_def split: option.splits if_splits)

lemma read_registry_frame:
  "read_registry p w = (r, w') \<Longrightarrow> classes w' = classes w \<and> yaml w' = yaml w"
  by (auto simp: read_registry_def dest!: check_v02_frame backup_frame
      split: prod.splits sum.splits option.splits doc.splits if_splits)

lemma read_registry_good:
  assumes "pyd_laws p" and "classes_ok (classes w)" and "read_registry p w = (Inr f, w')"
  shows "rows_good p (classes w) f"
proof -
  obtain w1 where c: "check_v02_registry_at_cwd w = (Inr (), w1)"
    using assms(3) by (auto simp: read_registry_def split: prod.splits sum.splits)
  note fr = check_v02_frame [OF c]
  show ?thesis
    using assms(3) c fr read_rows_good [OF assms(1,2)]
    by (auto simp: read_registry_def dest!: backup_frame
        split: prod.splits sum.splits option.splits doc.splits if_splits)
qed

text \<open>
  C7: the registry file is lossless. Whatever a file holds, writing back what was read from
  it and reading again gives the same rows in the same order, opaque rows of unknown or
  rejected backends included, and the second read changes nothing on disk.
\<close>

theorem registry_write_read_lossless:
  assumes "pyd_laws p" and "classes_ok (classes w)" and "read_registry p w = (Inr f, w1)"
  shows "read_registry p (write_registry f w1) = (Inr f, write_registry f w1)"
  using read_registry_good [OF assms] read_registry_frame [OF assms(3)]
  by (intro read_written [OF assms(1)]) simp

definition example_raw :: "(pyval \<times> pyval) list" where
  "example_raw = [(PStr ''kind'', PStr ''cloud''), (PStr ''region'', PStr ''eu'')]"

definition example_world :: world where
  "example_world = \<lparr>registry_json = Some (Json (registry_to_json
       [(''alpha'', \<lparr>backend = Redroid ''/a'' [], index = 0, created_at = ''t0''\<rparr>),
        (''cloud'', \<lparr>backend = Unresolved ''cloud'' example_raw, index = 1, created_at = ''t1''\<rparr>)])),
     registry_bak = None, cwd_json = None, legacy_hint_printed = False, v02_hint_printed = False,
     classes = BACKEND_CONFIG_REGISTRY,
     yaml = \<lparr>read_text = (\<lambda>_. None), safe_load = (\<lambda>_. None), resolve_path = id,
       coerce = \<lparr>co_top = (\<lambda>_. None), co_android = (\<lambda>_. None), co_display = (\<lambda>_. None),
         co_resources = (\<lambda>_. None), co_frida = (\<lambda>_. None), co_module = (\<lambda>_. None),
         co_magisk = (\<lambda>_. None), co_port = (\<lambda>_. None), co_vm = (\<lambda>_. None)\<rparr>\<rparr>,
     loads = \<lparr>bump_warned = [], ports_warned = [], vendor_warned = [], printed = []\<rparr>\<rparr>"

lemma example_read:
  "fst (read_registry strict_pyd example_world) = Inr
     [(''alpha'', \<lparr>backend = Redroid ''/a'' [], index = 0, created_at = ''t0''\<rparr>),
      (''cloud'', \<lparr>backend = Unresolved ''cloud'' example_raw, index = 1, created_at = ''t1''\<rparr>)]"
  by code_simp

theorem registry_write_read_lossless_witness:
  "\<exists>f w1. read_registry strict_pyd example_world = (Inr f, w1) \<and> length f = 2
     \<and> read_registry strict_pyd (write_registry f w1) = (Inr f, write_registry f w1)"
proof -
  obtain f w1 where r: "read_registry strict_pyd example_world = (Inr f, w1)" "length f = 2"
    using example_read by (cases "read_registry strict_pyd example_world") auto
  have "classes_ok (classes example_world)"
    by (simp add: example_world_def in_tree_classes_ok)
  from registry_write_read_lossless [OF strict_pyd_laws this r(1)] r show ?thesis by blast
qed

end
