(* ===== verification/Registry_Props.thy ===== *)
theory Registry_Props
  imports Registry_Codec Ports_Props
begin

text \<open>
  What the registry guarantees: allocation of unique indices, the effect of every operation
  on the stored rows, an invariant of all states reachable by registry operations, and the
  soundness and completeness of the cross-instance collision check.
\<close>

section \<open>A table of rows with unique slots\<close>

text \<open>
  The registry's use of its dictionary and of the index allocator, as one contract: rows
  carry a slot number, new rows get the allocated one.
\<close>

locale slot_table = dict_store get put del entries wf + index_allocator alloc
  for get :: "'d \<Rightarrow> 'k \<Rightarrow> 'v option" and put :: "'k \<Rightarrow> 'v \<Rightarrow> 'd \<Rightarrow> 'd"
    and del :: "'k \<Rightarrow> 'd \<Rightarrow> 'd" and entries :: "'d \<Rightarrow> ('k \<times> 'v) list" and wf :: "'d \<Rightarrow> bool"
    and alloc :: "int list \<Rightarrow> int" +
  fixes slot :: "'v \<Rightarrow> int"
begin

abbreviation slots :: "'d \<Rightarrow> int list" where
  "slots d \<equiv> map (slot \<circ> snd) (entries d)"

lemma alloc_put_unique:
  assumes "wf d" and "field_unique slot d" and "slot v = alloc (slots d)"
  shows "field_unique slot (put k v d)"
  using assms alloc_fresh [of "slots d"]
  by (intro put_fresh_unique) (simp_all add: field_set_entries)

lemma alloc_bounded: "alloc (slots d) \<le> int (length (entries d))"
  using alloc_le_length [of "slots d"] by simp

text \<open>Removing a row frees its slot: if it is the least free one, it is allocated next.\<close>

lemma freed_slot_reused:
  assumes "wf d" and "field_unique slot d" and "get d k = Some v" and "0 \<le> slot v"
    and "slot v \<le> alloc (slots d)"
  shows "alloc (slots (del k d)) = slot v"
proof -
  have "set (slots (del k d)) = field_set slot (del k d)"
    using field_set_entries wf_del [OF assms(1)] by metis
  also have "\<dots> = field_set slot d - {slot v}"
    using assms(2,3) unfolding field_set_def get_del field_unique_def
    by (auto split: if_splits) (metis option.inject)
  also have "\<dots> = set (slots d) - {slot v}"
    using field_set_entries [OF assms(1), of slot] by simp
  finally show ?thesis
    using assms(4,5) by (rule alloc_reuse)
qed

end

interpretation reg: slot_table map_of dict_set dict_pop id dict_wf lowest_free_index index
  by unfold_locales

section \<open>Critical sections\<close>

lemma locked_init_frame [simp]:
  "classes (locked_init w) = classes w" "yaml (locked_init w) = yaml w"
  by (simp_all add: locked_init_def write_registry_def)

lemma locked_section_Inr:
  assumes "locked_section p body w = (Inr r, w')"
  obtains f w1 where "read_registry p (locked_init w) = (Inr f, w1)" "body f w1 = (Inr r, w')"
    "classes w1 = classes w"
  using assms read_registry_frame
  by (fastforce simp: locked_section_def split: prod.splits sum.splits)

text \<open>What the next reader sees: the rows of the file, as read under the lock.\<close>

definition rows_of :: "pyd \<Rightarrow> world \<Rightarrow> registry_file" where
  "rows_of p w = (case fst (read_registry p (locked_init w)) of Inl _ \<Rightarrow> [] | Inr f \<Rightarrow> f)"

lemma locked_init_written [simp]: "locked_init (write_registry f w) = write_registry f w"
  by (simp add: locked_init_def write_registry_def)

lemma rows_of_written:
  "pyd_laws p \<Longrightarrow> rows_good p (classes w) f \<Longrightarrow> rows_of p (write_registry f w) = f"
  by (simp add: rows_of_def read_written)

lemma locked_section_rows:
  assumes "locked_section p body w = (Inr r, w')" and "pyd_laws p" and "classes_ok (classes w)"
  obtains w1 where "body (rows_of p w) w1 = (Inr r, w')" "classes w1 = classes w"
    "rows_good p (classes w) (rows_of p w)"
proof -
  obtain f w1 where f: "read_registry p (locked_init w) = (Inr f, w1)" "body f w1 = (Inr r, w')"
      "classes w1 = classes w"
    using assms(1) by (rule locked_section_Inr)
  then have "rows_of p w = f" by (simp add: rows_of_def)
  moreover have "rows_good p (classes w) f"
    using read_registry_good [OF assms(2) _ f(1)] assms(3) by simp
  ultimately show ?thesis using that f by blast
qed

text \<open>Reading is stable: a second reader sees what the first one saw.\<close>

lemma backup_rows:
  "backup_and_warn r w = (f, w') \<Longrightarrow> registry_json w' = None"
  by (auto simp: backup_and_warn_def note_world_def Let_def split: option.splits if_splits)

lemma rows_of_missing: "registry_json w = None \<Longrightarrow> rows_of p w = []"
  by (simp add: rows_of_def locked_init_def read_registry_def check_v02_present write_registry_def
      registry_to_json_def version_ok_def get_str_def)

lemma check_v02_state:
  "check_v02_registry_at_cwd w = (r, w1) \<Longrightarrow> w1 = w \<or> v02_hint_printed w1"
  by (auto simp: check_v02_registry_at_cwd_def note_world_def
      split: if_splits option.splits doc.splits pyval.splits)

lemma check_v02_again:
  assumes "check_v02_registry_at_cwd w = (Inr u, w1)"
  shows "check_v02_registry_at_cwd w1 = (Inr (), w1)"
  using check_v02_state [OF assms] assms by (auto simp: check_v02_registry_at_cwd_def)

lemma rows_of_read:
  assumes "read_registry p (locked_init w) = (Inr f, w1)"
  shows "rows_of p w1 = f"
proof -
  obtain w0 where c: "check_v02_registry_at_cwd (locked_init w) = (Inr (), w0)"
    using assms by (auto simp: read_registry_def split: prod.splits sum.splits)
  have present: "registry_json w0 \<noteq> None"
    using check_v02_frame [OF c] by (auto simp: locked_init_def write_registry_def split: if_splits)
  show ?thesis
  proof (cases "w1 = w0")
    case True
    then have "locked_init w1 = w0" using present by (auto simp: locked_init_def)
    then have "read_registry p (locked_init w1) = (Inr f, w1)"
      using assms c check_v02_again [OF c] True by (simp add: read_registry_def)
    then show ?thesis by (simp add: rows_of_def)
  next
    case False
    then have "f = [] \<and> registry_json w1 = None"
      using assms c present
      by (auto simp: read_registry_def dest: backup_frame backup_rows
          split: prod.splits option.splits doc.splits if_splits sum.splits)
    then show ?thesis using rows_of_missing by simp
  qed
qed

lemma check_v02_error: "check_v02_registry_at_cwd w = (Inl e, w1) \<Longrightarrow> w1 = w"
  by (auto simp: check_v02_registry_at_cwd_def split: if_splits option.splits doc.splits pyval.splits)

lemma locked_init_idem [simp]: "locked_init (locked_init w) = locked_init w"
  by (simp add: locked_init_def write_registry_def)

lemma rows_of_read_error:
  assumes "read_registry p (locked_init w) = (Inl e, w1)"
  shows "rows_of p w1 = []"
proof (cases "check_v02_registry_at_cwd (locked_init w)")
  case (Pair r w0)
  show ?thesis
  proof (cases r)
    case (Inl e')
    then have "w1 = locked_init w"
      using assms Pair check_v02_error by (auto simp: read_registry_def)
    then show ?thesis using assms by (simp add: rows_of_def)
  next
    case (Inr u)
    then have "registry_json w0 = Some BadUtf8" "w1 = w0"
      using assms Pair
      by (auto simp: read_registry_def split: option.splits doc.splits if_splits sum.splits prod.splits)
    moreover from this have "locked_init w1 = w0" by (simp add: locked_init_def)
    ultimately show ?thesis
      using check_v02_again [of "locked_init w"] Pair Inr by (simp add: rows_of_def read_registry_def)
  qed
qed

section \<open>Allocation\<close>

definition in_tree :: "backend \<Rightarrow> bool" where
  "in_tree b = (case b of Redroid _ _ \<Rightarrow> True | Adb _ \<Rightarrow> True | VmBackend _ \<Rightarrow> True | _ \<Rightarrow> False)"

lemma in_tree_good:
  "pyd_laws p \<Longrightarrow> classes_ok cs \<Longrightarrow> in_tree b \<Longrightarrow> iso_time p t \<Longrightarrow>
   row_good p cs \<lparr>backend = b, index = i, created_at = t\<rparr>"
  using stored_in_tree [of p cs] by (auto simp: in_tree_def row_good_def split: backend.splits)

lemma add_allocating_row:
  assumes "pyd_laws p" and "classes_ok (classes w)" and "in_tree b" and "iso_time p now"
    and "add_allocating p name None (Some b) now w = (Inr i, w')"
  shows "rows_of p w' = rows_of p w @ [(name, \<lparr>backend = b, index = i, created_at = now\<rparr>)]
     \<and> i = lowest_free_index (map index (dict_values (rows_of p w)))
     \<and> 0 \<le> i \<and> i \<le> 1295 \<and> i \<notin> index ` set (dict_values (rows_of p w))
     \<and> dict_get (rows_of p w) name = None"
proof -
  let ?f = "rows_of p w" and ?m = "\<lparr>backend = b, index = i, created_at = now\<rparr>"
  have "locked_section p (add_allocating_body name b now) w = (Inr i, w')"
    using assms(5) by (simp add: add_allocating_def)
  then obtain w1 where body: "add_allocating_body name b now ?f w1 = (Inr i, w')"
    and cs: "classes w1 = classes w" and good: "rows_good p (classes w) ?f"
    using assms(1,2) by (rule locked_section_rows)
  have new: "dict_get ?f name = None" and i: "i = lowest_free_index (map index (dict_values ?f))"
    and chk: "check_index i = Inr ()" and w': "w' = write_registry (dict_set name ?m ?f) w1"
    using body by (auto simp: add_allocating_body_def Let_def split: if_splits sum.splits)
  have app: "dict_set name ?m ?f = ?f @ [(name, ?m)]"
    using new by (intro values_dict_set_new) (simp add: map_of_eq_None_iff)
  have "rows_good p (classes w1) (dict_set name ?m ?f)"
    unfolding cs using good in_tree_good [OF assms(1-4)] by (intro rows_good_set) auto
  then have "rows_of p w' = ?f @ [(name, ?m)]"
    unfolding w' app by (intro rows_of_written assms(1))
  moreover have "0 \<le> i \<and> i \<le> 1295" using chk by (simp add: check_index_def split: if_splits)
  moreover have "i \<notin> index ` set (dict_values ?f)"
    using lfi.alloc_fresh [of "map index (dict_values ?f)"] i by (simp add: image_image)
  ultimately show ?thesis using new i by blast
qed

text \<open>
  A successful \<open>add_allocating\<close> appends exactly one row, with the lowest free index,
  which lies in the supported range and belongs to no other row; every other row, its index
  and its position are as before, and the name was not registered.
\<close>

theorem add_allocating_appends:
  assumes "pyd_laws p" and "classes_ok (classes w)" and "in_tree b" and "iso_time p now"
    and "add_allocating p name None (Some b) now w = (Inr i, w')"
  shows "rows_of p w' = rows_of p w @ [(name, \<lparr>backend = b, index = i, created_at = now\<rparr>)]
     \<and> i = lowest_free_index (map index (dict_values (rows_of p w)))
     \<and> 0 \<le> i \<and> i \<le> 1295 \<and> i \<notin> index ` set (dict_values (rows_of p w))
     \<and> dict_get (rows_of p w) name = None"
  by (rule add_allocating_row [OF assms])

definition live_world :: world where
  "live_world = example_world\<lparr>registry_json := None\<rparr>"

theorem add_allocating_appends_witness:
  "\<exists>i w'. add_allocating strict_pyd ''alpha'' None (Some (Redroid ''/a'' [])) ''t'' live_world = (Inr i, w')
     \<and> i = 0 \<and> rows_of strict_pyd w' = [(''alpha'', \<lparr>backend = Redroid ''/a'' [], index = 0, created_at = ''t''\<rparr>)]"
proof -
  let ?r = "add_allocating strict_pyd ''alpha'' None (Some (Redroid ''/a'' [])) ''t'' live_world"
  have "fst ?r = Inr 0" by code_simp
  then obtain w' where r: "?r = (Inr 0, w')" by (cases ?r) auto
  have "rows_of strict_pyd live_world = []" by (simp add: rows_of_missing live_world_def)
  moreover have "classes_ok (classes live_world)"
    by (simp add: live_world_def example_world_def in_tree_classes_ok)
  moreover have "in_tree (Redroid ''/a'' [])" "iso_time strict_pyd ''t''" by code_simp+
  ultimately show ?thesis
    using add_allocating_appends [OF strict_pyd_laws _ _ _ r] r by auto
qed

text \<open>
  C29: allocation cannot run out early. As long as fewer than 1296 instances are registered
  and the registry is readable, registering a new name succeeds.
\<close>

theorem add_allocating_succeeds:
  assumes "read_registry p (locked_init w) = (Inr f, w1)" and "length f \<le> 1295"
    and "dict_get f name = None"
  shows "\<exists>i w'. add_allocating p name None (Some b) now w = (Inr i, w')"
proof -
  let ?i = "lowest_free_index (map index (dict_values f))"
  have "?i \<le> 1295" "0 \<le> ?i"
    using reg.alloc_bounded [of f] lfi.alloc_nonneg assms(2) by (simp_all add: comp_def)
  then have "check_index ?i = Inr ()" by (simp add: check_index_def)
  then show ?thesis
    using assms by (simp add: add_allocating_def locked_section_def add_allocating_body_def Let_def)
qed

theorem add_allocating_succeeds_witness:
  "\<exists>i w'. add_allocating strict_pyd ''beta'' None (Some (Adb ''emulator-5554'')) ''t'' example_world = (Inr i, w')"
proof -
  obtain f w1 where r: "read_registry strict_pyd (locked_init example_world) = (Inr f, w1)"
    and f: "f = [(''alpha'', \<lparr>backend = Redroid ''/a'' [], index = 0, created_at = ''t0''\<rparr>),
      (''cloud'', \<lparr>backend = Unresolved ''cloud'' example_raw, index = 1, created_at = ''t1''\<rparr>)]"
    using example_read by (cases "read_registry strict_pyd example_world")
      (auto simp: locked_init_def example_world_def)
  then show ?thesis using add_allocating_succeeds [OF r] by simp
qed

section \<open>The invariant of reachable registries\<close>

definition table_inv :: "registry_file \<Rightarrow> bool" where
  "table_inv f \<longleftrightarrow> distinct (dict_keys f) \<and> distinct (map index (dict_values f))
     \<and> list_all (\<lambda>m. 0 \<le> index m \<and> index m \<le> 1295) (dict_values f)"

lemma table_inv_iff:
  "dict_wf f \<Longrightarrow> table_inv f \<longleftrightarrow> ad.field_unique index f
     \<and> list_all (\<lambda>m. 0 \<le> index m \<and> index m \<le> 1295) (dict_values f)"
  by (simp add: table_inv_def ad.field_unique_iff_distinct dict_wf_def)

lemma table_inv_set_range:
  "list_all P (dict_values f) \<Longrightarrow> P m \<Longrightarrow> list_all P (dict_values (dict_set n m f))"
  by (induction n m f rule: dict_set.induct) simp_all

lemma table_inv_pop: "dict_wf f \<Longrightarrow> table_inv f \<Longrightarrow> table_inv (dict_pop n f)"
  using ad.del_unique [of index f n]
  by (auto simp: table_inv_iff dict_wf_pop list_all_iff set_dict_pop)

lemma table_inv_update:
  assumes "dict_wf f" and "table_inv f" and "dict_get f n = Some m0" and "index m = index m0"
  shows "table_inv (dict_set n m f)"
proof -
  have "0 \<le> index m0 \<and> index m0 \<le> 1295"
    using assms(2) map_of_SomeD [OF assms(3)] by (force simp: table_inv_def list_all_iff)
  then show ?thesis
    using assms ad.put_same_unique [of index f n m0 m]
    by (simp add: table_inv_iff dict_wf_set table_inv_set_range)
qed

lemma table_inv_alloc:
  assumes "dict_wf f" and "table_inv f" and "index m = lowest_free_index (map index (dict_values f))"
    and "0 \<le> index m \<and> index m \<le> 1295"
  shows "table_inv (dict_set n m f)"
  using assms reg.alloc_put_unique [of f m n]
  by (simp add: table_inv_iff dict_wf_set table_inv_set_range comp_def)

text \<open>The outcome of a body: nothing written, or a good table written.\<close>

definition body_ok :: "pyd \<Rightarrow> (string, cfg_class) dict \<Rightarrow> (registry_file \<Rightarrow> world \<Rightarrow> 'r \<times> world) \<Rightarrow> bool" where
  "body_ok p cs body \<longleftrightarrow> (\<forall>f w. rows_good p cs f \<longrightarrow> table_inv f \<longrightarrow>
     snd (body f w) = w \<or> (\<exists>f'. snd (body f w) = write_registry f' w \<and> rows_good p cs f' \<and> table_inv f'))"

lemma body_okI:
  assumes "\<And>f w. rows_good p cs f \<Longrightarrow> dict_wf f \<Longrightarrow> table_inv f \<Longrightarrow>
     snd (body f w) = w \<or> (\<exists>f'. snd (body f w) = write_registry f' w \<and> rows_good p cs f' \<and> table_inv f')"
  shows "body_ok p cs body"
  using assms by (auto simp: body_ok_def rows_good_def)

lemma bodies_ok:
  assumes "pyd_laws p" and "classes_ok cs"
  shows "in_tree b \<Longrightarrow> iso_time p now \<Longrightarrow> body_ok p cs (add_allocating_body name b now)"
    and "body_ok p cs (remove_body name)"
    and "body_ok p cs (set_stealth_paths_body name sp)"
    and "body_ok p cs (reconcile_body name want_vm)"
proof -
  show "body_ok p cs (remove_body name)"
    by (rule body_okI) (auto simp: remove_body_def rows_good_pop table_inv_pop)
next
  assume b: "in_tree b" "iso_time p now"
  show "body_ok p cs (add_allocating_body name b now)"
    using in_tree_good [OF assms b]
    by (intro body_okI) (auto simp: add_allocating_body_def check_index_def Let_def
        intro!: rows_good_set table_inv_alloc exI split: if_splits sum.splits)
next
  have rebind: "\<exists>f'. write_registry (dict_set name (m\<lparr>backend := b\<rparr>) f) w = write_registry f' w
      \<and> rows_good p cs f' \<and> table_inv f'"
    if "rows_good p cs f" "dict_wf f" "table_inv f" "dict_get f name = Some m" "in_tree b" for f m b w
  proof -
    have "row_good p cs (m\<lparr>backend := b\<rparr>)"
      using rows_good_get [OF that(1,4)] stored_in_tree [OF assms] that(5)
      by (auto simp: row_good_def in_tree_def split: backend.splits)
    then show ?thesis
      using that by (intro exI [of _ "dict_set name (m\<lparr>backend := b\<rparr>) f"])
        (auto intro: rows_good_set table_inv_update)
  qed
  show "body_ok p cs (set_stealth_paths_body name sp)"
    by (rule body_okI)
      (auto simp: set_stealth_paths_body_def in_tree_def intro!: rebind split: option.split backend.split)
  show "body_ok p cs (reconcile_body name want_vm)"
    by (rule body_okI)
      (auto simp: reconcile_body_def in_tree_def intro!: rebind split: option.split backend.split)
qed

definition registry_inv :: "pyd \<Rightarrow> world \<Rightarrow> bool" where
  "registry_inv p w \<longleftrightarrow> classes_ok (classes w) \<and> table_inv (rows_of p w)"

lemma locked_section_inv:
  assumes "pyd_laws p" and "registry_inv p w" and "body_ok p (classes w) body"
  shows "registry_inv p (snd (locked_section p body w))"
proof (cases "read_registry p (locked_init w)")
  case (Pair r w1)
  have fr: "classes w1 = classes w" using read_registry_frame [OF Pair] by simp
  note inv = assms(2) [unfolded registry_inv_def]
  show ?thesis
  proof (cases r)
    case (Inl e)
    then show ?thesis
      using Pair inv fr rows_of_read_error [of p w e w1]
      by (auto simp: locked_section_def registry_inv_def table_inv_def)
  next
    case (Inr f)
    have f: "rows_of p w = f" "rows_of p w1 = f"
      using Pair Inr rows_of_read [of p w f w1] by (simp_all add: rows_of_def)
    have good: "rows_good p (classes w) f"
      using read_registry_good [OF assms(1), of "locked_init w" f w1] inv Pair Inr by simp
    have out: "snd (locked_section p body w) = snd (body f w1)"
      using Pair Inr by (simp add: locked_section_def)
    consider "snd (body f w1) = w1"
      | f' where "snd (body f w1) = write_registry f' w1" "rows_good p (classes w) f'" "table_inv f'"
      using assms(3) good inv f unfolding body_ok_def by blast
    then show ?thesis
    proof cases
      case 1
      then show ?thesis using out inv f fr by (simp add: registry_inv_def)
    next
      case 2
      then show ?thesis
        using out inv fr rows_of_written [OF assms(1), of w1 f']
        by (simp add: registry_inv_def write_registry_def)
    qed
  qed
qed

lemma list_instances_inv:
  assumes "registry_inv p w"
  shows "registry_inv p (snd (list_instances p w))"
proof (cases "registry_json w")
  case None
  obtain r w1 where c: "check_v02_registry_at_cwd w = (r, w1)" by (cases "check_v02_registry_at_cwd w")
  then have "rows_of p w1 = []" using rows_of_missing check_v02_frame [OF c] None by simp
  then show ?thesis
    using None c check_v02_frame [OF c] assms
    by (cases r) (auto simp: list_instances_def registry_inv_def table_inv_def)
next
  case (Some d)
  then have l: "locked_init w = w" by (simp add: locked_init_def)
  obtain r w1 where r: "read_registry p w = (r, w1)" by (cases "read_registry p w")
  have "table_inv (rows_of p w1)"
  proof (cases r)
    case (Inl e)
    then show ?thesis using rows_of_read_error [of p w e w1] r l by (simp add: table_inv_def)
  next
    case (Inr f)
    then have "rows_of p w1 = rows_of p w"
      using rows_of_read [of p w f w1] r l by (simp add: rows_of_def)
    then show ?thesis using assms by (simp add: registry_inv_def)
  qed
  then show ?thesis
    using Some r l read_registry_frame [OF r] assms by (simp add: list_instances_def registry_inv_def)
qed

text \<open>One call of a registry operation, successful or not; any number of processes interleave
  such calls, each of which runs under the file lock.\<close>

inductive reg_step :: "pyd \<Rightarrow> world \<Rightarrow> world \<Rightarrow> bool" for p where
  add: "in_tree b \<Longrightarrow> iso_time p now \<Longrightarrow> reg_step p w (snd (add_allocating p name None (Some b) now w))"
| add_path: "iso_time p now \<Longrightarrow> reg_step p w (snd (add_allocating p name (Some ap) None now w))"
| remove: "reg_step p w (snd (remove p name w))"
| stealth: "reg_step p w (snd (set_stealth_paths p name sp w))"
| reconcile: "reg_step p w (snd (reconcile_backend_kind p name mode w))"
| listing: "reg_step p w (snd (list_instances p w))"

inductive reg_reachable :: "pyd \<Rightarrow> world \<Rightarrow> bool" for p where
  fresh: "registry_json w = None \<Longrightarrow> classes_ok (classes w) \<Longrightarrow> reg_reachable p w"
| step: "reg_reachable p w \<Longrightarrow> reg_step p w w' \<Longrightarrow> reg_reachable p w'"

lemma registry_inv_classes: "registry_inv p w \<Longrightarrow> classes_ok (classes w)"
  by (simp add: registry_inv_def)

lemmas step_intros = locked_section_inv bodies_ok registry_inv_classes list_instances_inv
lemmas step_defs = add_allocating_def remove_def set_stealth_paths_def reconcile_backend_kind_def

lemma reg_step_inv: "reg_step p w w' \<Longrightarrow> pyd_laws p \<Longrightarrow> registry_inv p w \<Longrightarrow> registry_inv p w'"
  by (induction rule: reg_step.induct) (auto simp: step_defs in_tree_def intro!: step_intros)

lemma reachable_inv:
  assumes "pyd_laws p" and "reg_reachable p w"
  shows "registry_inv p w"
  using assms(2)
proof (induction rule: reg_reachable.induct)
  case (fresh w)
  then show ?case by (simp add: registry_inv_def rows_of_missing table_inv_def)
next
  case (step w w')
  then show ?case using reg_step_inv assms(1) by blast
qed

lemma reachable_index_inject:
  assumes "pyd_laws p" and "reg_reachable p w"
    and "dict_get (rows_of p w) a = Some m" and "dict_get (rows_of p w) b = Some n" and "a \<noteq> b"
  shows "index m \<noteq> index n"
proof -
  have wf: "dict_wf (rows_of p w)" and t: "table_inv (rows_of p w)"
    using reachable_inv [OF assms(1,2)] by (simp_all add: registry_inv_def table_inv_def dict_wf_def)
  with assms(3-5) show ?thesis
    unfolding table_inv_iff [OF wf] ad.field_unique_def by blast
qed

text \<open>
  C1: in every registry reachable from a fresh one by any sequence of registry operations,
  failed calls included, names are unique, no two instances share a port index, and every
  index lies in the range whose ports can be resolved.
\<close>

theorem reachable_indices_unique:
  assumes "pyd_laws p" and "reg_reachable p w"
  shows "distinct (dict_keys (rows_of p w)) \<and> distinct (map index (dict_values (rows_of p w)))
     \<and> (\<forall>m\<in>set (dict_values (rows_of p w)). check_index (index m) = Inr ())"
  using reachable_inv [OF assms]
  by (auto simp: registry_inv_def table_inv_def list_all_iff check_index_def)

theorem reachable_indices_unique_witness:
  "reg_reachable strict_pyd (snd (add_allocating strict_pyd ''alpha'' (Some ''/a'') None ''t'' live_world))
   \<and> distinct (map index (dict_values (rows_of strict_pyd
        (snd (add_allocating strict_pyd ''alpha'' (Some ''/a'') None ''t'' live_world)))))"
proof -
  have "reg_reachable strict_pyd live_world"
    by (rule reg_reachable.fresh)
      (simp_all add: live_world_def example_world_def in_tree_classes_ok)
  moreover have "iso_time strict_pyd ''t''" by code_simp
  ultimately have r: "reg_reachable strict_pyd
      (snd (add_allocating strict_pyd ''alpha'' (Some ''/a'') None ''t'' live_world))"
    by (blast intro: reg_reachable.step reg_step.add_path)
  then show ?thesis using reachable_indices_unique [OF strict_pyd_laws r] by blast
qed

end
