(* ===== verification/Registry_Ops.thy ===== *)
theory Registry_Ops
  imports Registry_Props Ports_Props
begin

text \<open>
  The effect of each registry operation on the stored rows, failures included; the
  collision check; and where the reader and the port scan fall short of their own
  documentation.
\<close>

section \<open>Failures and removal\<close>

lemma locked_section_untouched:
  assumes "locked_section p body w = (Inl e, w')" and "\<And>f w1 e. fst (body f w1) = Inl e \<Longrightarrow> snd (body f w1) = w1"
  shows "rows_of p w' = rows_of p w"
proof (cases "read_registry p (locked_init w)")
  case (Pair r w1)
  show ?thesis
  proof (cases r)
    case (Inl e')
    with Pair assms(1) have "w' = w1" by (simp add: locked_section_def)
    then show ?thesis
      using rows_of_read_error [of p w e' w1] Pair Inl by (simp add: rows_of_def [of p w])
  next
    case (Inr f)
    with Pair assms(1) have "body f w1 = (Inl e, w')" by (simp add: locked_section_def)
    with assms(2) [of f w1 e] have "w' = w1" by simp
    then show ?thesis
      using rows_of_read [of p w f w1] Pair Inr by (simp add: rows_of_def [of p w])
  qed
qed

lemma body_failures:
  "fst (add_allocating_body name b now f w) = Inl e \<Longrightarrow> snd (add_allocating_body name b now f w) = w"
  "fst (set_stealth_paths_body name sp f w) = Inl e \<Longrightarrow> snd (set_stealth_paths_body name sp f w) = w"
  by (auto simp: add_allocating_body_def set_stealth_paths_body_def Let_def
      split: if_splits sum.splits option.splits backend.splits)

text \<open>
  A failed registration leaves the registry as it was: a taken name, an exhausted index
  range or a missing backend raises before anything is written, so the rows the next reader
  sees are the rows seen before.
\<close>

theorem add_allocating_failure_atomic:
  assumes "add_allocating p name ap b now w = (Inl e, w')"
  shows "rows_of p w' = rows_of p w"
proof (cases "b = None \<and> ap = None")
  case True
  with assms show ?thesis by (simp add: add_allocating_def)
next
  case False
  then obtain b' where "add_allocating p name ap b now w
      = locked_section p (add_allocating_body name b' now) w"
    by (cases b; cases ap) (auto simp: add_allocating_def)
  with assms have l: "locked_section p (add_allocating_body name b' now) w = (Inl e, w')" by simp
  show ?thesis by (rule locked_section_untouched [OF l]) (rule body_failures(1))
qed

theorem add_allocating_failure_atomic_witness:
  "\<exists>w'. add_allocating strict_pyd ''alpha'' (Some ''/b'') None ''t'' example_world
       = (Inl (AlreadyRegistered ''alpha''), w')
     \<and> rows_of strict_pyd w' = rows_of strict_pyd example_world"
proof -
  let ?r = "add_allocating strict_pyd ''alpha'' (Some ''/b'') None ''t'' example_world"
  have "fst ?r = Inl (AlreadyRegistered ''alpha'')" by code_simp
  then obtain w' where r: "?r = (Inl (AlreadyRegistered ''alpha''), w')" by (cases ?r) auto
  from add_allocating_failure_atomic [OF r] r show ?thesis by blast
qed

lemma remove_rows:
  assumes "pyd_laws p" and "classes_ok (classes w)" and "remove p name w = (Inr u, w')"
  shows "rows_of p w' = dict_pop name (rows_of p w)"
proof -
  obtain w1 where "remove_body name (rows_of p w) w1 = (Inr u, w')" "classes w1 = classes w"
      "rows_good p (classes w) (rows_of p w)"
    using assms(3) locked_section_rows [OF _ assms(1,2)] unfolding remove_def by metis
  then show ?thesis
    using rows_of_written [OF assms(1), of w1] rows_good_pop by (auto simp: remove_body_def)
qed

text \<open>
  Removing an instance deletes its row and nothing else, and frees its port index: when
  that index is below the next one to be allocated, the next registration gets it.
\<close>

theorem remove_frees_index:
  assumes "pyd_laws p" and "classes_ok (classes w)" and "table_inv (rows_of p w)"
    and "dict_get (rows_of p w) name = Some m" and "remove p name w = (Inr u, w')"
    and "index m \<le> lowest_free_index (map index (dict_values (rows_of p w)))"
  shows "dict_get (rows_of p w') name = None
     \<and> (\<forall>n. n \<noteq> name \<longrightarrow> dict_get (rows_of p w') n = dict_get (rows_of p w) n)
     \<and> lowest_free_index (map index (dict_values (rows_of p w'))) = index m"
proof -
  let ?f = "rows_of p w"
  have f': "rows_of p w' = dict_pop name ?f" by (rule remove_rows [OF assms(1,2,5)])
  have wf: "dict_wf ?f" using assms(3) by (simp add: table_inv_def dict_wf_def)
  have "0 \<le> index m"
    using assms(3) map_of_SomeD [OF assms(4)] by (force simp: table_inv_def list_all_iff)
  then have "lowest_free_index (map index (dict_values (dict_pop name ?f))) = index m"
    using reg.freed_slot_reused [OF wf _ assms(4)] assms(3,6) wf by (simp add: table_inv_iff comp_def)
  then show ?thesis by (simp add: f')
qed

theorem remove_frees_index_witness:
  "\<exists>w'. remove strict_pyd ''alpha'' example_world = (Inr (), w')
     \<and> lowest_free_index (map index (dict_values (rows_of strict_pyd w'))) = 0"
proof -
  let ?m = "\<lparr>backend = Redroid ''/a'' [], index = 0, created_at = ''t0''\<rparr>"
  have rows: "rows_of strict_pyd example_world = [(''alpha'', ?m),
      (''cloud'', \<lparr>backend = Unresolved ''cloud'' example_raw, index = 1, created_at = ''t1''\<rparr>)]"
    using example_read by (simp add: rows_of_def locked_init_def example_world_def)
  obtain w' where r: "remove strict_pyd ''alpha'' example_world = (Inr (), w')"
  proof (cases "remove strict_pyd ''alpha'' example_world")
    case (Pair a b)
    have "fst (remove strict_pyd ''alpha'' example_world) = Inr ()" by code_simp
    with Pair that show ?thesis by simp
  qed
  have c: "classes_ok (classes example_world)" by (simp add: example_world_def in_tree_classes_ok)
  have t: "table_inv (rows_of strict_pyd example_world)" by (simp add: rows table_inv_def)
  have g: "dict_get (rows_of strict_pyd example_world) ''alpha'' = Some ?m" by (simp add: rows)
  have "index ?m \<le> lowest_free_index (map index (dict_values (rows_of strict_pyd example_world)))"
    using lfi.alloc_nonneg by simp
  from remove_frees_index [OF strict_pyd_laws c t g r this] r show ?thesis by simp
qed

section \<open>Switching between the container and the micro-VM backend\<close>

text \<open>
  \<open>reconcile_backend_kind\<close> makes the registered kind match the configured mode. When it
  reports a change, the row is directory-backed, keeps its directory, index and creation
  time, has the kind asked for, and every other row is untouched; asking again with the same
  mode then reports no change.
\<close>

theorem reconcile_flips_kind:
  assumes "pyd_laws p" and "classes_ok (classes w)"
    and "reconcile_backend_kind p name mode w = (Inr True, w')"
  shows "\<exists>m m'. dict_get (rows_of p w) name = Some m \<and> dict_get (rows_of p w') name = Some m'
     \<and> dir_of (backend m) \<noteq> None \<and> dir_of (backend m') = dir_of (backend m)
     \<and> index m' = index m \<and> created_at m' = created_at m
     \<and> (mode = BinderVm \<longleftrightarrow> kind_of (backend m') = ''vm'') \<and> kind_of (backend m) \<noteq> kind_of (backend m')
     \<and> (\<forall>n. n \<noteq> name \<longrightarrow> dict_get (rows_of p w') n = dict_get (rows_of p w) n)
     \<and> fst (reconcile_backend_kind p name mode w') = Inr False"
proof -
  let ?f = "rows_of p w" and ?vm = "mode = BinderVm"
  obtain w1 where body: "reconcile_body name ?vm ?f w1 = (Inr True, w')"
    and cs: "classes w1 = classes w" and good: "rows_good p (classes w) ?f"
    using assms(3) locked_section_rows [OF _ assms(1,2)] unfolding reconcile_backend_kind_def by metis
  then obtain m ap b where m: "dict_get ?f name = Some m" "dir_of (backend m) = Some ap"
    and b: "b = (if ?vm then VmBackend ap else Redroid ap [])"
      "kind_of (backend m) = (if ?vm then ''redroid'' else ''vm'')"
    and w': "w' = write_registry (dict_set name (m\<lparr>backend := b\<rparr>) ?f) w1"
    by (auto simp: reconcile_body_def dir_of_def split: option.splits backend.splits if_splits)
  have "row_good p (classes w1) (m\<lparr>backend := b\<rparr>)"
    using rows_good_get [OF good m(1)] stored_in_tree [OF assms(1,2)] b(1)
    by (simp add: row_good_def cs)
  then have good': "rows_good p (classes w1) (dict_set name (m\<lparr>backend := b\<rparr>) ?f)"
    using good cs by (simp add: rows_good_set)
  then have rows': "rows_of p w' = dict_set name (m\<lparr>backend := b\<rparr>) ?f"
    unfolding w' by (rule rows_of_written [OF assms(1)])
  have "fst (reconcile_backend_kind p name mode w') = Inr False"
    using read_written [OF assms(1) good']
    by (simp add: reconcile_backend_kind_def locked_section_def w' reconcile_body_def b(1))
  then show ?thesis
    using m b by (simp add: rows' dir_of_def)
qed

theorem reconcile_flips_kind_witness:
  "\<exists>w'. reconcile_backend_kind strict_pyd ''alpha'' BinderVm example_world = (Inr True, w')
     \<and> fst (reconcile_backend_kind strict_pyd ''alpha'' BinderVm w') = Inr False"
proof -
  let ?r = "reconcile_backend_kind strict_pyd ''alpha'' BinderVm example_world"
  have "fst ?r = Inr True" by code_simp
  then obtain w' where r: "?r = (Inr True, w')" by (cases ?r) auto
  have "classes_ok (classes example_world)" by (simp add: example_world_def in_tree_classes_ok)
  from reconcile_flips_kind [OF strict_pyd_laws this r] r show ?thesis by blast
qed

section \<open>The collision check\<close>

lemma find_in_others_None: "find_in_others rp others = None \<longleftrightarrow> (\<forall>(n, ps)\<in>set others. rp_host rp \<notin> set ps)"
  by (induction rp others rule: find_in_others.induct) auto

lemma find_in_others_Some:
  "find_in_others rp others = Some (port, other, s) \<Longrightarrow>
   port = rp_host rp \<and> s = service_label (rp_service rp) \<and> (\<exists>ps. (other, ps) \<in> set others \<and> port \<in> set ps)"
  by (induction rp others rule: find_in_others.induct) (auto split: if_splits)

lemma find_port_collision_None:
  "find_port_collision new others = None \<longleftrightarrow> (\<forall>rp\<in>set new. \<forall>(n, ps)\<in>set others. rp_host rp \<notin> set ps)"
proof (induction new others rule: find_port_collision.induct)
  case (2 rp new others)
  then show ?case
    using find_in_others_None [of rp others] by (cases "find_in_others rp others") auto
qed simp

lemma find_port_collision_Some:
  "find_port_collision new others = Some (port, other, s) \<Longrightarrow>
   \<exists>rp\<in>set new. port = rp_host rp \<and> s = service_label (rp_service rp)
     \<and> (\<exists>ps. (other, ps) \<in> set others \<and> port \<in> set ps)"
  by (induction new others rule: find_port_collision.induct)
    (auto split: option.splits dest!: find_in_others_Some)

text \<open>
  The collision check is sound and complete. Once the siblings' ports are resolved
  under the lock, it passes exactly when no port of the new instance is among the ports of
  another registered instance (its own row is ignored), and otherwise names a colliding
  port, the instance that holds it and the service that asked for it.
\<close>

theorem assert_no_port_collision_correct:
  assumes "read_registry p (locked_init w) = (Inr f, w1)"
    and "resolved_host_ports_from f w1 = (Inr siblings, w2)"
  shows "(fst (assert_no_port_collision p name new w) = Inr () \<longleftrightarrow>
      (\<forall>rp\<in>set new. \<forall>(n, ps)\<in>set siblings. n \<noteq> name \<longrightarrow> rp_host rp \<notin> set ps))
    \<and> (\<forall>e. fst (assert_no_port_collision p name new w) = Inl e \<longrightarrow>
        (\<exists>rp n ps. rp \<in> set new \<and> (n, ps) \<in> set siblings \<and> n \<noteq> name \<and> rp_host rp \<in> set ps
           \<and> e = PortCollision (rp_host rp) n (service_label (rp_service rp))))"
proof -
  let ?c = "find_port_collision new (dict_pop name siblings)"
  have r: "fst (assert_no_port_collision p name new w) = (case ?c of None \<Rightarrow> Inr ()
      | Some (port, other, kind) \<Rightarrow> Inl (PortCollision port other kind))"
    using assms by (simp add: assert_no_port_collision_def locked_section_def split: option.split)
  have "?c = None \<longleftrightarrow> (\<forall>rp\<in>set new. \<forall>(n, ps)\<in>set siblings. n \<noteq> name \<longrightarrow> rp_host rp \<notin> set ps)"
    by (auto simp: find_port_collision_None set_dict_pop)
  moreover have "\<exists>rp n ps. rp \<in> set new \<and> (n, ps) \<in> set siblings \<and> n \<noteq> name \<and> rp_host rp \<in> set ps
      \<and> PortCollision port other kind = PortCollision (rp_host rp) n (service_label (rp_service rp))"
    if "?c = Some (port, other, kind)" for port other kind
    using find_port_collision_Some [OF that] by (auto simp: set_dict_pop)
  ultimately show ?thesis
    unfolding r by (cases ?c) (auto split del: if_split)
qed

definition adb_world :: world where
  "adb_world = example_world\<lparr>registry_json := Some (Json (registry_to_json
     [(''phone'', \<lparr>backend = Adb ''emulator-5554'', index = 0, created_at = ''t0''\<rparr>)]))\<rparr>"

theorem assert_no_port_collision_correct_witness:
  "fst (assert_no_port_collision strict_pyd ''alpha''
      [\<lparr>rp_service = None, rp_guest = 80, rp_host = 27042\<rparr>] adb_world) \<noteq> Inr ()"
proof -
  let ?f = "[(''phone'', \<lparr>backend = Adb ''emulator-5554'', index = 0, created_at = ''t0''\<rparr>)]"
  have "fst (read_registry strict_pyd (locked_init adb_world)) = Inr ?f" by code_simp
  then obtain w1 where r: "read_registry strict_pyd (locked_init adb_world) = (Inr ?f, w1)"
    by (cases "read_registry strict_pyd (locked_init adb_world)") auto
  have "stride_defaults 0 = Inr [5555, 27042, 27043]" by code_simp
  then have s: "resolved_host_ports_from ?f w1 = (Inr [(''phone'', [5555, 27042, 27043])], w1)"
    by (simp add: row_host_ports_def dir_of_def)
  show ?thesis
    using assert_no_port_collision_correct [OF r s, of "''alpha''"
        "[\<lparr>rp_service = None, rp_guest = 80, rp_host = 27042\<rparr>]"] by auto
qed

section \<open>What a read keeps\<close>

lemma read_rows_keeps:
  assumes "read_rows p cs rows acc = Inr f" and "n \<notin> key_str ` fst ` set rows"
  shows "dict_get f n = dict_get acc n"
  using assms
  by (induction rows arbitrary: acc) (auto split: option.splits sum.splits)

lemma read_rows_row:
  assumes "read_rows p cs rows acc = Inr f" and "distinct (map (key_str \<circ> fst) rows)"
    and "(k, meta) \<in> set rows" and "read_row p cs meta = Some r"
  shows "\<exists>m. r = Inr m \<and> dict_get f (key_str k) = Some m"
  using assms
proof (induction rows arbitrary: acc)
  case (Cons row rows)
  show ?case
  proof (cases "row = (k, meta)")
    case True
    with Cons.prems obtain m where m: "r = Inr m"
        "read_rows p cs rows (dict_set (key_str k) m acc) = Inr f"
      by (auto split: sum.splits)
    have "key_str k \<notin> key_str ` fst ` set rows"
      using Cons.prems(2) True by (auto simp: image_image)
    with read_rows_keeps [OF m(2)] m(1) show ?thesis by simp
  next
    case False
    with Cons.prems show ?thesis
      by (cases row) (auto split: option.splits sum.splits intro: Cons.IH)
  qed
qed simp

text \<open>
  A row of a current registry file is kept or the whole file is. Reading a version 3
  document gives, for every row whose backend is a dict, that row with its index, parsed or
  opaque with its raw payload; the only alternative is that some row has no usable envelope
  and the whole document has been moved to the backup.
\<close>

theorem read_keeps_or_backs_up:
  assumes "registry_json w = Some (Json raw)" and "version_ok raw"
    and "dict_get (as_dict raw) (PStr ''instances'') = Some (PDict rows)"
    and "distinct (map (key_str \<circ> fst) rows)"
    and "(k, PDict meta) \<in> set rows" and "dict_get meta (PStr ''backend'') = Some (PDict braw)"
    and "read_registry p w = (Inr f, w')"
  shows "f = [] \<and> registry_bak w' = Some (Json raw)
    \<or> (\<exists>m v. dict_get f (key_str k) = Some m \<and> w' = w
         \<and> dict_get meta (PStr ''index'') = Some v \<and> pyd_int p v = Some (index m)
         \<and> (parse_backend_config p (classes w) braw = Some (backend m)
            \<or> parse_backend_config p (classes w) braw = None \<and> backend m = Unresolved (kind_str braw) braw))"
proof (cases "read_rows p (classes w) rows []")
  case (Inl e)
  then show ?thesis
    using assms(1-3,7) check_v02_present [OF assms(1)]
    by (auto simp: read_registry_def backup_and_warn_def note_world_def Let_def split: if_splits)
next
  case (Inr g)
  with assms(1-3,7) check_v02_present [OF assms(1)] have fw: "f = g" "w' = w"
    by (auto simp: read_registry_def)
  have "read_row p (classes w) (PDict meta) = Some (parse_row p (classes w) meta braw)"
    using assms(6) by (simp add: read_row_def)
  then obtain m where m: "parse_row p (classes w) meta braw = Inr m" "dict_get g (key_str k) = Some m"
    using read_rows_row [OF Inr assms(4,5)] by blast
  obtain b where b: "meta_model_validate p meta b = Some m"
      "parse_backend_config p (classes w) braw = Some b
        \<or> parse_backend_config p (classes w) braw = None \<and> b = opaque_backend braw"
    using parse_row_Inr [OF m(1)] by blast
  note M = meta_model_validate_Some [OF b(1)]
  then obtain v where v: "dict_get meta (PStr ''index'') = Some v" "pyd_int p v = Some (index m)"
    by blast
  have "parse_backend_config p (classes w) braw = Some (backend m)
      \<or> parse_backend_config p (classes w) braw = None \<and> backend m = Unresolved (kind_str braw) braw"
    using M b(2) by (simp add: opaque_backend_def)
  with m(2) v fw show ?thesis by blast
qed

text \<open>A redroid row without its directory: known kind, rejected payload.\<close>

definition salvage_rows :: "(pyval \<times> pyval) list" where
  "salvage_rows = [(PStr ''alpha'', PDict [(PStr ''backend'', PDict [(PStr ''kind'', PStr ''redroid'')]),
     (PStr ''index'', PInt 4), (PStr ''created_at'', PStr ''t0'')])]"

definition salvage_world :: world where
  "salvage_world = example_world\<lparr>registry_json := Some (Json (PDict
     [(PStr ''version'', PInt 3), (PStr ''instances'', PDict salvage_rows)]))\<rparr>"

theorem read_keeps_or_backs_up_witness:
  "\<exists>f w' m. read_registry strict_pyd salvage_world = (Inr f, w') \<and> dict_get f ''alpha'' = Some m
     \<and> index m = 4 \<and> backend m = Unresolved ''redroid'' [(PStr ''kind'', PStr ''redroid'')]"
proof -
  let ?w = salvage_world
  let ?raw = "PDict [(PStr ''version'', PInt 3), (PStr ''instances'', PDict salvage_rows)]"
  let ?braw = "[(PStr ''kind'', PStr ''redroid'')]"
  let ?meta = "[(PStr ''backend'', PDict ?braw), (PStr ''index'', PInt 4), (PStr ''created_at'', PStr ''t0'')]"
  obtain f w' where r: "read_registry strict_pyd ?w = (Inr f, w')" and f: "f \<noteq> []"
  proof (cases "read_registry strict_pyd ?w")
    case (Pair a b)
    have "case fst (read_registry strict_pyd ?w) of Inr f \<Rightarrow> f \<noteq> [] | Inl _ \<Rightarrow> False" by code_simp
    with Pair that show ?thesis by (cases a) auto
  qed
  have j: "registry_json ?w = Some (Json ?raw)" by (simp add: salvage_world_def)
  have v: "version_ok ?raw" by code_simp
  have i: "dict_get (as_dict ?raw) (PStr ''instances'') = Some (PDict salvage_rows)" by simp
  have d: "distinct (map (key_str \<circ> fst) salvage_rows)" by (simp add: salvage_rows_def)
  have k: "(PStr ''alpha'', PDict ?meta) \<in> set salvage_rows" by (simp add: salvage_rows_def)
  have b: "dict_get ?meta (PStr ''backend'') = Some (PDict ?braw)" by simp
  have n: "parse_backend_config strict_pyd (classes ?w) ?braw = None" by code_simp
  have ks: "kind_str ?braw = ''redroid''" "key_str (PStr ''alpha'') = ''alpha''"
    by (simp_all add: kind_str_def key_str_def)
  show ?thesis
    using read_keeps_or_backs_up [OF j v i d k b r] f n r unfolding ks
    by (auto simp: strict_pyd_def)
qed

section \<open>Where the code and its documentation part\<close>

definition damaged_world :: world where
  "damaged_world = example_world\<lparr>registry_json := Some (Json (PDict
     [(PStr ''version'', PInt 3), (PStr ''instances'', PDict
       [(PStr ''phone'', PDict [(PStr ''backend'', PStr ''adb''), (PStr ''index'', PInt 0),
          (PStr ''created_at'', PStr ''t0'')])])]))\<rparr>"

text \<open>
  A row whose backend is no dict is skipped by the reader without a backup, against the
  promise that no row is silently dropped: the next registration is handed its index and
  the rewritten file no longer has the row.
\<close>

theorem malformed_row_dropped:
  "fst (read_registry strict_pyd damaged_world) = Inr []
   \<and> registry_bak (snd (read_registry strict_pyd damaged_world)) = None
   \<and> fst (add_allocating strict_pyd ''beta'' None (Some (Adb ''s'')) ''t1'' damaged_world) = Inr 0
   \<and> map fst (rows_of strict_pyd (snd (add_allocating strict_pyd ''beta'' None (Some (Adb ''s'')) ''t1''
        damaged_world))) = [''beta'']"
  by (intro conjI; code_simp)

text \<open>
  A row whose index is outside the range makes the whole port scan fail, although the scan
  is meant to survive one poisoned row: the fallback itself derives ports from the index.
\<close>

lemma stride_defaults_out_of_range:
  "i > MAX_PORT_INDEX \<or> i < 0 \<Longrightarrow> \<exists>e. stride_defaults i = Inl (PortErr e)"
  by (auto simp: stride_defaults_def ports_for_index_def check_index_def and_then_def require_def)

theorem poisoned_row_fails_scan:
  assumes "dir_of (backend m) = Some ap" and "index m < 0 \<or> index m > MAX_PORT_INDEX"
    and "load_yaml (yaml w) (instance_yaml ap) (loads w) = (Inr cfg, st)"
  shows "\<exists>e. fst (resolved_host_ports_from ((name, m) # rows) w) = Inl (PortErr e)"
proof -
  obtain e where "stride_defaults (index m) = Inl (PortErr e)"
    using stride_defaults_out_of_range [of "index m"] assms(2) by blast
  moreover obtain e' where "resolve_ports (index m) (ports cfg) True = Inl e'"
    using resolve_ports_InrD(1,2) [of "index m" "ports cfg" True] assms(2)
    by (cases "resolve_ports (index m) (ports cfg) True") force+
  ultimately show ?thesis using assms(1,3) by (simp add: row_host_ports_def)
qed

end
