(* ===== verification/Pystrings.thy ===== *)
theory Pystrings
  imports Pyvalues "HOL-Library.Sublist"
begin

text \<open>
  Python's whitespace handling, line splitting, substring test and integer parsing, as the
  host probes and the process manager use them on text read from files. A \<open>char\<close> stands for
  a code point below 256.
\<close>

section \<open>Whitespace\<close>

definition is_space :: "char \<Rightarrow> bool" where
  "is_space c \<longleftrightarrow> (let n = of_char c :: int in 9 \<le> n \<and> n \<le> 13 \<or> 28 \<le> n \<and> n \<le> 32 \<or> n = 133 \<or> n = 160)"

definition strip_by :: "(char \<Rightarrow> bool) \<Rightarrow> string \<Rightarrow> string" where
  "strip_by p s = rev (dropWhile p (rev (dropWhile p s)))"

definition strip :: "string \<Rightarrow> string" where
  "strip s = strip_by is_space s"

definition rstrip :: "string \<Rightarrow> string" where
  "rstrip s = rev (dropWhile is_space (rev s))"

lemma strip_by_id: "s = [] \<or> (\<not> p (hd s) \<and> \<not> p (last s)) \<Longrightarrow> strip_by p s = s"
proof (cases s)
  case (Cons a t)
  assume "s = [] \<or> (\<not> p (hd s) \<and> \<not> p (last s))"
  with Cons have "\<not> p a" "\<not> p (last s)" by auto
  then have l: "\<not> p (hd (rev s))" by (simp only: hd_rev not_False_eq_True)
  have "dropWhile p s = s" using \<open>\<not> p a\<close> by (simp add: Cons)
  moreover have "dropWhile p (rev s) = rev s" using l by (cases "rev s") auto
  ultimately show ?thesis by (simp add: strip_by_def)
qed (simp add: strip_by_def)

text \<open>\<open>s.split()\<close>: runs of whitespace separate words, no empty words.\<close>

fun split_pred :: "(char \<Rightarrow> bool) \<Rightarrow> string \<Rightarrow> string list" where
  "split_pred p [] = [[]]"
| "split_pred p (a # s) =
     (if p a then [] # split_pred p s
      else (case split_pred p s of [] \<Rightarrow> [[a]] | w # ws \<Rightarrow> (a # w) # ws))"

definition split_ws :: "string \<Rightarrow> string list" where
  "split_ws s = filter (\<lambda>w. w \<noteq> []) (split_pred is_space s)"

section \<open>Lines\<close>

definition is_linebreak :: "char \<Rightarrow> bool" where
  "is_linebreak c \<longleftrightarrow> (let n = of_char c :: int in 10 \<le> n \<and> n \<le> 13 \<or> 28 \<le> n \<and> n \<le> 30 \<or> n = 133)"

text \<open>\<open>s.splitlines()\<close>: a carriage return and line feed count as one break; no empty last line.\<close>

fun splitlines_from :: "string \<Rightarrow> string \<Rightarrow> string list" where
  "splitlines_from acc [] = (if acc = [] then [] else [rev acc])"
| "splitlines_from acc (c # s) =
     (if \<not> is_linebreak c then splitlines_from (c # acc) s
      else rev acc # (case s of
          [] \<Rightarrow> []
        | d # s' \<Rightarrow> if c = CHR 0x0D \<and> d = CHR 0x0A then splitlines_from [] s'
                    else splitlines_from [] (d # s')))"

definition splitlines :: "string \<Rightarrow> string list" where
  "splitlines s = splitlines_from [] s"

lemma splitlines_from_line:
  assumes "\<And>c. c \<in> set l \<Longrightarrow> \<not> is_linebreak c"
  shows "splitlines_from acc (l @ CHR 0x0A # s) = (rev acc @ l) # splitlines_from [] s"
  using assms
proof (induction l arbitrary: acc)
  case Nil
  then show ?case by (cases s) (simp_all add: is_linebreak_def)
qed (simp add: is_linebreak_def)

lemma splitlines_unlines:
  assumes "\<And>l c. l \<in> set ls \<Longrightarrow> c \<in> set l \<Longrightarrow> \<not> is_linebreak c"
  shows "splitlines (concat (map (\<lambda>l. l @ [CHR 0x0A]) ls)) = ls"
  unfolding splitlines_def using assms
proof (induction ls)
  case (Cons l ls)
  from Cons.prems have "\<And>c. c \<in> set l \<Longrightarrow> \<not> is_linebreak c" by (meson list.set_intros(1))
  moreover have "splitlines_from [] (concat (map (\<lambda>l. l @ [CHR 0x0A]) ls)) = ls"
    by (rule Cons.IH, rule Cons.prems) auto
  ultimately show ?case using splitlines_from_line [of l "[]"] by simp
qed simp

section \<open>Substrings\<close>

fun contains :: "string \<Rightarrow> string \<Rightarrow> bool" where
  "contains [] p = (p = [])"
| "contains (a # s) p = (startswith (a # s) p \<or> contains s p)"

lemma startswith_prefix: "startswith s p \<longleftrightarrow> prefix p s"
  by (auto simp: startswith_iff prefix_def)

lemma contains_iff: "contains s p \<longleftrightarrow> sublist p s"
  by (induction s) (simp_all add: startswith_prefix sublist_Cons_right)

lemma contains_append: "contains a p \<or> contains b p \<Longrightarrow> contains (a @ b) p"
  by (auto simp: contains_iff sublist_append)

lemma contains_mid [simp]: "contains (a @ p @ b) p"
  by (auto simp: contains_iff)

lemma contains_set: "contains s p \<Longrightarrow> set p \<subseteq> set s"
  by (auto simp: contains_iff dest: set_mono_sublist)

text \<open>\<open>s.partition(c)\<close> for one character.\<close>

definition str_partition :: "char \<Rightarrow> string \<Rightarrow> string \<times> bool \<times> string" where
  "str_partition c s = (takeWhile (\<lambda>d. d \<noteq> c) s, c \<in> set s, drop 1 (dropWhile (\<lambda>d. d \<noteq> c) s))"

lemma str_partition_append: "c \<notin> set k \<Longrightarrow> str_partition c (k @ c # v) = (k, True, v)"
  by (induction k) (auto simp: str_partition_def)

lemma str_partition_absent: "c \<notin> set s \<Longrightarrow> str_partition c s = (s, False, [])"
  by (induction s) (auto simp: str_partition_def)

section \<open>Integers\<close>

text \<open>
  \<open>int(s)\<close>: surrounding whitespace, a sign, digits with single underscores between them;
  more than 4300 digits are refused. \<open>None\<close> is \<open>ValueError\<close>.
\<close>

fun parse_digits :: "int \<Rightarrow> bool \<Rightarrow> string \<Rightarrow> int option" where
  "parse_digits acc d [] = (if d then Some acc else None)"
| "parse_digits acc d (c # s) =
     (if is_digit c then parse_digits (10 * acc + digit_val c) True s
      else if c = CHR ''_'' \<and> d then parse_digits acc False s
      else None)"

definition INT_MAX_STR_DIGITS :: int where "INT_MAX_STR_DIGITS = 4300"

definition py_int :: "string \<Rightarrow> int option" where
  "py_int s =
     (if int (length (filter is_digit s)) > INT_MAX_STR_DIGITS then None
      else case strip s of
        [] \<Rightarrow> None
      | c # r \<Rightarrow> if c = CHR ''-'' then map_option uminus (parse_digits 0 False r)
                 else if c = CHR ''+'' then parse_digits 0 False r
                 else parse_digits 0 False (c # r))"

lemma parse_digits_all:
  "(\<And>c. c \<in> set s \<Longrightarrow> is_digit c) \<Longrightarrow> s \<noteq> [] \<Longrightarrow>
   parse_digits acc d s = Some (foldl (\<lambda>n c. 10 * n + digit_val c) acc s)"
proof (induction s arbitrary: acc d)
  case (Cons c s)
  then have "is_digit c" by simp
  show ?case
  proof (cases "s = []")
    case False
    then show ?thesis
      using Cons.IH [of "10 * acc + digit_val c" True] Cons.prems \<open>is_digit c\<close> by simp
  qed (simp add: \<open>is_digit c\<close>)
qed simp

lemma str_of_int_digits_or_minus: "c \<in> set (str_of_int i) \<Longrightarrow> is_digit c \<or> c = CHR ''-''"
  using dec_digits [of i] dec_digits [of "- i"] by (auto simp: str_of_int_def split: if_splits)

lemma digit_not_space: "is_digit c \<Longrightarrow> \<not> is_space c"
  by (auto simp: is_digit_def is_space_def Let_def)

lemma strip_dec: "0 \<le> n \<Longrightarrow> strip (dec n) = dec n"
  unfolding strip_def
  using digit_not_space dec_digits [of n] by (intro strip_by_id) (auto simp: hd_in_set)

lemma dec_length: "0 \<le> n \<Longrightarrow> n < 10 ^ k \<Longrightarrow> 0 < k \<Longrightarrow> length (dec n) \<le> k"
proof (induction n arbitrary: k rule: dec.induct)
  case (1 n)
  show ?case
  proof (cases "n < 10")
    case True
    with "1.prems" show ?thesis by (simp add: dec.simps [of n])
  next
    case False
    with "1.prems" obtain j where k: "k = Suc j" "0 < j"
      by (cases k; cases "k - 1") auto
    with False "1.prems" have "length (dec (n div 10)) \<le> j"
      by (intro "1.IH") auto
    with False k show ?thesis by (simp add: dec.simps [of n])
  qed
qed

lemma py_int_dec:
  assumes "0 \<le> n" and "n < 10 ^ 4300"
  shows "py_int (dec n) = Some n"
proof -
  have "length (dec n) \<le> 4300" by (rule dec_length [OF assms]) simp
  then have len: "\<not> int (length (filter is_digit (dec n))) > INT_MAX_STR_DIGITS"
    using length_filter_le [of is_digit "dec n"] unfolding INT_MAX_STR_DIGITS_def by linarith
  obtain c r where cr: "dec n = c # r" by (cases "dec n") auto
  then have "is_digit c" using dec_digits [OF assms(1), of c] by simp
  then have "c \<noteq> CHR ''-''" "c \<noteq> CHR ''+''" by (auto simp: is_digit_def)
  moreover have "parse_digits 0 False (dec n) = Some n"
    using parse_digits_all [of "dec n" 0 False] dec_digits [OF assms(1)] int_of_str_dec [OF assms(1)]
    by (simp add: int_of_str_def)
  ultimately show ?thesis
    using len strip_dec [OF assms(1)] by (simp add: py_int_def cr)
qed

end
