(* ===== verification/Hostcheck.thy ===== *)
theory Hostcheck
  imports Pystrings Config_Schema
begin

text \<open>
  \<open>hostcheck.py\<close>: whether the host kernel offers the inter-process driver Android needs,
  and what \<open>beetroot up\<close> does about it. The probed files are an argument (\<open>host_files\<close>); the
  decompression of \<open>/proc/config.gz\<close> is part of the read's outcome. Message texts are the
  UTF-8 bytes of the source's literals.
\<close>

section \<open>Probes\<close>

text \<open>Reading a file: its text, an \<open>OSError\<close>, or another exception (undecodable or truncated data).\<close>

datatype read_result = ReadOk string | ReadOSError | ReadRaises

record host_files =
  node_exists :: "string \<Rightarrow> bool"
  proc_filesystems :: read_result
  proc_config_gz :: read_result
  boot_config :: "string \<Rightarrow> read_result"
  uname_release :: string

datatype probe_error = ProbeRaises

definition BINDER_DEVICE_NODES :: "string list" where
  "BINDER_DEVICE_NODES = [''/dev/binder'', ''/dev/hwbinder'', ''/dev/vndbinder'']"

definition KERNEL_CONFIG_KEY :: string where
  "KERNEL_CONFIG_KEY = ''CONFIG_ANDROID_BINDER_IPC''"

datatype kernel_config = ConfigY | ConfigM | ConfigNotSet

datatype binder_state = Ready | Loadable | Unsupported | Unknown

record binder_status =
  bs_state :: binder_state
  bs_reason :: string
  bs_remedy :: string

definition available :: "binder_status \<Rightarrow> bool" where
  "available s \<longleftrightarrow> bs_state s = Ready"

definition dev_binder_present :: "host_files \<Rightarrow> bool" where
  "dev_binder_present h \<longleftrightarrow> list_ex (node_exists h) BINDER_DEVICE_NODES"

fun lists_binder :: "string list \<Rightarrow> bool" where
  "lists_binder [] = False"
| "lists_binder (line # ls) =
     (let fields = split_ws line
      in if fields \<noteq> [] \<and> last fields = ''binder'' then True else lists_binder ls)"

definition binderfs_supported :: "host_files \<Rightarrow> probe_error + bool" where
  "binderfs_supported h = (case proc_filesystems h of
     ReadOSError \<Rightarrow> Inr False
   | ReadRaises \<Rightarrow> Inl ProbeRaises
   | ReadOk t \<Rightarrow> Inr (lists_binder (splitlines t)))"

definition boot_config_path :: "host_files \<Rightarrow> string" where
  "boot_config_path h = ''/boot/config-'' @ uname_release h"

definition kernel_config_lines :: "host_files \<Rightarrow> probe_error + string list" where
  "kernel_config_lines h = (case proc_config_gz h of
     ReadOk t \<Rightarrow> Inr (splitlines t)
   | ReadRaises \<Rightarrow> Inl ProbeRaises
   | ReadOSError \<Rightarrow> (case boot_config h (boot_config_path h) of
       ReadOk t \<Rightarrow> Inr (splitlines t)
     | ReadRaises \<Rightarrow> Inl ProbeRaises
     | ReadOSError \<Rightarrow> Inr []))"

definition not_set_comment :: string where
  "not_set_comment = ''# '' @ KERNEL_CONFIG_KEY @ '' is not set''"

text \<open>One line of the loop in \<open>_kernel_config_binder\<close>; \<open>None\<close> goes on to the next line.\<close>

definition config_line :: "string \<Rightarrow> kernel_config option" where
  "config_line raw =
     (let line = strip raw
      in if startswith line (KERNEL_CONFIG_KEY @ ''='')
         then let (_, _, rest) = str_partition (CHR ''='') line;
                  value = strip_by (\<lambda>c. c = CHR 0x22) (strip rest)
              in if value = ''y'' then Some ConfigY else if value = ''m'' then Some ConfigM else None
         else if line = not_set_comment then Some ConfigNotSet
         else None)"

fun scan_config :: "string list \<Rightarrow> kernel_config option" where
  "scan_config [] = None"
| "scan_config (raw # ls) = (case config_line raw of Some v \<Rightarrow> Some v | None \<Rightarrow> scan_config ls)"

definition kernel_config_binder :: "host_files \<Rightarrow> probe_error + kernel_config option" where
  "kernel_config_binder h = and_then (kernel_config_lines h) (\<lambda>ls. Inr (scan_config ls))"

section \<open>Classification\<close>

definition em_dash :: string where
  "em_dash = [CHR 0xE2, CHR 0x80, CHR 0x94]"

definition config_text :: "kernel_config \<Rightarrow> string" where
  "config_text k = (case k of ConfigY \<Rightarrow> ''y'' | ConfigM \<Rightarrow> ''m'' | ConfigNotSet \<Rightarrow> ''not-set'')"

definition classify :: "bool \<Rightarrow> bool \<Rightarrow> kernel_config option \<Rightarrow> binder_status" where
  "classify dev_present binderfs kconfig =
     (if dev_present \<or> binderfs then
        \<lparr>bs_state = Ready, bs_reason = ''binder is available (device nodes or binderfs present)'',
         bs_remedy = ''''\<rparr>
      else case kconfig of
        Some ConfigNotSet \<Rightarrow>
          \<lparr>bs_state = Unsupported,
           bs_reason = ''this kernel has binder compiled out ('' @ KERNEL_CONFIG_KEY @ '' is not set) ''
             @ em_dash @ '' redroid cannot boot here regardless of Docker privileges'',
           bs_remedy = ''use a host whose kernel provides binder, or adopt a remote rooted ''
             @ ''device with `beetroot adopt <serial>` (no kernel access needed)''\<rparr>
      | Some k \<Rightarrow>
          \<lparr>bs_state = Loadable,
           bs_reason = ''the kernel supports binder ('' @ KERNEL_CONFIG_KEY @ ''='' @ config_text k @ '') ''
             @ ''but it is not loaded '' @ em_dash @ '' no /dev/binder, no binderfs'',
           bs_remedy = ''load it on the host with ''
             @ ''`sudo modprobe binder_linux devices=binder,hwbinder,vndbinder` ''
             @ ''(works on GitHub-hosted CI runners), then retry''\<rparr>
      | None \<Rightarrow>
          \<lparr>bs_state = Unknown,
           bs_reason = ''binder is not present and the kernel config could not be read, ''
             @ ''so binder support can't be determined'',
           bs_remedy = ''if redroid fails to boot, ensure the host kernel provides binder, ''
             @ ''or adopt a remote rooted device with `beetroot adopt <serial>`''\<rparr>)"

definition get_binder_status :: "host_files \<Rightarrow> probe_error + binder_status" where
  "get_binder_status h =
     and_then (binderfs_supported h) (\<lambda>fs.
     and_then (kernel_config_binder h) (\<lambda>k.
     Inr (classify (dev_binder_present h) fs k)))"

section \<open>The plan for \<open>up\<close>\<close>

datatype binder_action = Proceed | Warn | Block | EngageVm

record binder_plan =
  bp_action :: binder_action
  bp_reason :: string
  bp_remedy :: string

definition VM_HINT :: string where
  "VM_HINT = ''Or set `binder: vm` in beetroot.yaml to run redroid inside an ''
     @ ''emulated micro-VM that ships its own binder kernel (slower; no host ''
     @ ''binder required)''"

definition VM_ENGAGED :: string where
  "VM_ENGAGED = ''binder: vm '' @ em_dash @ '' booting redroid inside an emulated QEMU micro-VM that ''
     @ ''ships its own binder kernel (no host binder required); see ''
     @ ''docs/design/binderless-hosts-qemu-tcg.md''"

definition plan_binder_runtime :: "binder_mode \<Rightarrow> binder_status \<Rightarrow> binder_plan" where
  "plan_binder_runtime mode status =
     (if mode = BinderVm then \<lparr>bp_action = EngageVm, bp_reason = VM_ENGAGED, bp_remedy = ''''\<rparr>
      else if available status then
        \<lparr>bp_action = Proceed, bp_reason = bs_reason status, bp_remedy = ''''\<rparr>
      else let remedy = (if bs_remedy status \<noteq> '''' then bs_remedy status @ ''. '' @ VM_HINT else VM_HINT)
           in if mode = BinderHost
              then \<lparr>bp_action = Block, bp_reason = bs_reason status, bp_remedy = remedy\<rparr>
              else \<lparr>bp_action = Warn, bp_reason = bs_reason status, bp_remedy = remedy\<rparr>)"

section \<open>What a verdict rests on\<close>

lemma lists_binder_iff:
  "lists_binder ls \<longleftrightarrow> (\<exists>l\<in>set ls. split_ws l \<noteq> [] \<and> last (split_ws l) = ''binder'')"
  by (induction ls) (auto simp: Let_def)

lemma scan_config_Some:
  "scan_config ls = Some k \<longleftrightarrow>
   (\<exists>pre l post. ls = pre @ l # post \<and> config_line l = Some k \<and> (\<forall>l'\<in>set pre. config_line l' = None))"
proof (induction ls)
  case (Cons l ls)
  show ?case
  proof (cases "config_line l")
    case None
    have "(\<exists>pre m post. l # ls = pre @ m # post \<and> config_line m = Some k \<and> (\<forall>l'\<in>set pre. config_line l' = None))
      \<longleftrightarrow> (\<exists>pre m post. ls = pre @ m # post \<and> config_line m = Some k \<and> (\<forall>l'\<in>set pre. config_line l' = None))"
      (is "?L \<longleftrightarrow> ?R")
    proof
      assume ?L
      then obtain pre m post where *: "l # ls = pre @ m # post" "config_line m = Some k"
        "\<forall>l'\<in>set pre. config_line l' = None" by blast
      with None obtain pre' where "pre = l # pre'" by (cases pre) auto
      with * show ?R by auto
    next
      assume ?R
      then obtain pre m post where *: "ls = pre @ m # post" "config_line m = Some k"
        "\<forall>l'\<in>set pre. config_line l' = None" by blast
      with None have "l # ls = (l # pre) @ m # post" "\<forall>l'\<in>set (l # pre). config_line l' = None" by auto
      with *(2) show ?L by blast
    qed
    with None Cons.IH show ?thesis by simp
  next
    case (Some v)
    then show ?thesis
      by (auto intro: exI [where x = "[]"] simp: Cons_eq_append_conv)
  qed
qed simp

text \<open>Evidence of the driver: a device node or the file system in the kernel's list.\<close>

definition binder_evidence :: "host_files \<Rightarrow> bool" where
  "binder_evidence h \<longleftrightarrow> (\<exists>n\<in>set BINDER_DEVICE_NODES. node_exists h n)
     \<or> (\<exists>t. proc_filesystems h = ReadOk t
          \<and> (\<exists>l\<in>set (splitlines t). split_ws l \<noteq> [] \<and> last (split_ws l) = ''binder''))"

lemma get_binder_status_Inr:
  assumes "get_binder_status h = Inr s"
  obtains fs ls where "binderfs_supported h = Inr fs" and "kernel_config_lines h = Inr ls"
    and "s = classify (dev_binder_present h) fs (scan_config ls)"
  using assms by (auto simp: get_binder_status_def kernel_config_binder_def and_then_Inr_iff)

lemma evidence_iff:
  "binderfs_supported h = Inr fs \<Longrightarrow> binder_evidence h \<longleftrightarrow> dev_binder_present h \<or> fs"
  by (auto simp: binder_evidence_def dev_binder_present_def list_ex_iff binderfs_supported_def
      lists_binder_iff split: read_result.splits)

lemma classify_state:
  "bs_state (classify d f k) = (if d \<or> f then Ready else case k of
     None \<Rightarrow> Unknown | Some ConfigNotSet \<Rightarrow> Unsupported | Some _ \<Rightarrow> Loadable)"
  by (simp add: classify_def split: option.split kernel_config.split)

text \<open>
  The verdict of the host probe is the one its documentation gives. The host is ready
  exactly when a device node exists or the driver's file system is listed; otherwise the
  first line of the kernel configuration that decides the key makes it loadable (\<open>y\<close> or
  \<open>m\<close>) or unsupported (the not-set comment), and without such a line it is unknown.
\<close>

theorem binder_status_verdict:
  assumes "get_binder_status h = Inr s" and "kernel_config_lines h = Inr ls"
  shows "(bs_state s = Ready \<longleftrightarrow> binder_evidence h)
    \<and> (\<not> binder_evidence h \<longrightarrow>
        (bs_state s = Unknown \<longleftrightarrow> (\<forall>l\<in>set ls. config_line l = None))
        \<and> (bs_state s = Unsupported \<longleftrightarrow> (\<exists>pre l post. ls = pre @ l # post
             \<and> strip l = ''# CONFIG_ANDROID_BINDER_IPC is not set'' \<and> (\<forall>l'\<in>set pre. config_line l' = None))))"
proof -
  obtain fs where fs: "binderfs_supported h = Inr fs"
    and s: "s = classify (dev_binder_present h) fs (scan_config ls)"
    using get_binder_status_Inr [OF assms(1)] assms(2) by (metis sum.inject(2))
  have none: "scan_config ls = None \<longleftrightarrow> (\<forall>l\<in>set ls. config_line l = None)"
    by (induction ls) (auto split: option.splits)
  have cl: "config_line l = Some ConfigNotSet \<longleftrightarrow> strip l = ''# CONFIG_ANDROID_BINDER_IPC is not set''" for l
    by (auto simp: config_line_def Let_def not_set_comment_def KERNEL_CONFIG_KEY_def
        split: prod.splits if_splits)
  have ns: "scan_config ls = Some ConfigNotSet \<longleftrightarrow> (\<exists>pre l post. ls = pre @ l # post
      \<and> strip l = ''# CONFIG_ANDROID_BINDER_IPC is not set'' \<and> (\<forall>l'\<in>set pre. config_line l' = None))"
    unfolding scan_config_Some cl ..
  have "bs_state s = Ready \<longleftrightarrow> binder_evidence h"
    unfolding evidence_iff [OF fs] s classify_state by (auto split: option.split kernel_config.split)
  moreover have "bs_state s = Unknown \<longleftrightarrow> (\<forall>l\<in>set ls. config_line l = None)" if "\<not> binder_evidence h"
    using that unfolding none [symmetric] evidence_iff [OF fs] s classify_state
    by (auto split: option.split kernel_config.split)
  moreover have "bs_state s = Unsupported \<longleftrightarrow> scan_config ls = Some ConfigNotSet" if "\<not> binder_evidence h"
    using that unfolding evidence_iff [OF fs] s classify_state
    by (auto split: option.split kernel_config.split)
  ultimately show ?thesis unfolding ns by blast
qed

definition bare_host :: host_files where
  "bare_host = \<lparr>node_exists = (\<lambda>_. False),
     proc_filesystems = ReadOk (''nodev'' @ [CHR 0x09] @ ''proc'' @ [CHR 0x0A] @ [CHR 0x09] @ ''ext4'' @ [CHR 0x0A]),
     proc_config_gz = ReadOSError,
     boot_config = (\<lambda>_. ReadOk (''CONFIG_ANDROID=y'' @ [CHR 0x0A]
        @ ''# CONFIG_ANDROID_BINDER_IPC is not set'' @ [CHR 0x0A])),
     uname_release = ''6.1.0''\<rparr>"

theorem binder_status_verdict_witness:
  "\<exists>s. get_binder_status bare_host = Inr s \<and> bs_state s = Unsupported \<and> \<not> binder_evidence bare_host"
proof -
  let ?ls = "[''CONFIG_ANDROID=y'', ''# CONFIG_ANDROID_BINDER_IPC is not set'']"
  have ls: "kernel_config_lines bare_host = Inr ?ls" by code_simp
  have "case get_binder_status bare_host of Inr s \<Rightarrow> bs_state s = Unsupported | Inl _ \<Rightarrow> False" by code_simp
  then obtain s where s: "get_binder_status bare_host = Inr s" "bs_state s = Unsupported"
    by (cases "get_binder_status bare_host") auto
  from binder_status_verdict [OF s(1) ls] s show ?thesis by auto
qed

text \<open>
  The start policy. The emulated path is engaged exactly when it was asked for; a start
  is refused exactly in strict mode on a host without evidence of the driver; a silent start
  happens exactly when there is evidence, a warned one in lenient mode without; and every
  refusal or warning names the way out.
\<close>

theorem plan_follows_evidence:
  assumes "get_binder_status h = Inr s"
  shows "(bp_action (plan_binder_runtime mode s) = EngageVm \<longleftrightarrow> mode = BinderVm)
    \<and> (bp_action (plan_binder_runtime mode s) = Proceed \<longleftrightarrow> mode \<noteq> BinderVm \<and> binder_evidence h)
    \<and> (bp_action (plan_binder_runtime mode s) = Block \<longleftrightarrow> mode = BinderHost \<and> \<not> binder_evidence h)
    \<and> (bp_action (plan_binder_runtime mode s) = Warn \<longleftrightarrow> mode = BinderAuto \<and> \<not> binder_evidence h)
    \<and> (bp_action (plan_binder_runtime mode s) \<in> {Block, Warn} \<longrightarrow>
         contains (bp_remedy (plan_binder_runtime mode s)) VM_HINT)"
proof -
  obtain fs ls where fs: "binderfs_supported h = Inr fs"
    and s: "s = classify (dev_binder_present h) fs (scan_config ls)"
    using get_binder_status_Inr [OF assms] by metis
  have av: "available s \<longleftrightarrow> binder_evidence h"
    unfolding available_def evidence_iff [OF fs] s classify_state
    by (auto split: option.split kernel_config.split)
  have hint: "contains (r @ ''. '' @ VM_HINT) VM_HINT" "contains VM_HINT VM_HINT" for r
    using contains_mid [of "r @ ''. ''" VM_HINT "[]"] contains_mid [of "[]" VM_HINT "[]"] by simp_all
  show ?thesis
    using hint by (cases mode) (auto simp: plan_binder_runtime_def av Let_def)
qed

theorem plan_follows_evidence_witness:
  "\<exists>s. get_binder_status bare_host = Inr s \<and> bp_action (plan_binder_runtime BinderHost s) = Block
     \<and> \<not> binder_evidence bare_host"
proof -
  obtain s where s: "get_binder_status bare_host = Inr s"
  proof (cases "get_binder_status bare_host")
    case (Inl e)
    have "case get_binder_status bare_host of Inr _ \<Rightarrow> True | Inl _ \<Rightarrow> False" by code_simp
    with Inl show ?thesis by simp
  qed
  have "case get_binder_status bare_host of
      Inr s \<Rightarrow> bp_action (plan_binder_runtime BinderHost s) = Block | Inl _ \<Rightarrow> False" by code_simp
  with plan_follows_evidence [OF s, of BinderHost] s show ?thesis by auto
qed

end
