(* ===== verification/Qemu.thy ===== *)
theory Qemu
  imports Hostcheck
begin

text \<open>
  \<open>vm/qemu.py\<close>: accelerator choice, the number of virtual CPUs, the emulator's command line
  and the process manager. The kernel around the manager is an argument (\<open>qenv\<close>): what each
  observation at each instant shows, which signals are accepted, whether a spawn succeeds.
  The instants are counted in the state, so every interleaving with other processes is some
  environment.
\<close>

section \<open>Accelerator\<close>

datatype resolved_accel = Kvm | Tcg

datatype qemu_error =
    KvmWrongArch string
  | KvmUnusable
  | AlreadyRunning "int option"
  | SpawnFailed
  | OSErr
  | OverflowErr
  | DecodeErr

definition GUEST_ARCH_MACHINES :: "string list" where
  "GUEST_ARCH_MACHINES = [''x86_64'', ''amd64'']"

definition host_is_guest_arch :: "string \<Rightarrow> bool" where
  "host_is_guest_arch machine \<longleftrightarrow> lower machine \<in> set GUEST_ARCH_MACHINES"

text \<open>\<open>machine\<close> is \<open>platform.machine()\<close>, \<open>kvm_usable\<close> the access probe of \<open>/dev/kvm\<close>.\<close>

definition detect_accel :: "string \<Rightarrow> bool \<Rightarrow> accel \<Rightarrow> qemu_error + resolved_accel" where
  "detect_accel machine kvm_usable requested =
     (if requested = AccelTcg then Inr Tcg
      else if \<not> host_is_guest_arch machine then
        (if requested = AccelKvm then Inl (KvmWrongArch machine) else Inr Tcg)
      else if requested = AccelKvm then
        (if \<not> kvm_usable then Inl KvmUnusable else Inr Kvm)
      else Inr (if kvm_usable then Kvm else Tcg))"

section \<open>Virtual CPUs\<close>

text \<open>\<open>os.sched_getaffinity\<close> where it exists, with the number of CPUs it gives; \<open>os.cpu_count()\<close>.\<close>

record cpu_probe =
  affinity :: "nat option"
  cpu_count :: "nat option"
  cpuinfo :: read_result

definition affinity_cpu_count :: "cpu_probe \<Rightarrow> int" where
  "affinity_cpu_count c = (case affinity c of
     Some n \<Rightarrow> max 1 (int n)
   | None \<Rightarrow> max 1 (case cpu_count c of Some n \<Rightarrow> if n = 0 then 1 else int n | None \<Rightarrow> 1))"

record core_scan =
  cores :: "(string \<times> string) list"
  phys :: "string option"
  core :: "string option"

definition close_block :: "core_scan \<Rightarrow> core_scan" where
  "close_block st = (case (phys st, core st) of
     (Some p, Some c) \<Rightarrow> st\<lparr>cores := List.insert (p, c) (cores st), phys := None, core := None\<rparr>
   | _ \<Rightarrow> st\<lparr>phys := None, core := None\<rparr>)"

definition cpuinfo_line :: "string \<Rightarrow> core_scan \<Rightarrow> core_scan" where
  "cpuinfo_line line st = (case str_partition (CHR '':'') line of (key, sep, value) \<Rightarrow>
     if \<not> sep then close_block st
     else if strip key = ''physical id'' then st\<lparr>phys := Some (strip value)\<rparr>
     else if strip key = ''core id'' then st\<lparr>core := Some (strip value)\<rparr>
     else st)"

definition cpuinfo_physical_cores :: "read_result \<Rightarrow> qemu_error + int option" where
  "cpuinfo_physical_cores r = (case r of
     ReadOSError \<Rightarrow> Inr None
   | ReadRaises \<Rightarrow> Inl DecodeErr
   | ReadOk t \<Rightarrow>
       let st = close_block (fold cpuinfo_line (splitlines t) \<lparr>cores = [], phys = None, core = None\<rparr>);
           n = length (cores st)
       in Inr (if n = 0 then None else Some (int n)))"

definition host_physical_cores :: "cpu_probe \<Rightarrow> qemu_error + int" where
  "host_physical_cores c = and_then (cpuinfo_physical_cores (cpuinfo c)) (\<lambda>physical.
     Inr (case physical of
       None \<Rightarrow> max 1 (affinity_cpu_count c)
     | Some p \<Rightarrow> max 1 (min p (affinity_cpu_count c))))"

definition resolve_smp :: "cpu_probe \<Rightarrow> smp \<Rightarrow> qemu_error + int" where
  "resolve_smp c configured = (case configured of
     SmpAuto \<Rightarrow> host_physical_cores c | SmpCount n \<Rightarrow> Inr n)"

section \<open>Command line\<close>

definition GUEST_ADB_PORT :: int where "GUEST_ADB_PORT = 5555"

record qemu_args =
  q_bin :: string
  q_accel :: resolved_accel
  q_kernel :: string
  q_rootfs :: string
  q_smp :: int
  q_memory_mib :: int
  q_adb_port :: int
  q_disk_format :: string
  q_disk_cache :: "string option"
  q_monitor :: "string option"
  q_loadvm :: "string option"

definition accel_args :: "resolved_accel \<Rightarrow> string list" where
  "accel_args a = (case a of
     Kvm \<Rightarrow> [''-accel'', ''kvm'', ''-cpu'', ''host'']
   | Tcg \<Rightarrow> [''-accel'', ''tcg,thread=multi,tb-size=1024'', ''-cpu'', ''max''])"

definition hostfwd :: "int \<Rightarrow> string" where
  "hostfwd port = ''hostfwd=tcp:127.0.0.1:'' @ str_of_int port @ ''-:'' @ str_of_int GUEST_ADB_PORT"

definition drive_arg :: "qemu_args \<Rightarrow> string" where
  "drive_arg a = ''file='' @ q_rootfs a @ '',format='' @ q_disk_format a @ '',if=virtio''
     @ (case q_disk_cache a of None \<Rightarrow> '''' | Some c \<Rightarrow> '',cache='' @ c)"

definition build_qemu_argv :: "qemu_args \<Rightarrow> string list" where
  "build_qemu_argv a =
     [q_bin a, ''-M'', ''q35''] @ accel_args (q_accel a)
     @ [''-smp'', str_of_int (q_smp a), ''-m'', str_of_int (q_memory_mib a),
        ''-nographic'', ''-display'', ''none'', ''-no-reboot'', ''-kernel'', q_kernel a,
        ''-drive'', drive_arg a,
        ''-netdev'', ''user,id=net0,'' @ hostfwd (q_adb_port a),
        ''-device'', ''virtio-net-pci,netdev=net0'']
     @ (case q_monitor a of None \<Rightarrow> [] | Some m \<Rightarrow> [''-monitor'', ''unix:'' @ m @ '',server,nowait''])
     @ (case q_loadvm a of None \<Rightarrow> [] | Some t \<Rightarrow> [''-loadvm'', t])
     @ [''-append'', ''console=ttyS0 root=/dev/vda rw init=/init panic=1 mitigations=off'']"

section \<open>Process manager\<close>

datatype signal = Sig0 | SigTerm | SigKill

datatype kill_result = KillOk | KillEperm | KillErr

text \<open>
  The environment at each instant: the command line of a process (\<open>ReadOSError\<close> once it is
  gone), whether a signal is accepted, whether a directory, a log, a process or a pidfile can
  be made, and the extra time a sleep takes.
\<close>

record qenv =
  e_cmdline :: "nat \<Rightarrow> int \<Rightarrow> read_result"
  e_kill :: "nat \<Rightarrow> int \<Rightarrow> signal \<Rightarrow> kill_result"
  e_mkdir :: "nat \<Rightarrow> bool"
  e_open_log :: "nat \<Rightarrow> bool"
  e_spawn :: "nat \<Rightarrow> string list \<Rightarrow> int option"
  e_write_pid :: "nat \<Rightarrow> bool"
  e_unlink :: "nat \<Rightarrow> bool"
  e_delay :: "nat \<Rightarrow> nat"

text \<open>
  State: the instant, the clock in nanoseconds, the pidfile (\<open>None\<close>: absent or unreadable),
  the console log (truncated by each launch), the signals sent so far with their instants,
  and the argument lists of spawned processes.
\<close>

record qstate =
  tick :: nat
  clock :: int
  pidfile :: "read_result option"
  console_log :: "string option"
  sent :: "(nat \<times> int \<times> signal) list"
  spawned :: "(int \<times> string list) list"

record qemu_process =
  host_adb_port :: "int option"

definition TERM_GRACE_NS :: int where "TERM_GRACE_NS = 5000000000"
definition TERM_POLL_NS :: int where "TERM_POLL_NS = 100000000"

definition read_pid :: "qstate \<Rightarrow> qemu_error + int option" where
  "read_pid st = (case pidfile st of
     None \<Rightarrow> Inr None
   | Some ReadOSError \<Rightarrow> Inr None
   | Some ReadRaises \<Rightarrow> Inl DecodeErr
   | Some (ReadOk t) \<Rightarrow> Inr (py_int (strip t)))"

text \<open>The identity test on a command line that was read.\<close>

definition names_instance :: "int option \<Rightarrow> string \<Rightarrow> bool" where
  "names_instance port cmdline \<longleftrightarrow>
     (let names_qemu = contains cmdline ''qemu-system''
      in case port of
           None \<Rightarrow> names_qemu
         | Some p \<Rightarrow> names_qemu \<and> contains cmdline (''hostfwd=tcp:127.0.0.1:'' @ str_of_int p @ ''-''))"

definition pid_is_qemu :: "qenv \<Rightarrow> qemu_process \<Rightarrow> int \<Rightarrow> qstate \<Rightarrow> (qemu_error + bool) \<times> qstate" where
  "pid_is_qemu e q pid st = (case e_cmdline e (tick st) pid of
     ReadOSError \<Rightarrow> (Inr False, st\<lparr>tick := Suc (tick st)\<rparr>)
   | ReadRaises \<Rightarrow> (Inl DecodeErr, st\<lparr>tick := Suc (tick st)\<rparr>)
   | ReadOk c \<Rightarrow> (Inr (names_instance (host_adb_port q) c), st\<lparr>tick := Suc (tick st)\<rparr>))"

text \<open>\<open>os.kill\<close>: a process id beyond a C \<open>int\<close> raises \<open>OverflowError\<close>. A signal other than 0 is logged.\<close>

definition kill :: "qenv \<Rightarrow> int \<Rightarrow> signal \<Rightarrow> qstate \<Rightarrow> (qemu_error + kill_result) \<times> qstate" where
  "kill e pid s st =
     (if pid < - (2 ^ 31) \<or> pid \<ge> 2 ^ 31 then (Inl OverflowErr, st)
      else let r = e_kill e (tick st) pid s
           in (Inr r, st\<lparr>tick := Suc (tick st),
                 sent := sent st @ (if s \<noteq> Sig0 \<and> r = KillOk then [(tick st, pid, s)] else [])\<rparr>))"

definition is_running :: "qenv \<Rightarrow> qemu_process \<Rightarrow> qstate \<Rightarrow> (qemu_error + bool) \<times> qstate" where
  "is_running e q st = (case read_pid st of
     Inl x \<Rightarrow> (Inl x, st)
   | Inr None \<Rightarrow> (Inr False, st)
   | Inr (Some pid) \<Rightarrow> (case kill e pid Sig0 st of
       (Inl x, st1) \<Rightarrow> (Inl x, st1)
     | (Inr KillErr, st1) \<Rightarrow> (Inr False, st1)
     | (Inr _, st1) \<Rightarrow> pid_is_qemu e q pid st1))"

definition start :: "qenv \<Rightarrow> qemu_process \<Rightarrow> string list \<Rightarrow> qstate \<Rightarrow> (qemu_error + int) \<times> qstate" where
  "start e q argv st = (case is_running e q st of
     (Inl x, st1) \<Rightarrow> (Inl x, st1)
   | (Inr True, st1) \<Rightarrow> (case read_pid st1 of
       Inr p \<Rightarrow> (Inl (AlreadyRunning p), st1) | Inl x \<Rightarrow> (Inl x, st1))
   | (Inr False, st1) \<Rightarrow>
       if \<not> e_mkdir e (tick st1) then (Inl OSErr, st1)
       else if \<not> e_open_log e (tick st1) then (Inl SpawnFailed, st1)
       else (case e_spawn e (tick st1) argv of
           None \<Rightarrow> (Inl SpawnFailed, st1\<lparr>console_log := Some ''''\<rparr>)
         | Some pid \<Rightarrow>
             let st2 = st1\<lparr>tick := Suc (tick st1), console_log := Some '''', spawned := spawned st1 @ [(pid, argv)]\<rparr>
             in if \<not> e_write_pid e (tick st1) then (Inl OSErr, st2)
                else (Inr pid, st2\<lparr>pidfile := Some (ReadOk (str_of_int pid))\<rparr>)))"

definition sleep_poll :: "qenv \<Rightarrow> qstate \<Rightarrow> qstate" where
  "sleep_poll e st = st\<lparr>tick := Suc (tick st), clock := clock st + TERM_POLL_NS + int (e_delay e (tick st))\<rparr>"

lemma pid_is_qemu_frame [simp]:
  "clock (snd (pid_is_qemu e q pid st)) = clock st"
  "tick (snd (pid_is_qemu e q pid st)) = Suc (tick st)"
  "sent (snd (pid_is_qemu e q pid st)) = sent st"
  "pidfile (snd (pid_is_qemu e q pid st)) = pidfile st"
  "spawned (snd (pid_is_qemu e q pid st)) = spawned st"
  by (simp_all add: pid_is_qemu_def split: read_result.split)

lemma sleep_poll_frame [simp]:
  "clock (sleep_poll e st) = clock st + TERM_POLL_NS + int (e_delay e (tick st))"
  "tick (sleep_poll e st) = Suc (tick st)"
  "sent (sleep_poll e st) = sent st"
  "pidfile (sleep_poll e st) = pidfile st"
  by (simp_all add: sleep_poll_def)

text \<open>The polling loop; \<open>Inr True\<close> when the deadline passes with the process still ours at the last poll.\<close>

function poll_until :: "qenv \<Rightarrow> qemu_process \<Rightarrow> int \<Rightarrow> int \<Rightarrow> qstate \<Rightarrow> (qemu_error + bool) \<times> qstate" where
  "poll_until e q pid deadline st =
     (if clock st < deadline then
        (case fst (pid_is_qemu e q pid st) of
           Inl x \<Rightarrow> (Inl x, snd (pid_is_qemu e q pid st))
         | Inr False \<Rightarrow> (Inr False, snd (pid_is_qemu e q pid st))
         | Inr True \<Rightarrow> poll_until e q pid deadline (sleep_poll e (snd (pid_is_qemu e q pid st))))
      else (Inr True, st))"
  by pat_completeness auto
termination
  by (relation "measure (\<lambda>(e, q, pid, deadline, st). nat (deadline - clock st))")
    (auto simp: TERM_POLL_NS_def)

declare poll_until.simps [simp del]

definition escalate_if_alive :: "qenv \<Rightarrow> qemu_process \<Rightarrow> int \<Rightarrow> qstate \<Rightarrow> (qemu_error + unit) \<times> qstate" where
  "escalate_if_alive e q pid st = (case poll_until e q pid (clock st + TERM_GRACE_NS) st of
     (Inl x, st1) \<Rightarrow> (Inl x, st1)
   | (Inr False, st1) \<Rightarrow> (Inr (), st1)
   | (Inr True, st1) \<Rightarrow> (case pid_is_qemu e q pid st1 of
       (Inl x, st2) \<Rightarrow> (Inl x, st2)
     | (Inr False, st2) \<Rightarrow> (Inr (), st2)
     | (Inr True, st2) \<Rightarrow> (case kill e pid SigKill st2 of
         (Inl x, st3) \<Rightarrow> (Inl x, st3) | (Inr _, st3) \<Rightarrow> (Inr (), st3))))"

definition unlink_pidfile :: "qenv \<Rightarrow> qstate \<Rightarrow> qstate" where
  "unlink_pidfile e st = (if e_unlink e (tick st) then st\<lparr>pidfile := None\<rparr> else st)"

definition terminate :: "qenv \<Rightarrow> qemu_process \<Rightarrow> qstate \<Rightarrow> (qemu_error + bool) \<times> qstate" where
  "terminate e q st = (case read_pid st of
     Inl x \<Rightarrow> (Inl x, st)
   | Inr None \<Rightarrow> (Inr False, unlink_pidfile e st)
   | Inr (Some pid) \<Rightarrow> (case pid_is_qemu e q pid st of
       (Inl x, st1) \<Rightarrow> (Inl x, st1)
     | (Inr False, st1) \<Rightarrow> (Inr False, unlink_pidfile e st1)
     | (Inr True, st1) \<Rightarrow> (case kill e pid SigTerm st1 of
         (Inl x, st2) \<Rightarrow> (Inl x, st2)
       | (Inr KillOk, st2) \<Rightarrow> (case escalate_if_alive e q pid st2 of
           (Inl x, st3) \<Rightarrow> (Inl x, st3)
         | (Inr _, st3) \<Rightarrow> (Inr True, unlink_pidfile e st3))
       | (Inr _, st2) \<Rightarrow> (Inr False, unlink_pidfile e st2))))"

end
