(* ===== verification/Qemu_Props.thy ===== *)
theory Qemu_Props
  imports Qemu
begin

text \<open>
  What the process manager guarantees: signals reach only the instance's own emulator, a
  stop always ends and escalates when it must, a process is recognised by the command line
  it was started with, and the accelerator and CPU count are what the host offers.
\<close>

section \<open>Signals\<close>

text \<open>The process table shows this instance's emulator under \<open>pid\<close> at an instant.\<close>

definition owned :: "qenv \<Rightarrow> qemu_process \<Rightarrow> nat \<Rightarrow> int \<Rightarrow> bool" where
  "owned e q k pid \<longleftrightarrow> (case e_cmdline e k pid of
     ReadOk c \<Rightarrow> names_instance (host_adb_port q) c | _ \<Rightarrow> False)"

lemma pid_is_qemu_True:
  "pid_is_qemu e q pid st = (Inr True, st') \<Longrightarrow> owned e q (tick st) pid \<and> st' = st\<lparr>tick := Suc (tick st)\<rparr>"
  by (auto simp: pid_is_qemu_def owned_def split: read_result.splits)

lemma poll_until_frame:
  "sent (snd (poll_until e q pid dl st)) = sent st
   \<and> pidfile (snd (poll_until e q pid dl st)) = pidfile st"
proof (induction e q pid dl st rule: poll_until.induct)
  case (1 e q pid dl st)
  show ?case
  proof (cases "clock st < dl \<and> fst (pid_is_qemu e q pid st) = Inr True")
    case True
    then show ?thesis using 1 by (simp add: poll_until.simps [of e q pid dl st])
  next
    case False
    then show ?thesis
      by (auto simp: poll_until.simps [of e q pid dl st] split: sum.split bool.split)
  qed
qed

lemma kill_frame:
  "kill e pid s st = (r, st') \<Longrightarrow> pidfile st' = pidfile st
   \<and> sent st' = sent st @ (if s \<noteq> Sig0 \<and> r = Inr KillOk then [(tick st, pid, s)] else [])"
  by (auto simp: kill_def Let_def split: if_splits)

lemma escalate_frame:
  assumes "escalate_if_alive e q pid st = (r, st')"
  shows "pidfile st' = pidfile st \<and> (sent st' = sent st
     \<or> (\<exists>k. sent st' = sent st @ [(Suc k, pid, SigKill)] \<and> owned e q k pid))"
proof -
  obtain r1 st1 where p: "poll_until e q pid (clock st + TERM_GRACE_NS) st = (r1, st1)" by fastforce
  have f1: "sent st1 = sent st" "pidfile st1 = pidfile st"
    using poll_until_frame [of e q pid "clock st + TERM_GRACE_NS" st] p by simp_all
  obtain r2 st2 where i: "pid_is_qemu e q pid st1 = (r2, st2)" by fastforce
  have f2: "sent st2 = sent st" "pidfile st2 = pidfile st"
    using pid_is_qemu_frame(3,4) [of e q pid st1] i f1 by simp_all
  show ?thesis
  proof (cases "r1 = Inr True \<and> r2 = Inr True")
    case True
    obtain r3 st3 where k: "kill e pid SigKill st2 = (r3, st3)" by fastforce
    with True assms p i have "st' = st3"
      by (auto simp: escalate_if_alive_def split: sum.splits)
    moreover have "owned e q (tick st1) pid" "tick st2 = Suc (tick st1)"
      using pid_is_qemu_True [of e q pid st1 st2] i True by auto
    ultimately show ?thesis
      using kill_frame [OF k] f2 by (auto split: if_splits)
  next
    case False
    with assms p i f1 f2 show ?thesis
      by (auto simp: escalate_if_alive_def split: sum.splits bool.splits)
  qed
qed

lemma unlink_frame [simp]: "sent (unlink_pidfile e st) = sent st"
  by (simp add: unlink_pidfile_def)


text \<open>A process table in which process 77 is the emulator of port 5555 until instant \<open>n\<close>.\<close>

definition own_cmdline :: string where
  "own_cmdline = ''qemu-system-x86_64'' @ [CHR 0x00] @ ''hostfwd=tcp:127.0.0.1:5555-:5555'' @ [CHR 0x00]"

definition sample_env :: "nat \<Rightarrow> qenv" where
  "sample_env n = \<lparr>e_cmdline = (\<lambda>k pid. if pid = 77 \<and> k \<le> n then ReadOk own_cmdline else ReadOSError),
     e_kill = (\<lambda>_ _ _. KillOk), e_mkdir = (\<lambda>_. True), e_open_log = (\<lambda>_. True),
     e_spawn = (\<lambda>_ _. Some 77), e_write_pid = (\<lambda>_. True), e_unlink = (\<lambda>_. True), e_delay = (\<lambda>_. 0)\<rparr>"

definition sample_state :: qstate where
  "sample_state = \<lparr>tick = 0, clock = 0, pidfile = Some (ReadOk (''77'' @ [CHR 0x0A])), console_log = None,
     sent = [], spawned = []\<rparr>"


section \<open>Escalation\<close>

lemma poll_until_bound:
  "dl \<le> clock st + int n * TERM_POLL_NS \<Longrightarrow> tick (snd (poll_until e q pid dl st)) \<le> tick st + 2 * n"
proof (induction n arbitrary: st)
  case 0
  then show ?case by (simp add: poll_until.simps [of e q pid dl st])
next
  case (Suc n)
  let ?st' = "sleep_poll e (snd (pid_is_qemu e q pid st))"
  have "dl \<le> clock ?st' + int n * TERM_POLL_NS"
    using Suc.prems by (simp add: algebra_simps)
  from Suc.IH [OF this] show ?case
    by (auto simp: poll_until.simps [of e q pid dl st] split: sum.split bool.split)
qed

lemma poll_until_stays:
  assumes "\<And>k. owned e q k pid"
  shows "fst (poll_until e q pid dl st) = Inr True"
  using assms
proof (induction e q pid dl st rule: poll_until.induct)
  case (1 e q pid dl st)
  have "fst (pid_is_qemu e q pid st) = Inr True"
    using "1.prems" [of "tick st"] by (auto simp: pid_is_qemu_def owned_def split: read_result.splits)
  with 1 show ?case by (simp add: poll_until.simps [of e q pid dl st])
qed

lemma owned_pid_is_qemu:
  "owned e q (tick st) pid \<Longrightarrow> pid_is_qemu e q pid st = (Inr True, st\<lparr>tick := Suc (tick st)\<rparr>)"
  by (auto simp: pid_is_qemu_def owned_def split: read_result.splits)

text \<open>
  C31: a stop ends. Whatever the environment does, stopping makes at most 104 observations of
  it: fifty polls fill the grace period, because every sleep lasts at least a poll interval.
\<close>

theorem terminate_bounded: "tick (snd (terminate e q st)) \<le> tick st + 104"
proof -
  have tk: "tick (snd (kill e pid s st)) \<le> Suc (tick st)" for pid s st
    by (simp add: kill_def Let_def)
  have poll: "tick (snd (poll_until e q pid (clock st + TERM_GRACE_NS) st)) \<le> tick st + 100" for pid st
    using poll_until_bound [of "clock st + TERM_GRACE_NS" st 50 e q pid]
    by (simp add: TERM_GRACE_NS_def TERM_POLL_NS_def)
  have esc: "tick (snd (escalate_if_alive e q pid st)) \<le> tick st + 102" for pid st
  proof -
    obtain r1 st1 where p: "poll_until e q pid (clock st + TERM_GRACE_NS) st = (r1, st1)" by fastforce
    obtain r2 st2 where i: "pid_is_qemu e q pid st1 = (r2, st2)" by fastforce
    have "tick st1 \<le> tick st + 100" "tick st2 = Suc (tick st1)"
      using poll [of pid st] pid_is_qemu_frame(2) [of e q pid st1] p i by simp_all
    then show ?thesis
      using p i tk [of pid SigKill st2]
      by (auto simp: escalate_if_alive_def split: sum.split bool.split prod.split)
  qed
  have ul: "tick (unlink_pidfile e st) = tick st" for st by (simp add: unlink_pidfile_def)
  show ?thesis
  proof (cases "\<exists>pid. read_pid st = Inr (Some pid)")
    case False
    then show ?thesis by (auto simp: terminate_def ul split: sum.split option.split)
  next
    case True
    then obtain pid where pid: "read_pid st = Inr (Some pid)" by blast
    obtain r1 st1 where i: "pid_is_qemu e q pid st = (r1, st1)" by fastforce
    have t1: "tick st1 = Suc (tick st)" using pid_is_qemu_frame(2) [of e q pid st] i by simp
    obtain r2 st2 where k: "kill e pid SigTerm st1 = (r2, st2)" by fastforce
    have t2: "tick st2 \<le> tick st + 2" using tk [of pid SigTerm st1] k t1 by simp
    obtain r3 st3 where x: "escalate_if_alive e q pid st2 = (r3, st3)" by fastforce
    have "tick st3 \<le> tick st + 104" using esc [of pid st2] x t2 by simp
    with pid i k x t1 t2 show ?thesis
      by (auto simp: terminate_def ul split: sum.split bool.split kill_result.split)
  qed
qed

text \<open>
  An emulator that ignores the termination signal is killed. If the recorded process
  stays this instance's emulator and accepts signals, stopping reports success and sends the
  termination signal followed, after the grace period, by the kill signal.
\<close>

theorem terminate_escalates:
  assumes "read_pid st = Inr (Some pid)" and "0 \<le> pid" and "pid < 2 ^ 31"
    and "\<And>k. owned e q k pid" and "\<And>k s. e_kill e k pid s = KillOk"
  shows "\<exists>k. fst (terminate e q st) = Inr True
     \<and> sent (snd (terminate e q st)) = sent st @ [(Suc (tick st), pid, SigTerm), (k, pid, SigKill)]
     \<and> k \<le> tick st + 103"
proof -
  let ?st1 = "st\<lparr>tick := Suc (tick st)\<rparr>"
  have i: "pid_is_qemu e q pid st = (Inr True, ?st1)" by (rule owned_pid_is_qemu [OF assms(4)])
  have kill: "kill e pid s st' = (Inr KillOk, st'\<lparr>tick := Suc (tick st'),
      sent := sent st' @ (if s \<noteq> Sig0 then [(tick st', pid, s)] else [])\<rparr>)" for s st'
    using assms(2,3,5) by (simp add: kill_def)
  let ?st2 = "?st1\<lparr>tick := Suc (Suc (tick st)), sent := sent st @ [(Suc (tick st), pid, SigTerm)]\<rparr>"
  have k: "kill e pid SigTerm ?st1 = (Inr KillOk, ?st2)" by (simp add: kill)
  let ?dl = "clock ?st2 + TERM_GRACE_NS"
  obtain st3 where p: "poll_until e q pid ?dl ?st2 = (Inr True, st3)"
    using poll_until_stays [OF assms(4), of ?dl ?st2] by (cases "poll_until e q pid ?dl ?st2") auto
  have s3: "sent st3 = sent ?st2" using poll_until_frame [of e q pid ?dl ?st2] p by simp
  have t3: "tick st3 \<le> tick st + 102"
    using poll_until_bound [of ?dl ?st2 50 e q pid] p by (simp add: TERM_GRACE_NS_def TERM_POLL_NS_def)
  have i3: "pid_is_qemu e q pid st3 = (Inr True, st3\<lparr>tick := Suc (tick st3)\<rparr>)"
    by (rule owned_pid_is_qemu [OF assms(4)])
  have x: "escalate_if_alive e q pid ?st2 = (Inr (), st3\<lparr>tick := Suc (Suc (tick st3)),
      sent := sent st3 @ [(Suc (tick st3), pid, SigKill)]\<rparr>)"
    unfolding escalate_if_alive_def by (simp only: p prod.case sum.case bool.case i3) (simp add: kill)
  have "terminate e q st = (Inr True, unlink_pidfile e (st3\<lparr>tick := Suc (Suc (tick st3)),
      sent := sent st3 @ [(Suc (tick st3), pid, SigKill)]\<rparr>))"
    unfolding terminate_def
    by (simp only: assms(1) i k x prod.case sum.case bool.case option.case kill_result.case)
  then show ?thesis using s3 t3 by simp
qed

definition stubborn_env :: qenv where
  "stubborn_env = (sample_env 0)\<lparr>e_cmdline := (\<lambda>_ _. ReadOk own_cmdline)\<rparr>"

theorem terminate_escalates_witness:
  "\<exists>k. sent (snd (terminate stubborn_env \<lparr>host_adb_port = Some 5555\<rparr> sample_state))
     = [(1, 77, SigTerm), (k, 77, SigKill)]"
proof -
  let ?q = "\<lparr>host_adb_port = Some 5555\<rparr>"
  have "names_instance (Some 5555) own_cmdline" by code_simp
  then have own: "owned stubborn_env ?q k 77" for k
    by (simp add: owned_def stubborn_env_def)
  have kill: "e_kill stubborn_env k 77 s = KillOk" for k s
    by (simp add: stubborn_env_def sample_env_def)
  have rp: "read_pid sample_state = Inr (Some 77)" by code_simp
  show ?thesis
    using terminate_escalates [OF rp _ _ own kill] by (auto simp: sample_state_def)
qed

section \<open>Identity of a process\<close>

text \<open>The text of \<open>/proc/<pid>/cmdline\<close>: every argument followed by a zero byte.\<close>

definition proc_cmdline :: "string list \<Rightarrow> string" where
  "proc_cmdline argv = concat (map (\<lambda>a. a @ [CHR 0x00]) argv)"

lemma contains_cmdline:
  assumes "CHR 0x00 \<notin> set p" and "p \<noteq> []"
  shows "contains (proc_cmdline argv) p \<longleftrightarrow> (\<exists>a\<in>set argv. contains a p)"
proof (induction argv)
  case (Cons a argv)
  have "contains (proc_cmdline (a # argv)) p \<longleftrightarrow> contains a p \<or> contains (proc_cmdline argv) p"
  proof
    assume "contains (proc_cmdline (a # argv)) p"
    then have "sublist p (a @ CHR 0x00 # proc_cmdline argv)"
      by (simp add: contains_iff proc_cmdline_def)
    then consider "sublist p a" | "sublist p (CHR 0x00 # proc_cmdline argv)"
      | xs ys where "p = xs @ ys" "suffix xs a" "prefix ys (CHR 0x00 # proc_cmdline argv)"
      by (auto simp: sublist_append)
    then show "contains a p \<or> contains (proc_cmdline argv) p"
    proof cases
      case 1
      then show ?thesis by (simp add: contains_iff)
    next
      case 2
      then show ?thesis
        using assms by (auto simp: sublist_Cons_right prefix_Cons contains_iff)
    next
      case 3
      then have "ys = []" using assms(1) by (auto simp: prefix_Cons)
      with 3 show ?thesis by (auto simp: contains_iff suffix_imp_sublist)
    qed
  next
    assume "contains a p \<or> contains (proc_cmdline argv) p"
    then show "contains (proc_cmdline (a # argv)) p"
      using contains_append [of a p "[CHR 0x00] @ proc_cmdline argv"]
        contains_append [of "[CHR 0x00]" p "proc_cmdline argv"]
      by (auto simp: proc_cmdline_def)
  qed
  then show ?case using Cons.IH by simp
qed (simp add: proc_cmdline_def assms)

text \<open>The arguments that come from the configuration rather than from the code.\<close>

definition user_args :: "qemu_args \<Rightarrow> string list" where
  "user_args a = [q_bin a, q_kernel a, drive_arg a]
     @ (case q_monitor a of None \<Rightarrow> [] | Some m \<Rightarrow> [''unix:'' @ m @ '',server,nowait''])
     @ (case q_loadvm a of None \<Rightarrow> [] | Some t \<Rightarrow> [t])"

abbreviation fwd_token :: "int \<Rightarrow> string" where
  "fwd_token port \<equiv> ''hostfwd=tcp:127.0.0.1:'' @ str_of_int port @ ''-''"

lemma not_contains_char: "c \<in> set p \<Longrightarrow> c \<notin> set s \<Longrightarrow> \<not> contains s p"
  using contains_set by blast

lemma str_of_int_no_h [simp]: "CHR ''h'' \<notin> set (str_of_int i)"
  using str_of_int_digits_or_minus [of "CHR ''h''" i] by (auto simp: is_digit_def)

lemma startswith_strip: "startswith (a @ s) (a @ p) = startswith s p"
  by (induction a) auto

lemma port_token_inject:
  assumes "0 \<le> p" and "0 \<le> r"
  shows "startswith (str_of_int r @ ''-:5555'') (str_of_int p @ ''-'') \<longleftrightarrow> p = r"
proof
  assume "startswith (str_of_int r @ ''-:5555'') (str_of_int p @ ''-'')"
  then obtain z where z: "str_of_int r @ ''-:5555'' = str_of_int p @ ''-'' @ z"
    by (auto simp: startswith_iff)
  have d: "CHR ''-'' \<notin> set (dec p)" "CHR ''-'' \<notin> set (dec r)"
    using dec_no_special [of p "CHR ''-''"] dec_no_special [of r "CHR ''-''"] assms by auto
  have "takeWhile (\<lambda>c. c \<noteq> CHR ''-'') (dec r @ CHR ''-'' # '':5555'') = dec r"
    "takeWhile (\<lambda>c. c \<noteq> CHR ''-'') (dec p @ CHR ''-'' # z) = dec p"
    using d by (auto simp: takeWhile_append takeWhile_eq_all_conv)
  with z assms have "dec r = dec p" by (simp add: str_of_int_nonneg)
  then show "p = r" using dec_inject assms by blast
next
  assume "p = r"
  then show "startswith (str_of_int r @ ''-:5555'') (str_of_int p @ ''-'')"
    by (simp add: startswith_strip)
qed

lemma netdev_token:
  assumes "0 \<le> p" and "0 \<le> r"
  shows "contains (''user,id=net0,'' @ hostfwd r) (fwd_token p) \<longleftrightarrow> p = r"
proof -
  have five: "str_of_int GUEST_ADB_PORT = ''5555''" by code_simp
  have "\<not> contains (str_of_int r @ ''-:5555'') (fwd_token p)"
    by (rule not_contains_char [of "CHR ''h''"]) auto
  with port_token_inject [OF assms] show ?thesis by (simp add: hostfwd_def five)
qed

lemma token_shape: "CHR 0x00 \<notin> set (fwd_token p)" "fwd_token p \<noteq> []"
  using str_of_int_digits_or_minus [of "CHR 0x00" p] by (auto simp: is_digit_def)

lemma token_contains: "contains s (fwd_token p) \<Longrightarrow> contains s ''hostfwd=tcp:''"
  by (auto simp: contains_iff sublist_def)

text \<open>The arguments the code writes itself; none of them can hold a forwarding token.\<close>

definition fixed_args :: "string list" where
  "fixed_args = [''-M'', ''q35'', ''-accel'', ''kvm'', ''-cpu'', ''host'', ''tcg,thread=multi,tb-size=1024'',
     ''max'', ''-smp'', ''-m'', ''-nographic'', ''-display'', ''none'', ''-no-reboot'', ''-kernel'', ''-drive'',
     ''-netdev'', ''-device'', ''virtio-net-pci,netdev=net0'', ''-monitor'', ''-loadvm'', ''-append'',
     ''console=ttyS0 root=/dev/vda rw init=/init panic=1 mitigations=off'']"

lemma argv_parts:
  "set (build_qemu_argv a) \<subseteq> {''user,id=net0,'' @ hostfwd (q_adb_port a), str_of_int (q_smp a),
     str_of_int (q_memory_mib a)} \<union> set (user_args a) \<union> set fixed_args"
  unfolding build_qemu_argv_def user_args_def fixed_args_def accel_args_def
  by (cases "q_accel a"; cases "q_monitor a"; cases "q_loadvm a") simp_all

lemma argv_token:
  assumes "\<And>s. s \<in> set (user_args a) \<Longrightarrow> \<not> contains s ''hostfwd=tcp:''" and "0 \<le> p" and "0 \<le> q_adb_port a"
  shows "contains (proc_cmdline (build_qemu_argv a)) (fwd_token p) \<longleftrightarrow> p = q_adb_port a"
proof -
  let ?net = "''user,id=net0,'' @ hostfwd (q_adb_port a)"
  have fixed: "CHR ''7'' \<notin> set s" if "s \<in> set fixed_args" for s
  proof -
    have "list_all (\<lambda>s. CHR ''7'' \<notin> set s) fixed_args" by code_simp
    with that show ?thesis by (simp add: list_all_iff)
  qed
  have other: "\<not> contains s (fwd_token p)" if s: "s \<in> set (build_qemu_argv a)" "s \<noteq> ?net" for s
  proof -
    from s argv_parts [of a] consider "s \<in> set (user_args a)" | "s \<in> set fixed_args"
      | i where "s = str_of_int i" by blast
    then show ?thesis
    proof cases
      case 1
      then show ?thesis using assms(1) token_contains by blast
    next
      case 2
      then show ?thesis using fixed by (intro not_contains_char [of "CHR ''7''"]) simp_all
    next
      case 3
      then show ?thesis by (intro not_contains_char [of "CHR ''h''"]) simp_all
    qed
  qed
  have "?net \<in> set (build_qemu_argv a)" by (simp add: build_qemu_argv_def)
  then show ?thesis
    unfolding contains_cmdline [OF token_shape]
    using other netdev_token [OF assms(2,3)] by blast
qed


definition sample_args :: qemu_args where
  "sample_args = \<lparr>q_bin = ''qemu-system-x86_64'', q_accel = Tcg, q_kernel = ''/a/bzImage'',
     q_rootfs = ''/a/rootfs.img'', q_smp = 4, q_memory_mib = 4096, q_adb_port = 5565,
     q_disk_format = ''raw'', q_disk_cache = None, q_monitor = None, q_loadvm = None\<rparr>"

lemma sample_args_quiet: "s \<in> set (user_args sample_args) \<Longrightarrow> \<not> contains s ''hostfwd=tcp:''"
proof -
  have "list_all (\<lambda>s. \<not> contains s ''hostfwd=tcp:'') (user_args sample_args)" by code_simp
  then show "s \<in> set (user_args sample_args) \<Longrightarrow> \<not> contains s ''hostfwd=tcp:''"
    by (simp add: list_all_iff)
qed


section \<open>Launching\<close>

lemma start_records:
  assumes "start e q argv st = (Inr pid, st')"
  shows "pidfile st' = Some (ReadOk (str_of_int pid)) \<and> (pid, argv) \<in> set (spawned st')"
  using assms by (auto simp: start_def Let_def split: prod.splits sum.splits bool.splits if_splits option.splits)

lemma read_pid_written:
  assumes "pidfile st = Some (ReadOk (str_of_int pid))" and "0 \<le> pid" and "pid < 2 ^ 31"
  shows "read_pid st = Inr (Some pid)"
proof -
  have "(10::int) ^ 4300 \<ge> 10 ^ 10" by (rule power_increasing) simp_all
  moreover have "pid < 10 ^ 10" using assms(3) by simp
  ultimately have "py_int (dec pid) = Some pid" using py_int_dec [of pid] assms(2) by linarith
  then show ?thesis
    using assms(1,2) by (simp add: read_pid_def str_of_int_nonneg strip_dec)
qed

text \<open>
  An instance never gets two emulators. After a successful launch, as long as the spawned
  process is there under its own command line, a second launch for the instance is refused
  with the process id of the first and spawns nothing.
\<close>

theorem start_refuses_second:
  assumes "start e q (build_qemu_argv a) st = (Inr pid, st')" and "0 \<le> pid" and "pid < 2 ^ 31"
    and "host_adb_port q = Some (q_adb_port a)" and "0 \<le> q_adb_port a"
    and "contains (q_bin a) ''qemu-system''"
    and "\<And>s. s \<in> set (user_args a) \<Longrightarrow> \<not> contains s ''hostfwd=tcp:''"
    and "\<And>k. e_cmdline e k pid = ReadOk (proc_cmdline (build_qemu_argv a))"
    and "\<And>k. e_kill e k pid Sig0 = KillOk"
  shows "fst (start e q argv st') = Inl (AlreadyRunning (Some pid))
     \<and> spawned (snd (start e q argv st')) = spawned st'"
proof -
  have rp: "read_pid st' = Inr (Some pid)"
    using read_pid_written start_records [OF assms(1)] assms(2,3) by blast
  then have rp': "read_pid (st'\<lparr>tick := k\<rparr>) = Inr (Some pid)" for k
    by (simp add: read_pid_def)
  have "names_instance (host_adb_port q) (proc_cmdline (build_qemu_argv a))"
    using argv_token [OF assms(7,5,5)] contains_cmdline [of "''qemu-system''" "build_qemu_argv a"]
      assms(4,6) by (simp add: names_instance_def build_qemu_argv_def)
  then have own: "owned e q k pid" for k using assms(8) by (simp add: owned_def)
  have "is_running e q st' = (Inr True, st'\<lparr>tick := Suc (Suc (tick st'))\<rparr>)"
    using assms(2,3,9) rp by (simp add: is_running_def kill_def Let_def owned_pid_is_qemu [OF own])
  then show ?thesis using rp' by (simp add: start_def)
qed

definition launch_env :: qenv where
  "launch_env = (sample_env 0)\<lparr>e_cmdline := (\<lambda>_ _. ReadOk (proc_cmdline (build_qemu_argv sample_args)))\<rparr>"

theorem start_refuses_second_witness:
  "\<exists>st'. start launch_env \<lparr>host_adb_port = Some 5565\<rparr> (build_qemu_argv sample_args)
        (sample_state\<lparr>pidfile := None\<rparr>) = (Inr 77, st')
     \<and> fst (start launch_env \<lparr>host_adb_port = Some 5565\<rparr> [''qemu''] st') = Inl (AlreadyRunning (Some 77))"
proof -
  let ?q = "\<lparr>host_adb_port = Some (5565::int)\<rparr>"
  let ?s = "start launch_env ?q (build_qemu_argv sample_args) (sample_state\<lparr>pidfile := None\<rparr>)"
  have "fst ?s = Inr 77"
    by (simp add: start_def is_running_def read_pid_def launch_env_def sample_env_def Let_def)
  then obtain st' where s: "?s = (Inr 77, st')" by (cases ?s) auto
  have b: "contains (q_bin sample_args) ''qemu-system''" by code_simp
  have c: "e_cmdline launch_env k 77 = ReadOk (proc_cmdline (build_qemu_argv sample_args))"
    "e_kill launch_env k 77 Sig0 = KillOk" for k
    by (simp_all add: launch_env_def sample_env_def)
  have p: "host_adb_port ?q = Some (q_adb_port sample_args)" "0 \<le> q_adb_port sample_args"
    by (simp_all add: sample_args_def)
  show ?thesis
    using start_refuses_second [OF s _ _ p b sample_args_quiet c, of "[''qemu'']"] s by simp
qed

section \<open>Accelerator and virtual CPUs\<close>

text \<open>
  The accelerator is never a surprise. Resolution fails exactly when hardware
  acceleration was demanded of a host that cannot give it, never replaces a demanded
  accelerator by the other one, and the automatic choice uses hardware exactly when the host
  has the guest's architecture and a usable device.
\<close>

theorem detect_accel_spec:
  "detect_accel machine usable req =
     (let can = host_is_guest_arch machine \<and> usable
      in case req of
           AccelTcg \<Rightarrow> Inr Tcg
         | AccelAuto \<Rightarrow> Inr (if can then Kvm else Tcg)
         | AccelKvm \<Rightarrow> if can then Inr Kvm
                       else Inl (if host_is_guest_arch machine then KvmUnusable else KvmWrongArch machine))"
  by (cases req) (auto simp: detect_accel_def Let_def)

text \<open>
  The kernel's CPU listing: per processor a block of \<open>key : value\<close> lines closed by an empty
  line. Keys may be padded.
\<close>

type_synonym cpu_block = "(string \<times> string) list"

definition norm_block :: "cpu_block \<Rightarrow> (string, string) dict" where
  "norm_block b = map (\<lambda>(k, v). (strip k, strip v)) b"

definition wf_block :: "cpu_block \<Rightarrow> bool" where
  "wf_block b \<longleftrightarrow> dict_wf (norm_block b)
     \<and> dict_get (norm_block b) ''physical id'' \<noteq> None \<and> dict_get (norm_block b) ''core id'' \<noteq> None
     \<and> (\<forall>(k, v)\<in>set b. CHR '':'' \<notin> set k \<and> (\<forall>c\<in>set (k @ v). \<not> is_linebreak c))"

definition block_core :: "cpu_block \<Rightarrow> string \<times> string" where
  "block_core b = (the (dict_get (norm_block b) ''physical id''), the (dict_get (norm_block b) ''core id''))"

definition block_lines :: "cpu_block \<Rightarrow> string list" where
  "block_lines b = map (\<lambda>(k, v). k @ '':'' @ v) b @ [[]]"

definition cpuinfo_text :: "cpu_block list \<Rightarrow> string" where
  "cpuinfo_text bs = concat (map (\<lambda>l. l @ [CHR 0x0A]) (concat (map block_lines bs)))"

lemma fold_entries:
  assumes "dict_wf (norm_block b)" and "\<forall>(k, v)\<in>set b. CHR '':'' \<notin> set k"
  shows "fold cpuinfo_line (map (\<lambda>(k, v). k @ '':'' @ v) b) st = st
    \<lparr>phys := (case dict_get (norm_block b) ''physical id'' of Some p \<Rightarrow> Some p | None \<Rightarrow> phys st),
     core := (case dict_get (norm_block b) ''core id'' of Some c \<Rightarrow> Some c | None \<Rightarrow> core st)\<rparr>"
  using assms
proof (induction b arbitrary: st)
  case (Cons kv b)
  obtain k v where kv: "kv = (k, v)" by (cases kv)
  have wf: "dict_wf (norm_block b)" "strip k \<notin> set (dict_keys (norm_block b))"
    using Cons.prems(1) by (auto simp: kv norm_block_def dict_wf_def)
  have none: "dict_get (norm_block b) (strip k) = None"
    using wf(2) by (simp add: map_of_eq_None_iff)
  have line: "cpuinfo_line (k @ '':'' @ v) st = (if strip k = ''physical id'' then st\<lparr>phys := Some (strip v)\<rparr>
      else if strip k = ''core id'' then st\<lparr>core := Some (strip v)\<rparr> else st)"
    using Cons.prems(2) str_partition_append [of "CHR '':''" k v] by (simp add: kv cpuinfo_line_def)
  show ?case
    using Cons.IH [OF wf(1)] Cons.prems(2) none line
    by (auto simp: kv norm_block_def split: option.splits)
qed (simp add: norm_block_def)

lemma fold_block:
  assumes "wf_block b"
  shows "fold cpuinfo_line (block_lines b) st
    = st\<lparr>cores := List.insert (block_core b) (cores st), phys := None, core := None\<rparr>"
proof -
  obtain p c where pc: "dict_get (norm_block b) ''physical id'' = Some p"
    "dict_get (norm_block b) ''core id'' = Some c" using assms by (auto simp: wf_block_def)
  have f: "fold cpuinfo_line (map (\<lambda>(k, v). k @ '':'' @ v) b) st = st\<lparr>phys := Some p, core := Some c\<rparr>"
    using fold_entries [of b st] assms pc by (auto simp: wf_block_def)
  show ?thesis
    unfolding block_lines_def fold_append comp_def f
    by (simp add: cpuinfo_line_def str_partition_def close_block_def block_core_def pc)
qed

lemma fold_blocks:
  assumes "list_all wf_block bs" and "distinct (cores st)" and "phys st = None" and "core st = None"
  shows "set (cores (fold cpuinfo_line (concat (map block_lines bs)) st)) = set (cores st) \<union> block_core ` set bs
    \<and> distinct (cores (fold cpuinfo_line (concat (map block_lines bs)) st))
    \<and> phys (fold cpuinfo_line (concat (map block_lines bs)) st) = None
    \<and> core (fold cpuinfo_line (concat (map block_lines bs)) st) = None"
  using assms
proof (induction bs arbitrary: st)
  case (Cons b bs)
  then show ?case
    using Cons.IH [of "st\<lparr>cores := List.insert (block_core b) (cores st), phys := None, core := None\<rparr>"]
    by (auto simp: fold_block)
qed simp

text \<open>
  The count of physical cores is right. On a well-formed CPU listing it is the number of
  distinct pairs of socket and core, so that hardware threads of one core count once, and an
  automatic CPU count is at least one and at most the CPUs the process may run on.
\<close>

theorem physical_cores_counted:
  assumes "list_all wf_block bs" and "bs \<noteq> []" and "cpuinfo c = ReadOk (cpuinfo_text bs)"
  shows "cpuinfo_physical_cores (cpuinfo c) = Inr (Some (int (card (block_core ` set bs))))
    \<and> resolve_smp c SmpAuto = Inr (min (int (card (block_core ` set bs))) (affinity_cpu_count c))
    \<and> 1 \<le> min (int (card (block_core ` set bs))) (affinity_cpu_count c)"
proof -
  have brk: "\<not> is_linebreak ch" if l: "l \<in> set (concat (map block_lines bs))" and ch: "ch \<in> set l" for l ch
  proof -
    have colon: "\<not> is_linebreak (CHR '':'')" by (simp add: is_linebreak_def)
    obtain b where b: "b \<in> set bs" "l \<in> set (block_lines b)" using l by auto
    then obtain k v where kv: "(k, v) \<in> set b" "l = k @ '':'' @ v"
      using ch by (auto simp: block_lines_def)
    have "wf_block b" using b(1) assms(1) by (simp add: list_all_iff)
    with kv(1) have "\<forall>c\<in>set (k @ v). \<not> is_linebreak c" by (auto simp: wf_block_def)
    with ch colon show ?thesis unfolding kv(2) by auto
  qed
  have sl: "splitlines (cpuinfo_text bs) = concat (map block_lines bs)"
    unfolding cpuinfo_text_def by (rule splitlines_unlines) (rule brk)
  let ?st = "fold cpuinfo_line (concat (map block_lines bs)) \<lparr>cores = [], phys = None, core = None\<rparr>"
  have st: "set (cores ?st) = block_core ` set bs" "distinct (cores ?st)" "phys ?st = None"
    using fold_blocks [OF assms(1), of "\<lparr>cores = [], phys = None, core = None\<rparr>"] by auto
  have n: "length (cores (close_block ?st)) = card (block_core ` set bs)"
    using st distinct_card [of "cores ?st"] by (simp add: close_block_def)
  have pos: "0 < card (block_core ` set bs)" using assms(2) by (simp add: card_gt_0_iff)
  have pc: "cpuinfo_physical_cores (cpuinfo c) = Inr (Some (int (card (block_core ` set bs))))"
    unfolding cpuinfo_physical_cores_def assms(3) Let_def sl read_result.case n using assms(2) by simp
  have "1 \<le> affinity_cpu_count c" by (simp add: affinity_cpu_count_def split: option.split)
  then show ?thesis using pos pc by (simp add: resolve_smp_def host_physical_cores_def)
qed

text \<open>Two threads of core 0 and one of core 1, on one socket.\<close>

definition smt_blocks :: "cpu_block list" where
  "smt_blocks = (let b = \<lambda>n c. [(''processor'' @ [CHR 0x09], '' '' @ n), (''physical id'' @ [CHR 0x09], '' 0''),
      (''core id'' @ [CHR 0x09, CHR 0x09], '' '' @ c)] in [b ''0'' ''0'', b ''1'' ''0'', b ''2'' ''1''])"

theorem physical_cores_counted_witness:
  "resolve_smp \<lparr>affinity = Some 8, cpu_count = None, cpuinfo = ReadOk (cpuinfo_text smt_blocks)\<rparr> SmpAuto = Inr 2"
proof -
  let ?c = "\<lparr>affinity = Some 8, cpu_count = None, cpuinfo = ReadOk (cpuinfo_text smt_blocks)\<rparr>"
  have "list_all (\<lambda>b. dict_wf (norm_block b)
     \<and> dict_get (norm_block b) ''physical id'' \<noteq> None \<and> dict_get (norm_block b) ''core id'' \<noteq> None
     \<and> list_all (\<lambda>(k, v). CHR '':'' \<notin> set k \<and> list_all (\<lambda>c. \<not> is_linebreak c) (k @ v)) b) smt_blocks"
    by code_simp
  then have wf: "list_all wf_block smt_blocks"
    by (simp add: list_all_iff wf_block_def case_prod_beta)
  have ne: "smt_blocks \<noteq> []" by code_simp
  have "remdups (map block_core smt_blocks) = [(''0'', ''0''), (''0'', ''1'')]" by code_simp
  then have "card (block_core ` set smt_blocks) = 2"
    by (metis card_set set_map length_Cons list.size(3) numeral_2_eq_2)
  then show ?thesis
    using physical_cores_counted [OF wf ne, of ?c] by (simp add: affinity_cpu_count_def)
qed

text \<open>
  A pidfile holding a number beyond the C range makes the liveness test raise, although a
  corrupted pidfile is documented to count as no process.
\<close>

theorem huge_pid_raises:
  "fst (is_running e q (st\<lparr>pidfile := Some (ReadOk ''99999999999999999999'')\<rparr>)) = Inl OverflowErr"
proof -
  have "py_int (strip ''99999999999999999999'') = Some 99999999999999999999" by code_simp
  then show ?thesis by (simp add: is_running_def read_pid_def kill_def)
qed

end
