(* ===== verification/Capabilities.thy ===== *)
theory Capabilities
  imports Qemu
begin

text \<open>
  \<open>capabilities.py\<close>: which run modes work on this host. The classification is the code's;
  the probes (binaries on the path, the daemon's answer, the host files) are an argument.
\<close>

section \<open>Probes\<close>

text \<open>\<open>module_settings\<close> were read at import, \<open>fresh_settings\<close> are what \<open>Settings()\<close> reads now.\<close>

datatype run_result = Exited int | RunRaises

record settings =
  docker_bin :: string
  qemu_bin :: string

record host =
  files :: host_files
  which :: "string \<Rightarrow> bool"
  docker_info :: "string \<Rightarrow> run_result"
  machine :: string
  kvm_usable :: bool
  module_settings :: settings
  fresh_settings :: settings

definition docker_daemon_responsive :: "host \<Rightarrow> bool" where
  "docker_daemon_responsive h = (case docker_info h (docker_bin (module_settings h)) of
     Exited n \<Rightarrow> n = 0 | RunRaises \<Rightarrow> False)"

section \<open>Verdicts\<close>

datatype mode = ModeRedroidHost | ModeVmKvm | ModeVmTcg | ModeAdb

datatype mode_status = Supported | NeedsSetup | ModeUnsupported | ModeUnknown

record mode_support =
  ms_mode :: mode
  ms_status :: mode_status
  ms_reason :: string
  ms_remedy :: string

definition QEMU_INSTALL :: string where
  "QEMU_INSTALL = ''install QEMU (e.g. `apt-get install qemu-system-x86`), then `beetroot build --vm-kernel`''"

definition BUILD_HINT :: string where
  "BUILD_HINT = ''build artifacts with `beetroot build --vm-kernel`''"

definition ADB_NEEDS_DEVICE :: string where
  "ADB_NEEDS_DEVICE = ''needs an external rooted device/emulator to adopt''"

definition redroid_host :: "string \<Rightarrow> binder_status \<Rightarrow> bool \<Rightarrow> bool \<Rightarrow> bool \<Rightarrow> mode_support" where
  "redroid_host mach status docker docker_daemon host_is_x86_64 =
     (let v = (\<lambda>s r m. \<lparr>ms_mode = ModeRedroidHost, ms_status = s, ms_reason = r, ms_remedy = m\<rparr>)
      in if \<not> host_is_x86_64 then
           v ModeUnsupported
             (''host is '' @ mach @ ''; Beetroot's redroid image is x86_64 and ''
              @ ''runs natively against the host kernel (no emulation), so it can't boot here'')
             ''use `binder: vm` (TCG cross-arch emulation), or run on an x86_64 host''
         else case bs_state status of
           Ready \<Rightarrow>
             if \<not> docker then
               v NeedsSetup ''host binder is ready, but the Docker CLI was not found''
                 ''install Docker and ensure the daemon is running''
             else if \<not> docker_daemon then
               v NeedsSetup (''host binder is ready and the Docker CLI is present, but the ''
                   @ ''Docker daemon is not responding'')
                 ''start the Docker daemon''
             else v Supported (bs_reason status) ''''
         | Loadable \<Rightarrow> v NeedsSetup (bs_reason status) (bs_remedy status)
         | Unsupported \<Rightarrow> v ModeUnsupported (bs_reason status) (bs_remedy status)
         | Unknown \<Rightarrow> v ModeUnknown (bs_reason status) (bs_remedy status))"

definition vm_kvm :: "string \<Rightarrow> bool \<Rightarrow> bool \<Rightarrow> bool \<Rightarrow> mode_support" where
  "vm_kvm mach kvm qemu_present host_is_x86_64 =
     (let v = (\<lambda>s r m. \<lparr>ms_mode = ModeVmKvm, ms_status = s, ms_reason = r, ms_remedy = m\<rparr>)
      in if \<not> host_is_x86_64 then
           v ModeUnsupported
             (''host is '' @ mach @ ''; KVM cannot accelerate the x86_64 guest ''
              @ ''(KVM only virtualizes the host's native arch) '' @ em_dash @ '' use the TCG path'')
             ''use the `binder: vm` TCG path (cross-arch software emulation), no KVM needed''
         else if \<not> kvm then
           v ModeUnsupported
             (''no usable /dev/kvm '' @ em_dash @ '' hardware acceleration is unavailable here'')
             ''use the TCG path (slower, no KVM needed), or a host/runner exposing /dev/kvm''
         else if \<not> qemu_present then
           v NeedsSetup ''/dev/kvm is usable but the QEMU system emulator was not found'' QEMU_INSTALL
         else v Supported (''KVM available and QEMU installed (near-native); '' @ BUILD_HINT) '''')"

definition vm_tcg :: "string \<Rightarrow> bool \<Rightarrow> bool \<Rightarrow> mode_support" where
  "vm_tcg mach qemu_present host_is_x86_64 =
     (let v = (\<lambda>s r m. \<lparr>ms_mode = ModeVmTcg, ms_status = s, ms_reason = r, ms_remedy = m\<rparr>);
          speed = (if \<not> host_is_x86_64
            then ''cross-arch x86_64 emulation on '' @ mach @ '' '' @ em_dash @ '' even slower than native-arch TCG''
            else ''software emulation (~5-20x slower, no KVM needed)'')
      in if \<not> qemu_present
         then v NeedsSetup (''the QEMU system emulator was not found ('' @ speed @ '')'') QEMU_INSTALL
         else v Supported (''QEMU installed; '' @ speed @ '' '' @ em_dash @ '' '' @ BUILD_HINT) '''')"

definition adb_adopt :: "bool \<Rightarrow> mode_support" where
  "adb_adopt adb_present =
     (let v = (\<lambda>s r m. \<lparr>ms_mode = ModeAdb, ms_status = s, ms_reason = r, ms_remedy = m\<rparr>)
      in if \<not> adb_present
         then v NeedsSetup ''the adb client was not found''
           (''install platform-tools (e.g. `apt-get install android-tools-adb`); '' @ ADB_NEEDS_DEVICE)
         else v Supported ''drives an external rooted device over adb; needs no host kernel/binder/Docker''
           (ADB_NEEDS_DEVICE @ '' '' @ em_dash @ '' point it at one: `beetroot adopt <serial|host:port>`''))"

definition classify_modes :: "string \<Rightarrow> binder_status \<Rightarrow> bool \<Rightarrow> bool \<Rightarrow> bool \<Rightarrow> bool \<Rightarrow> bool \<Rightarrow> bool
    \<Rightarrow> mode_support list" where
  "classify_modes mach status kvm qemu_present docker docker_daemon adb_present host_is_x86_64 =
     [redroid_host mach status docker docker_daemon host_is_x86_64,
      vm_kvm mach kvm qemu_present host_is_x86_64,
      vm_tcg mach qemu_present host_is_x86_64,
      adb_adopt adb_present]"

definition survey :: "host \<Rightarrow> settings option \<Rightarrow> probe_error + mode_support list" where
  "survey h injected =
     (let cfg = (case injected of Some s \<Rightarrow> s | None \<Rightarrow> fresh_settings h);
          docker_present = which h (docker_bin cfg)
      in and_then (get_binder_status (files h)) (\<lambda>status.
         Inr (classify_modes (machine h) status
           (detect_accel (machine h) (kvm_usable h) AccelAuto = Inr Kvm)
           (which h (qemu_bin cfg)) docker_present
           (docker_present \<and> docker_daemon_responsive h)
           (which h ''adb'') (host_is_guest_arch (machine h)))))"

section \<open>The matrix agrees with what the run time does\<close>

definition status_of :: "mode \<Rightarrow> mode_support list \<Rightarrow> mode_status option" where
  "status_of m rows = map_option ms_status (find (\<lambda>r. ms_mode r = m) rows)"

lemmas verdict_defs = redroid_host_def vm_kvm_def vm_tcg_def adb_adopt_def Let_def

lemma verdict_modes [simp]:
  "ms_mode (redroid_host a b c d e) = ModeRedroidHost" "ms_mode (vm_kvm a k q x) = ModeVmKvm"
  "ms_mode (vm_tcg a q x) = ModeVmTcg" "ms_mode (adb_adopt p) = ModeAdb"
  by (simp_all add: verdict_defs split: binder_state.split)

lemma survey_rows:
  assumes "survey h given = Inr rows"
  obtains s where "get_binder_status (files h) = Inr s"
    and "rows = classify_modes (machine h) s (detect_accel (machine h) (kvm_usable h) AccelAuto = Inr Kvm)
      (which h (qemu_bin (case given of Some s \<Rightarrow> s | None \<Rightarrow> fresh_settings h)))
      (which h (docker_bin (case given of Some s \<Rightarrow> s | None \<Rightarrow> fresh_settings h)))
      (which h (docker_bin (case given of Some s \<Rightarrow> s | None \<Rightarrow> fresh_settings h)) \<and> docker_daemon_responsive h)
      (which h ''adb'') (host_is_guest_arch (machine h))"
  using assms by (auto simp: survey_def Let_def and_then_Inr_iff)

text \<open>
  C32: the support matrix agrees with what a launch does. The container row is supported only
  if the start preflight proceeds in both host modes and the Docker daemon answers; the
  hardware-accelerated row is supported exactly when the emulator is installed and a demanded
  KVM resolves, and is unsupported exactly when that demand fails; the emulated row is never
  unsupported.
\<close>

theorem survey_agrees_with_launch:
  assumes "survey h None = Inr rows" and "get_binder_status (files h) = Inr s"
  shows "(status_of ModeRedroidHost rows = Some Supported \<longrightarrow>
       bp_action (plan_binder_runtime BinderAuto s) = Proceed
       \<and> bp_action (plan_binder_runtime BinderHost s) = Proceed \<and> docker_daemon_responsive h)
    \<and> (status_of ModeVmKvm rows = Some Supported \<longleftrightarrow>
       which h (qemu_bin (fresh_settings h)) \<and> detect_accel (machine h) (kvm_usable h) AccelKvm = Inr Kvm)
    \<and> (status_of ModeVmKvm rows = Some ModeUnsupported \<longleftrightarrow>
       (\<exists>e. detect_accel (machine h) (kvm_usable h) AccelKvm = Inl e))
    \<and> (status_of ModeVmTcg rows = Some Supported \<longleftrightarrow> which h (qemu_bin (fresh_settings h)))
    \<and> status_of ModeVmTcg rows \<noteq> Some ModeUnsupported"
proof -
  have rows: "rows = classify_modes (machine h) s (detect_accel (machine h) (kvm_usable h) AccelAuto = Inr Kvm)
      (which h (qemu_bin (fresh_settings h))) (which h (docker_bin (fresh_settings h)))
      (which h (docker_bin (fresh_settings h)) \<and> docker_daemon_responsive h)
      (which h ''adb'') (host_is_guest_arch (machine h))"
    using assms by (elim survey_rows) simp
  have st: "status_of ModeRedroidHost rows = Some (ms_status (redroid_host (machine h) s
        (which h (docker_bin (fresh_settings h)))
        (which h (docker_bin (fresh_settings h)) \<and> docker_daemon_responsive h) (host_is_guest_arch (machine h))))"
    "status_of ModeVmKvm rows = Some (ms_status (vm_kvm (machine h)
        (detect_accel (machine h) (kvm_usable h) AccelAuto = Inr Kvm)
        (which h (qemu_bin (fresh_settings h))) (host_is_guest_arch (machine h))))"
    "status_of ModeVmTcg rows = Some (ms_status (vm_tcg (machine h)
        (which h (qemu_bin (fresh_settings h))) (host_is_guest_arch (machine h))))"
    by (simp_all add: rows classify_modes_def status_of_def)
  have "bp_action (plan_binder_runtime BinderAuto s) = Proceed
       \<and> bp_action (plan_binder_runtime BinderHost s) = Proceed \<and> docker_daemon_responsive h"
    if "status_of ModeRedroidHost rows = Some Supported"
    using that unfolding st
    by (auto simp: redroid_host_def Let_def plan_binder_runtime_def available_def
        split: if_splits binder_state.splits)
  moreover have "status_of ModeVmKvm rows = Some Supported \<longleftrightarrow>
       which h (qemu_bin (fresh_settings h)) \<and> detect_accel (machine h) (kvm_usable h) AccelKvm = Inr Kvm"
    unfolding st by (auto simp: vm_kvm_def Let_def detect_accel_def)
  moreover have "status_of ModeVmKvm rows = Some ModeUnsupported \<longleftrightarrow>
       (\<exists>e. detect_accel (machine h) (kvm_usable h) AccelKvm = Inl e)"
    unfolding st by (auto simp: vm_kvm_def Let_def detect_accel_def)
  moreover have "status_of ModeVmTcg rows = Some Supported \<longleftrightarrow> which h (qemu_bin (fresh_settings h))"
    "status_of ModeVmTcg rows \<noteq> Some ModeUnsupported"
    unfolding st by (auto simp: vm_tcg_def Let_def)
  ultimately show ?thesis by blast
qed

definition ci_host :: host where
  "ci_host = \<lparr>files = bare_host, which = (\<lambda>b. b = ''qemu-system-x86_64''), docker_info = (\<lambda>_. RunRaises),
     machine = ''x86_64'', kvm_usable = True,
     module_settings = \<lparr>docker_bin = ''docker'', qemu_bin = ''qemu-system-x86_64''\<rparr>,
     fresh_settings = \<lparr>docker_bin = ''docker'', qemu_bin = ''qemu-system-x86_64''\<rparr>\<rparr>"

theorem survey_agrees_with_launch_witness:
  "\<exists>rows. survey ci_host None = Inr rows \<and> status_of ModeVmKvm rows = Some Supported
     \<and> detect_accel ''x86_64'' True AccelKvm = Inr Kvm"
proof -
  have "case survey ci_host None of Inr rows \<Rightarrow> status_of ModeVmKvm rows = Some Supported | Inl _ \<Rightarrow> False"
    by code_simp
  then obtain rows where r: "survey ci_host None = Inr rows" "status_of ModeVmKvm rows = Some Supported"
    by (cases "survey ci_host None") auto
  obtain s where s: "get_binder_status (files ci_host) = Inr s" using r(1) by (elim survey_rows)
  from survey_agrees_with_launch [OF r(1) s] r show ?thesis by (auto simp: ci_host_def)
qed

lemma classify_remedy:
  "bs_remedy (classify d f k) = '''' \<longleftrightarrow> bs_state (classify d f k) = Ready"
  by (simp add: classify_def split: option.split kernel_config.split)

text \<open>
  Every mode is reported once, in the documented order, and every verdict short of
  supported comes with a next step.
\<close>

theorem survey_complete_and_actionable:
  assumes "survey h given = Inr rows"
  shows "map ms_mode rows = [ModeRedroidHost, ModeVmKvm, ModeVmTcg, ModeAdb]
    \<and> (\<forall>r\<in>set rows. ms_status r \<noteq> Supported \<longrightarrow> ms_remedy r \<noteq> '''')"
proof -
  obtain s k q d dd a x where s: "get_binder_status (files h) = Inr s"
    and rows: "rows = classify_modes (machine h) s k q d dd a x"
    using assms by (elim survey_rows) blast
  have rem: "bs_remedy s = '''' \<longleftrightarrow> bs_state s = Ready"
    using s by (elim get_binder_status_Inr) (simp add: classify_remedy)
  have "ms_remedy (redroid_host m s d dd x) \<noteq> ''''" if "ms_status (redroid_host m s d dd x) \<noteq> Supported" for m
    using that rem by (auto simp: redroid_host_def Let_def split: if_splits binder_state.splits)
  moreover have "ms_remedy (vm_kvm m k q x) \<noteq> ''''" if "ms_status (vm_kvm m k q x) \<noteq> Supported" for m
    using that by (auto simp: vm_kvm_def Let_def QEMU_INSTALL_def split: if_splits)
  moreover have "ms_remedy (vm_tcg m q x) \<noteq> ''''" if "ms_status (vm_tcg m q x) \<noteq> Supported" for m
    using that by (auto simp: vm_tcg_def Let_def QEMU_INSTALL_def split: if_splits)
  moreover have "ms_remedy (adb_adopt a) \<noteq> ''''"
    by (simp add: adb_adopt_def Let_def ADB_NEEDS_DEVICE_def)
  ultimately show ?thesis by (auto simp: rows classify_modes_def)
qed

theorem survey_complete_and_actionable_witness:
  "\<exists>rows. survey ci_host None = Inr rows \<and> length rows = 4"
proof -
  obtain rows where r: "survey ci_host None = Inr rows"
  proof (cases "survey ci_host None")
    case (Inl e)
    have "case survey ci_host None of Inr _ \<Rightarrow> True | Inl _ \<Rightarrow> False" by code_simp
    with Inl show ?thesis by simp
  qed
  from survey_complete_and_actionable [OF r] have "map ms_mode rows = [ModeRedroidHost, ModeVmKvm, ModeVmTcg, ModeAdb]"
    by blast
  then have "length (map ms_mode rows) = 4" by simp
  with r show ?thesis by simp
qed

text \<open>
  The daemon probe ignores injected settings: it asks the module's own Docker binary, also
  when the survey was given another one and found it.
\<close>

theorem injected_docker_not_probed:
  "\<exists>h given. which h (docker_bin given) \<and> docker_info h (docker_bin given) = Exited 0
     \<and> get_binder_status (files h) = Inr \<lparr>bs_state = Ready,
          bs_reason = ''binder is available (device nodes or binderfs present)'', bs_remedy = ''''\<rparr>
     \<and> host_is_guest_arch (machine h)
     \<and> (case survey h (Some given) of Inr rows \<Rightarrow> status_of ModeRedroidHost rows = Some NeedsSetup | Inl _ \<Rightarrow> False)"
proof -
  let ?h = "ci_host\<lparr>files := bare_host\<lparr>node_exists := (\<lambda>n. True)\<rparr>, which := (\<lambda>b. b = ''podman''),
     docker_info := (\<lambda>b. if b = ''podman'' then Exited 0 else RunRaises)\<rparr>"
  let ?i = "\<lparr>docker_bin = ''podman'', qemu_bin = ''qemu''\<rparr>"
  show ?thesis
    by (rule exI [of _ ?h], rule exI [of _ ?i]) code_simp
qed

end
