(* ===== verification/Boot_Cache.thy ===== *)
theory Boot_Cache
  imports Qemu "HOL-Library.List_Lexorder" "HOL-Library.Product_Lexorder" "HOL-Library.Char_ord"
begin

text \<open>
  \<open>vm/boot_cache.py\<close> and the overlay preparation of \<open>backends/vm.py\<close>: the copy-on-write
  disk a warm start resumes from, the digest of what it was built from, and the checkpoint
  over the emulator's monitor. SHA-256, \<open>qemu-img\<close> and the monitor socket are arguments;
  file contents are strings of bytes.
\<close>

section \<open>State\<close>

record input_file =
  content :: string
  mtime :: int

record overlay_image =
  img_base :: string
  img_tags :: "string list"

text \<open>
  The files of one instance and of the host, and the digests this process has memoised under
  path, size and modification time.
\<close>

record cache_state =
  inputs :: "string \<Rightarrow> input_file option"
  overlay :: "overlay_image option"
  key_file :: "read_result option"
  hash_cache :: "(string \<times> int \<times> int, string) dict"

datatype cache_error = InputNotFound string | KeyUndecodable | QemuImgMissing | QemuImgFailed int | WriteFailed

definition SNAPSHOT_TAG :: string where "SNAPSHOT_TAG = ''beetroot-boot''"
definition IDENTITY_CHUNK :: nat where "IDENTITY_CHUNK = 1024 * 1024"
definition IDENTITY_HEX_LEN :: nat where "IDENTITY_HEX_LEN = 16"

section \<open>Identity of the inputs\<close>

text \<open>The reads of the streaming loop: chunks until an empty one.\<close>

function read_chunks :: "nat \<Rightarrow> string \<Rightarrow> string list" where
  "read_chunks n s = (if n = 0 \<or> s = [] then [] else take n s # read_chunks n (drop n s))"
  by pat_completeness auto
termination
  by (relation "measure (length \<circ> snd)") auto

declare read_chunks.simps [simp del]

definition stream_sha256 :: "(string \<Rightarrow> string) \<Rightarrow> string \<Rightarrow> string" where
  "stream_sha256 sha s = sha (foldl (@) [] (read_chunks IDENTITY_CHUNK s))"

definition hash_file :: "(string \<Rightarrow> string) \<Rightarrow> string \<Rightarrow> cache_state \<Rightarrow> (cache_error + string) \<times> cache_state" where
  "hash_file sha path st = (case inputs st path of
     None \<Rightarrow> (Inl (InputNotFound path), st)
   | Some f \<Rightarrow>
       let key = (path, int (length (content f)), mtime f)
       in case dict_get (hash_cache st) key of
            Some d \<Rightarrow> (Inr d, st)
          | None \<Rightarrow> let d = stream_sha256 sha (content f)
                    in (Inr d, st\<lparr>hash_cache := dict_set key d (hash_cache st)\<rparr>))"

definition path_name :: "string \<Rightarrow> string" where
  "path_name p = last (split_on (CHR ''/'') p)"

definition accel_text :: "resolved_accel \<Rightarrow> string" where
  "accel_text a = (case a of Kvm \<Rightarrow> ''kvm'' | Tcg \<Rightarrow> ''tcg'')"

definition NUL :: char where "NUL = CHR 0x00"

text \<open>What is fed to the combined digest.\<close>

definition identity_bytes :: "(string, string) dict \<Rightarrow> int \<Rightarrow> int \<Rightarrow> resolved_accel \<Rightarrow> string" where
  "identity_bytes digests cpus_n mem_n acc =
     concat (map (\<lambda>(p, d). path_name p @ [NUL] @ d @ [NUL])
       (sort_key (\<lambda>(p, d). (path_name p, d)) digests))
     @ str_of_int cpus_n @ [NUL] @ str_of_int mem_n @ [NUL] @ accel_text acc @ [NUL]"

definition hash_inputs :: "(string \<Rightarrow> string) \<Rightarrow> string \<Rightarrow> string \<Rightarrow> cache_state
    \<Rightarrow> (cache_error + (string, string) dict) \<times> cache_state" where
  "hash_inputs sha k r st = (case hash_file sha k st of
     (Inl e, st1) \<Rightarrow> (Inl e, st1)
   | (Inr dk, st1) \<Rightarrow> (case hash_file sha r st1 of
       (Inl e, st2) \<Rightarrow> (Inl e, st2)
     | (Inr dr, st2) \<Rightarrow> (Inr (dict_set r dr (dict_set k dk [])), st2)))"

record geometry =
  g_kernel :: string
  g_rootfs :: string
  g_smp :: int
  g_memory_mib :: int
  g_accel :: resolved_accel

definition base_identity :: "(string \<Rightarrow> string) \<Rightarrow> geometry \<Rightarrow> cache_state \<Rightarrow> (cache_error + string) \<times> cache_state" where
  "base_identity sha g st = (case hash_inputs sha (g_kernel g) (g_rootfs g) st of
     (Inl e, st') \<Rightarrow> (Inl e, st')
   | (Inr ds, st') \<Rightarrow>
       (Inr (take IDENTITY_HEX_LEN (sha (identity_bytes ds (g_smp g) (g_memory_mib g) (g_accel g)))), st'))"

text \<open>The sidecar is written to a temporary file and renamed; \<open>ok\<close> is whether both succeed.\<close>

definition record_identity :: "(string \<Rightarrow> string) \<Rightarrow> bool \<Rightarrow> geometry \<Rightarrow> cache_state \<Rightarrow> (cache_error + unit) \<times> cache_state" where
  "record_identity sha ok g st = (case base_identity sha g st of
     (Inl e, st') \<Rightarrow> (Inl e, st')
   | (Inr d, st') \<Rightarrow> if ok then (Inr (), st'\<lparr>key_file := Some (ReadOk d)\<rparr>) else (Inl WriteFailed, st'))"

definition read_identity :: "cache_state \<Rightarrow> cache_error + string option" where
  "read_identity st = (case key_file st of
     None \<Rightarrow> Inr None
   | Some ReadOSError \<Rightarrow> Inr None
   | Some ReadRaises \<Rightarrow> Inl KeyUndecodable
   | Some (ReadOk t) \<Rightarrow> Inr (let s = strip t in if s = [] then None else Some s))"

definition overlay_is_stale :: "(string \<Rightarrow> string) \<Rightarrow> geometry \<Rightarrow> cache_state \<Rightarrow> (cache_error + bool) \<times> cache_state" where
  "overlay_is_stale sha g st = (case read_identity st of
     Inl e \<Rightarrow> (Inl e, st)
   | Inr r \<Rightarrow> (case base_identity sha g st of
       (Inl e, st') \<Rightarrow> (Inl e, st')
     | (Inr d, st') \<Rightarrow> (Inr (r \<noteq> Some d), st')))"

definition discard_overlay :: "cache_state \<Rightarrow> cache_state" where
  "discard_overlay st = st\<lparr>overlay := None, key_file := None\<rparr>"

section \<open>Overlay and snapshots\<close>

datatype img_result = ImgNotFound | ImgExit int string

definition create_overlay :: "img_result \<Rightarrow> string \<Rightarrow> cache_state \<Rightarrow> (cache_error + unit) \<times> cache_state" where
  "create_overlay r base st = (case r of
     ImgNotFound \<Rightarrow> (Inl QemuImgMissing, st)
   | ImgExit n _ \<Rightarrow> if n \<noteq> 0 then (Inl (QemuImgFailed n), st)
                    else (Inr (), st\<lparr>overlay := Some \<lparr>img_base = base, img_tags = []\<rparr>\<rparr>))"

text \<open>\<open>list_snapshots\<close> is \<open>qemu-img snapshot -l\<close> on an image.\<close>

definition snapshot_present :: "(overlay_image \<Rightarrow> img_result) \<Rightarrow> string \<Rightarrow> cache_state \<Rightarrow> bool" where
  "snapshot_present list_snapshots tag st = (case overlay st of
     None \<Rightarrow> False
   | Some img \<Rightarrow> (case list_snapshots img of
       ImgNotFound \<Rightarrow> False
     | ImgExit n out \<Rightarrow> n = 0 \<and> list_ex (\<lambda>line. tag \<in> set (split_ws line)) (splitlines out)))"

section \<open>Checkpoint over the monitor\<close>

text \<open>What successive reads of the socket give; a read that blocks too long raises.\<close>

datatype recv_event = Chunk string | Eof | RecvRaises

definition is_bytes_space :: "char \<Rightarrow> bool" where
  "is_bytes_space c \<longleftrightarrow> (let n = of_char c :: int in 9 \<le> n \<and> n \<le> 13 \<or> n = 32)"

definition at_prompt :: "string \<Rightarrow> bool" where
  "at_prompt buf \<longleftrightarrow> endswith (rev (dropWhile is_bytes_space (rev buf))) ''(qemu)''"

fun read_to_prompt :: "string \<Rightarrow> recv_event list \<Rightarrow> string option \<times> recv_event list" where
  "read_to_prompt buf [] = (if at_prompt buf then (Some buf, []) else (None, []))"
| "read_to_prompt buf (ev # evs) =
     (if at_prompt buf then (Some buf, ev # evs)
      else case ev of
        RecvRaises \<Rightarrow> (None, evs)
      | Eof \<Rightarrow> (Some buf, evs)
      | Chunk c \<Rightarrow> if c = [] then (Some buf, evs) else read_to_prompt (buf @ c) evs)"

definition save_snapshot :: "bool \<Rightarrow> bool \<Rightarrow> recv_event list \<Rightarrow> bool" where
  "save_snapshot connects sends evs =
     (if \<not> connects then False
      else case read_to_prompt [] evs of
        (None, _) \<Rightarrow> False
      | (Some _, evs1) \<Rightarrow>
          if \<not> sends then False
          else (case read_to_prompt [] evs1 of
              (None, _) \<Rightarrow> False
            | (Some reply, _) \<Rightarrow> \<not> contains (lower reply) ''error''))"

section \<open>Preparing a cached start\<close>

text \<open>The overlay part of \<open>_up_cached\<close>: throw away a checkpoint that does not fit.\<close>

definition invalidate_overlay :: "(string \<Rightarrow> string) \<Rightarrow> (overlay_image \<Rightarrow> img_result) \<Rightarrow> geometry \<Rightarrow> cache_state
    \<Rightarrow> (cache_error + unit) \<times> cache_state" where
  "invalidate_overlay sha ls g st =
     (if overlay st = None then (Inr (), st)
      else case overlay_is_stale sha g st of
        (Inl e, st1) \<Rightarrow> (Inl e, st1)
      | (Inr True, st1) \<Rightarrow> (Inr (), discard_overlay st1)
      | (Inr False, st1) \<Rightarrow>
          if \<not> snapshot_present ls SNAPSHOT_TAG st1 then (Inr (), discard_overlay st1) else (Inr (), st1))"

text \<open>Build the overlay if there is none, and record what it was built from.\<close>

definition renew_overlay :: "(string \<Rightarrow> string) \<Rightarrow> img_result \<Rightarrow> bool \<Rightarrow> geometry \<Rightarrow> cache_state
    \<Rightarrow> (cache_error + unit) \<times> cache_state" where
  "renew_overlay sha r ok g st = (case create_overlay r (g_rootfs g) st of
     (Inl e, st1) \<Rightarrow> (Inl e, st1)
   | (Inr _, st1) \<Rightarrow> record_identity sha ok g st1)"

text \<open>The whole preparation; the result says whether to resume.\<close>

definition prepare_overlay :: "(string \<Rightarrow> string) \<Rightarrow> (overlay_image \<Rightarrow> img_result) \<Rightarrow> img_result \<Rightarrow> bool
    \<Rightarrow> geometry \<Rightarrow> cache_state \<Rightarrow> (cache_error + bool) \<times> cache_state" where
  "prepare_overlay sha ls r ok g st = (case invalidate_overlay sha ls g st of
     (Inl e, st1) \<Rightarrow> (Inl e, st1)
   | (Inr _, st1) \<Rightarrow>
       (case (if overlay st1 = None then renew_overlay sha r ok g st1 else (Inr (), st1)) of
          (Inl e, st2) \<Rightarrow> (Inl e, st2)
        | (Inr _, st2) \<Rightarrow> (Inr (snapshot_present ls SNAPSHOT_TAG st2), st2)))"

end
