(* ===== verification/Boot_Cache_Props.thy ===== *)
theory Boot_Cache_Props
  imports Boot_Cache "HOL-Library.Multiset"
begin

text \<open>
  The boot cache: its fingerprint tells inputs apart and memoising it changes nothing; a
  resumed checkpoint was always taken from the inputs in use, whatever is edited, deleted or
  interrupted in between; and what the monitor protocol proves.
\<close>

section \<open>Laws of the digest\<close>

definition hex_char :: "char \<Rightarrow> bool" where
  "hex_char c \<longleftrightarrow> is_digit c \<or> (97 \<le> (of_char c :: int) \<and> (of_char c :: int) \<le> 102)"

definition hex_digest :: "(string \<Rightarrow> string) \<Rightarrow> bool" where
  "hex_digest sha \<longleftrightarrow> (\<forall>s. sha s \<noteq> [] \<and> list_all hex_char (sha s))"

lemma hex_plain: "hex_char c \<Longrightarrow> \<not> is_space c \<and> c \<noteq> NUL"
  by (auto simp: hex_char_def is_digit_def is_space_def NUL_def Let_def)

lemma strip_hex: "list_all hex_char s \<Longrightarrow> strip s = s"
  unfolding strip_def
  using hex_plain by (intro strip_by_id) (auto simp: list_all_iff)

section \<open>Hashing\<close>

lemma concat_chunks: "0 < n \<Longrightarrow> concat (read_chunks n s) = s"
proof (induction n s rule: read_chunks.induct)
  case (1 n s)
  then show ?case by (subst read_chunks.simps) auto
qed

lemma foldl_append: "foldl (@) a xs = a @ concat xs"
  by (induction xs arbitrary: a) simp_all

lemma stream_sha256_eq [code]: "stream_sha256 sha s = sha s"
  using concat_chunks [of IDENTITY_CHUNK s]
  by (simp add: stream_sha256_def foldl_append IDENTITY_CHUNK_def)

text \<open>
  \<open>V\<close> gives the content of a file from its path, size and modification time: the assumption
  under which memoising is legitimate.
\<close>

definition stat_determines :: "(string \<times> int \<times> int \<Rightarrow> string) \<Rightarrow> (string \<Rightarrow> input_file option) \<Rightarrow> bool" where
  "stat_determines V fs \<longleftrightarrow>
     (\<forall>p f. fs p = Some f \<longrightarrow> content f = V (p, int (length (content f)), mtime f))"

definition cache_ok :: "(string \<Rightarrow> string) \<Rightarrow> (string \<times> int \<times> int \<Rightarrow> string) \<Rightarrow> cache_state \<Rightarrow> bool" where
  "cache_ok sha V st \<longleftrightarrow> (\<forall>k d. dict_get (hash_cache st) k = Some d \<longrightarrow> d = sha (V k))"

lemma hash_file_sound:
  assumes "cache_ok sha V st" and "stat_determines V (inputs st)" and "inputs st p = Some f"
  shows "\<exists>c. hash_file sha p st = (Inr (sha (content f)), st\<lparr>hash_cache := c\<rparr>)
     \<and> cache_ok sha V (st\<lparr>hash_cache := c\<rparr>)"
proof -
  have V: "content f = V (p, int (length (content f)), mtime f)"
    using assms(2,3) unfolding stat_determines_def by blast
  let ?k = "(p, int (length (content f)), mtime f)"
  show ?thesis
  proof (cases "dict_get (hash_cache st) ?k")
    case None
    have "cache_ok sha V (st\<lparr>hash_cache := dict_set ?k (sha (content f)) (hash_cache st)\<rparr>)"
      using assms(1) V by (auto simp: cache_ok_def)
    with None assms(3) show ?thesis by (auto simp: hash_file_def stream_sha256_eq Let_def)
  next
    case (Some d)
    with assms(1) have "d = sha (V ?k)" unfolding cache_ok_def by blast
    with V have "d = sha (content f)" by simp
    with Some assms show ?thesis
      by (intro exI [of _ "hash_cache st"]) (simp add: hash_file_def Let_def)
  qed
qed

text \<open>The fingerprint's preimage, read off the files directly.\<close>

definition input_digests :: "(string \<Rightarrow> string) \<Rightarrow> geometry \<Rightarrow> (string \<Rightarrow> input_file option) \<Rightarrow> (string, string) dict option" where
  "input_digests sha g fs = (case (fs (g_kernel g), fs (g_rootfs g)) of
     (Some k, Some r) \<Rightarrow> Some (dict_set (g_rootfs g) (sha (content r)) (dict_set (g_kernel g) (sha (content k)) []))
   | _ \<Rightarrow> None)"

definition input_bytes :: "(string \<Rightarrow> string) \<Rightarrow> geometry \<Rightarrow> (string \<Rightarrow> input_file option) \<Rightarrow> string option" where
  "input_bytes sha g fs = map_option (\<lambda>ds. identity_bytes ds (g_smp g) (g_memory_mib g) (g_accel g))
     (input_digests sha g fs)"

lemma base_identity_sound:
  assumes "cache_ok sha V st" and "stat_determines V (inputs st)" and "input_bytes sha g (inputs st) = Some b"
  shows "\<exists>c. base_identity sha g st = (Inr (take IDENTITY_HEX_LEN (sha b)), st\<lparr>hash_cache := c\<rparr>)
     \<and> cache_ok sha V (st\<lparr>hash_cache := c\<rparr>)"
proof -
  obtain k r where kr: "inputs st (g_kernel g) = Some k" "inputs st (g_rootfs g) = Some r"
    and b: "b = identity_bytes (dict_set (g_rootfs g) (sha (content r)) (dict_set (g_kernel g) (sha (content k)) []))
      (g_smp g) (g_memory_mib g) (g_accel g)"
    using assms(3) by (auto simp: input_bytes_def input_digests_def split: option.splits)
  obtain c1 where c1: "hash_file sha (g_kernel g) st = (Inr (sha (content k)), st\<lparr>hash_cache := c1\<rparr>)"
      "cache_ok sha V (st\<lparr>hash_cache := c1\<rparr>)"
    using hash_file_sound [OF assms(1,2) kr(1)] by blast
  obtain c2 where c2: "hash_file sha (g_rootfs g) (st\<lparr>hash_cache := c1\<rparr>)
        = (Inr (sha (content r)), (st\<lparr>hash_cache := c1\<rparr>)\<lparr>hash_cache := c2\<rparr>)"
      "cache_ok sha V ((st\<lparr>hash_cache := c1\<rparr>)\<lparr>hash_cache := c2\<rparr>)"
    using hash_file_sound [OF c1(2), of "g_rootfs g" r] assms(2) kr(2) by auto
  show ?thesis
    using c1 c2 by (intro exI [of _ c2]) (simp add: base_identity_def hash_inputs_def b)
qed

lemma base_identity_error:
  assumes "cache_ok sha V st" and "stat_determines V (inputs st)" and "base_identity sha g st = (Inl e, st')"
  shows "\<exists>c. st' = st\<lparr>hash_cache := c\<rparr> \<and> cache_ok sha V st' \<and> input_bytes sha g (inputs st) = None"
proof (cases "inputs st (g_kernel g)")
  case None
  with assms(1,3) show ?thesis
    by (intro exI [of _ "hash_cache st"])
      (auto simp: base_identity_def hash_inputs_def hash_file_def input_bytes_def input_digests_def)
next
  case (Some k)
  then obtain c1 where c1: "hash_file sha (g_kernel g) st = (Inr (sha (content k)), st\<lparr>hash_cache := c1\<rparr>)"
      "cache_ok sha V (st\<lparr>hash_cache := c1\<rparr>)"
    using hash_file_sound [OF assms(1,2)] by blast
  have "inputs st (g_rootfs g) = None"
  proof (rule ccontr)
    assume "inputs st (g_rootfs g) \<noteq> None"
    then obtain b where "input_bytes sha g (inputs st) = Some b"
      using Some by (auto simp: input_bytes_def input_digests_def)
    from base_identity_sound [OF assms(1,2) this] assms(3) show False by auto
  qed
  moreover from this have "hash_file sha (g_rootfs g) (st\<lparr>hash_cache := c1\<rparr>)
      = (Inl (InputNotFound (g_rootfs g)), st\<lparr>hash_cache := c1\<rparr>)" by (simp add: hash_file_def)
  ultimately show ?thesis
    using assms(3) c1
    by (intro exI [of _ c1])
      (auto simp: base_identity_def hash_inputs_def input_bytes_def input_digests_def split: option.split)
qed

text \<open>
  Memoising file digests never changes the fingerprint. As long as a file with the same
  path, size and modification time has the same content, the identity computed with any
  cache built up so far is the digest of the inputs' actual contents, and the cache stays
  good for later calls.
\<close>

theorem base_identity_memo_sound:
  assumes "cache_ok sha V st" and "stat_determines V (inputs st)" and "input_bytes sha g (inputs st) = Some b"
  shows "fst (base_identity sha g st) = Inr (take IDENTITY_HEX_LEN (sha b))
     \<and> cache_ok sha V (snd (base_identity sha g st))
     \<and> (\<forall>fs. stat_determines V fs \<longrightarrow> input_bytes sha g fs = Some b \<longrightarrow>
          fst (base_identity sha g ((snd (base_identity sha g st))\<lparr>inputs := fs\<rparr>)) = Inr (take IDENTITY_HEX_LEN (sha b)))"
proof -
  obtain c where c: "base_identity sha g st = (Inr (take IDENTITY_HEX_LEN (sha b)), st\<lparr>hash_cache := c\<rparr>)"
      "cache_ok sha V (st\<lparr>hash_cache := c\<rparr>)"
    using base_identity_sound [OF assms] by blast
  have "fst (base_identity sha g ((st\<lparr>hash_cache := c\<rparr>)\<lparr>inputs := fs\<rparr>)) = Inr (take IDENTITY_HEX_LEN (sha b))"
    if "stat_determines V fs" "input_bytes sha g fs = Some b" for fs
  proof -
    have "cache_ok sha V ((st\<lparr>hash_cache := c\<rparr>)\<lparr>inputs := fs\<rparr>)" using c(2) by (simp add: cache_ok_def)
    from base_identity_sound [OF this, of g b] that show ?thesis by auto
  qed
  with c show ?thesis by simp
qed

text \<open>A toy digest with the format of a real one.\<close>

definition toy_sha :: "string \<Rightarrow> string" where
  "toy_sha s = dec (foldl (\<lambda>n c. (n * 257 + of_char c) mod 99999999977) 7 s)"

lemma toy_hex: "hex_digest toy_sha"
proof -
  have "0 \<le> foldl (\<lambda>n c. (n * 257 + of_char c) mod 99999999977) m s" if "0 \<le> m" for m :: int and s :: string
    using that by (induction s arbitrary: m) auto
  then have "is_digit c" if "c \<in> set (toy_sha s)" for c s
    using that dec_digits unfolding toy_sha_def by (meson zero_le_numeral)
  then show ?thesis by (auto simp: hex_digest_def list_all_iff hex_char_def toy_sha_def)
qed

definition toy_fs :: "string \<Rightarrow> input_file option" where
  "toy_fs p = (if p = ''/vm/bzImage'' then Some \<lparr>content = ''kernel-1'', mtime = 10\<rparr>
     else if p = ''/vm/rootfs.img'' then Some \<lparr>content = ''rootfs-1'', mtime = 11\<rparr> else None)"

definition toy_V :: "string \<times> int \<times> int \<Rightarrow> string" where
  "toy_V k = (if fst k = ''/vm/bzImage'' then ''kernel-1'' else ''rootfs-1'')"

definition toy_geometry :: geometry where
  "toy_geometry = \<lparr>g_kernel = ''/vm/bzImage'', g_rootfs = ''/vm/rootfs.img'', g_smp = 4, g_memory_mib = 4096,
     g_accel = Tcg\<rparr>"

definition toy_state :: cache_state where
  "toy_state = \<lparr>inputs = toy_fs, overlay = None, key_file = None, hash_cache = []\<rparr>"

lemma toy_stat: "stat_determines toy_V toy_fs"
  by (simp add: stat_determines_def toy_fs_def toy_V_def)

lemma toy_cache: "cache_ok sha toy_V toy_state"
  by (simp add: cache_ok_def toy_state_def)

theorem base_identity_memo_sound_witness:
  "\<exists>b. input_bytes toy_sha toy_geometry toy_fs = Some b
     \<and> fst (base_identity toy_sha toy_geometry toy_state) = Inr (take IDENTITY_HEX_LEN (toy_sha b))"
proof -
  obtain b where b: "input_bytes toy_sha toy_geometry (inputs toy_state) = Some b"
    by (simp add: input_bytes_def input_digests_def toy_state_def toy_geometry_def toy_fs_def)
  have "stat_determines toy_V (inputs toy_state)" by (simp add: toy_state_def toy_stat)
  from base_identity_memo_sound [OF toy_cache this b] b show ?thesis by (auto simp: toy_state_def)
qed

section \<open>The fingerprint tells inputs apart\<close>

lemma split_fields:
  "(\<And>f. f \<in> set fs \<Longrightarrow> c \<notin> set f) \<Longrightarrow> split_on c (concat (map (\<lambda>f. f @ [c]) fs)) = fs @ [[]]"
  by (induction fs) (auto simp: split_on_append_sep)

definition entry_fields :: "(string \<times> string) list \<Rightarrow> string list" where
  "entry_fields es = concat (map (\<lambda>(n, d). [n, d]) es)"

definition named_digests :: "(string, string) dict \<Rightarrow> (string \<times> string) list" where
  "named_digests ds = map (\<lambda>(p, d). (path_name p, d)) ds"

lemma named_digests_sorted:
  "named_digests (sort_key (\<lambda>(p, d). (path_name p, d)) ds) = sort (named_digests ds)"
  unfolding named_digests_def
  by (rule properties_for_sort [symmetric]) simp_all

lemma identity_bytes_fields:
  "identity_bytes ds n m a = concat (map (\<lambda>f. f @ [NUL])
     (entry_fields (sort (named_digests ds)) @ [str_of_int n, str_of_int m, accel_text a]))"
proof -
  have "concat (map (\<lambda>(p, d). path_name p @ [NUL] @ d @ [NUL]) es)
      = concat (map (\<lambda>f. f @ [NUL]) (entry_fields (named_digests es)))" for es
    by (induction es) (auto simp: entry_fields_def named_digests_def)
  then show ?thesis by (simp add: identity_bytes_def flip: named_digests_sorted)
qed

lemma entry_fields_inject: "entry_fields xs = entry_fields ys \<Longrightarrow> xs = ys"
proof (induction xs arbitrary: ys)
  case Nil
  then show ?case by (cases ys) (auto simp: entry_fields_def)
next
  case (Cons x xs)
  then show ?case by (cases x; cases ys) (auto simp: entry_fields_def)
qed

definition nul_free :: "(string, string) dict \<Rightarrow> bool" where
  "nul_free ds \<longleftrightarrow> list_all (\<lambda>(p, d). NUL \<notin> set (path_name p) \<and> NUL \<notin> set d) ds"

lemma nul_free_fields:
  assumes "nul_free ds"
  shows "f \<in> set (entry_fields (sort (named_digests ds)) @ [str_of_int n, str_of_int m, accel_text a]) \<Longrightarrow> NUL \<notin> set f"
proof -
  assume f: "f \<in> set (entry_fields (sort (named_digests ds)) @ [str_of_int n, str_of_int m, accel_text a])"
  have num: "NUL \<notin> set (str_of_int i)" for i
    using str_of_int_digits_or_minus [of NUL i] by (auto simp: NUL_def is_digit_def)
  have "NUL \<notin> set (accel_text a)" by (simp add: accel_text_def NUL_def split: resolved_accel.split)
  with f num assms show ?thesis
    by (auto simp: entry_fields_def named_digests_def nul_free_def list_all_iff)
qed

lemma accel_text_inject [simp]: "accel_text a = accel_text b \<longleftrightarrow> a = b"
  by (cases a; cases b) (simp_all add: accel_text_def)

text \<open>
  The fingerprint's preimage is injective. Two overlays have the same preimage exactly
  when they were built from the same file names with the same digests, in whichever order
  the files are given, with the same CPU count, memory and accelerator.
\<close>

theorem identity_discriminates:
  assumes "nul_free ds" and "nul_free ds'"
  shows "identity_bytes ds n m a = identity_bytes ds' n' m' a' \<longleftrightarrow>
     mset (named_digests ds) = mset (named_digests ds') \<and> n = n' \<and> m = m' \<and> a = a'"
proof
  assume eq: "identity_bytes ds n m a = identity_bytes ds' n' m' a'"
  have "split_on NUL (identity_bytes ds n m a)
      = (entry_fields (sort (named_digests ds)) @ [str_of_int n, str_of_int m, accel_text a]) @ [[]]"
    unfolding identity_bytes_fields by (rule split_fields, rule nul_free_fields [OF assms(1)])
  moreover have "split_on NUL (identity_bytes ds' n' m' a')
      = (entry_fields (sort (named_digests ds')) @ [str_of_int n', str_of_int m', accel_text a']) @ [[]]"
    unfolding identity_bytes_fields by (rule split_fields, rule nul_free_fields [OF assms(2)])
  ultimately have f: "entry_fields (sort (named_digests ds)) = entry_fields (sort (named_digests ds'))"
    and r: "n = n'" "m = m'" "a = a'" using eq by auto
  have "sort (named_digests ds) = sort (named_digests ds')" using entry_fields_inject [OF f] .
  then have "mset (named_digests ds) = mset (named_digests ds')" by (metis mset_sort)
  with r show "mset (named_digests ds) = mset (named_digests ds') \<and> n = n' \<and> m = m' \<and> a = a'" by blast
next
  assume "mset (named_digests ds) = mset (named_digests ds') \<and> n = n' \<and> m = m' \<and> a = a'"
  moreover from this have "sort (named_digests ds) = sort (named_digests ds')"
    by (intro properties_for_sort) (simp_all add: eq_commute)
  ultimately show "identity_bytes ds n m a = identity_bytes ds' n' m' a'"
    by (simp add: identity_bytes_fields)
qed

theorem identity_discriminates_witness:
  "identity_bytes [(''/k/bzImage'', ''aa''), (''/r/root.img'', ''bb'')] 4 4096 Tcg
     = identity_bytes [(''/r/root.img'', ''bb''), (''/k/bzImage'', ''aa'')] 4 4096 Tcg
   \<and> identity_bytes [(''/k/bzImage'', ''aa''), (''/r/root.img'', ''bb'')] 4 4096 Tcg
     \<noteq> identity_bytes [(''/k/bzImage'', ''aa''), (''/r/root.img'', ''bb'')] 44 096 Kvm"
proof -
  let ?d = "[(''/k/bzImage'', ''aa''), (''/r/root.img'', ''bb'')]"
  let ?e = "[(''/r/root.img'', ''bb''), (''/k/bzImage'', ''aa'')]"
  have n: "nul_free ?d" "nul_free ?e" by code_simp+
  have "mset (named_digests ?d) = mset (named_digests ?e)" by (simp add: named_digests_def)
  with identity_discriminates [OF n, of 4 4096 Tcg 4 4096 Tcg]
    identity_discriminates [OF n(1) n(1), of 4 4096 Tcg 44 096 Kvm] show ?thesis by simp
qed

section \<open>A resumed checkpoint fits\<close>

text \<open>
  Where an instance can be: nothing of it running that could checkpoint, or booted cold on
  the overlay just prepared.
\<close>

datatype phase = Idle | Booting

definition add_tag :: "string \<Rightarrow> cache_state \<Rightarrow> cache_state" where
  "add_tag t st = st\<lparr>overlay := map_option (\<lambda>i. i\<lparr>img_tags := t # img_tags i\<rparr>) (overlay st)\<rparr>"

text \<open>
  One step of an instance's history. The second component is history only: the fingerprint
  preimage of the inputs the overlay was last completely built from. Files are edited and the
  memo is lost or kept at any time, the overlay may be deleted, a preparation may resume, go
  on to a cold boot, fail or be interrupted after each of its effects, a failed resume is
  retried on a fresh overlay, and only a cold boot checkpoints.
\<close>

inductive cache_step :: "(string \<Rightarrow> string) \<Rightarrow> (overlay_image \<Rightarrow> img_result) \<Rightarrow> (string \<times> int \<times> int \<Rightarrow> string)
    \<Rightarrow> cache_state \<times> string \<times> phase \<Rightarrow> cache_state \<times> string \<times> phase \<Rightarrow> bool" for sha ls V where
  edit: "stat_determines V fs \<Longrightarrow> cache_ok sha V (st\<lparr>hash_cache := c\<rparr>) \<Longrightarrow>
    cache_step sha ls V (st, b, ph) (st\<lparr>inputs := fs, hash_cache := c\<rparr>, b, ph)"
| delete: "cache_step sha ls V (st, b, Idle) (st\<lparr>overlay := None\<rparr>, b, Idle)"
| resume: "prepare_overlay sha ls r ok g st = (Inr True, st') \<Longrightarrow> cache_step sha ls V (st, b, Idle) (st', b, Idle)"
| cold: "prepare_overlay sha ls r ok g st = (Inr False, st') \<Longrightarrow> input_bytes sha g (inputs st) = Some b' \<Longrightarrow>
    cache_step sha ls V (st, b, Idle) (st', b', Booting)"
| fail: "prepare_overlay sha ls r ok g st = (Inl e, st') \<Longrightarrow> cache_step sha ls V (st, b, Idle) (st', b, Idle)"
| interrupted1: "invalidate_overlay sha ls g st = (Inr (), st') \<Longrightarrow> cache_step sha ls V (st, b, Idle) (st', b, Idle)"
| interrupted2: "invalidate_overlay sha ls g st = (Inr (), st1) \<Longrightarrow> overlay st1 = None \<Longrightarrow>
    create_overlay r base st1 = (Inr (), st') \<Longrightarrow> cache_step sha ls V (st, b, Idle) (st', b, Idle)"
| retry: "renew_overlay sha r ok g (discard_overlay st) = (Inr (), st') \<Longrightarrow> input_bytes sha g (inputs st) = Some b' \<Longrightarrow>
    cache_step sha ls V (st, b, Idle) (st', b', Booting)"
| retry_fail: "renew_overlay sha r ok g (discard_overlay st) = (Inl e, st') \<Longrightarrow> cache_step sha ls V (st, b, Idle) (st', b, Idle)"
| checkpoint: "cache_step sha ls V (st, b, Booting) (add_tag SNAPSHOT_TAG st, b, Idle)"
| stop: "cache_step sha ls V (st, b, Booting) (st, b, Idle)"

inductive_cases cache_stepE: "cache_step sha ls V s s'"

definition no_snapshot :: "cache_state \<Rightarrow> bool" where
  "no_snapshot st \<longleftrightarrow> (\<forall>i. overlay st = Some i \<longrightarrow> SNAPSHOT_TAG \<notin> set (img_tags i))"

definition key_is :: "(string \<Rightarrow> string) \<Rightarrow> string \<Rightarrow> cache_state \<Rightarrow> bool" where
  "key_is sha b st \<longleftrightarrow> key_file st = Some (ReadOk (take IDENTITY_HEX_LEN (sha b)))"

text \<open>A checkpoint is only ever beside the fingerprint of what it was taken from.\<close>

fun cache_inv :: "(string \<Rightarrow> string) \<Rightarrow> (string \<times> int \<times> int \<Rightarrow> string) \<Rightarrow> cache_state \<times> string \<times> phase \<Rightarrow> bool" where
  "cache_inv sha V (st, b, ph) \<longleftrightarrow> cache_ok sha V st \<and> stat_determines V (inputs st)
     \<and> (no_snapshot st \<or> key_is sha b st) \<and> (ph = Booting \<longrightarrow> key_is sha b st)"

text \<open>Listing an image shows the tag only if the image has it.\<close>

definition listing_sound :: "(overlay_image \<Rightarrow> img_result) \<Rightarrow> bool" where
  "listing_sound ls \<longleftrightarrow> (\<forall>img out. ls img = ImgExit 0 out \<longrightarrow>
     list_ex (\<lambda>line. SNAPSHOT_TAG \<in> set (split_ws line)) (splitlines out) \<longrightarrow> SNAPSHOT_TAG \<in> set (img_tags img))"

lemma snapshot_present_sound:
  "listing_sound ls \<Longrightarrow> snapshot_present ls SNAPSHOT_TAG st \<Longrightarrow> \<not> no_snapshot st"
  by (auto simp: snapshot_present_def listing_sound_def no_snapshot_def split: option.splits img_result.splits)

lemma base_identity_frame:
  assumes "cache_ok sha V st" and "stat_determines V (inputs st)" and "base_identity sha g st = (r, st')"
  shows "\<exists>c. st' = st\<lparr>hash_cache := c\<rparr> \<and> cache_ok sha V st'
    \<and> (\<forall>d. r = Inr d \<longrightarrow> (\<exists>b. input_bytes sha g (inputs st) = Some b \<and> d = take IDENTITY_HEX_LEN (sha b)))"
proof (cases "input_bytes sha g (inputs st)")
  case None
  then obtain e where "r = Inl e"
    using assms(3) by (auto simp: base_identity_def hash_inputs_def hash_file_def input_bytes_def
        input_digests_def Let_def split: option.splits prod.splits sum.splits)
  then show ?thesis using base_identity_error [of sha V st g e st'] assms by auto
next
  case (Some b)
  from base_identity_sound [OF assms(1,2) Some] assms(3) Some show ?thesis by auto
qed

lemma key_present_id:
  assumes "hex_digest sha" and "key_is sha b st" and "read_identity st = Inr (Some d)"
  shows "d = take IDENTITY_HEX_LEN (sha b)"
proof -
  have "list_all hex_char (take IDENTITY_HEX_LEN (sha b))"
    using assms(1) by (auto simp: hex_digest_def list_all_iff dest: in_set_takeD)
  from strip_hex [OF this] assms(2,3) show ?thesis
    by (auto simp: read_identity_def key_is_def Let_def split: if_splits)
qed

text \<open>What all operations keep: the input files, and a memo that is right for them.\<close>

definition frame_ok :: "(string \<Rightarrow> string) \<Rightarrow> (string \<times> int \<times> int \<Rightarrow> string) \<Rightarrow> cache_state \<Rightarrow> cache_state \<Rightarrow> bool" where
  "frame_ok sha V st st' \<longleftrightarrow> inputs st' = inputs st \<and> cache_ok sha V st'"

lemma record_identity_spec:
  assumes "cache_ok sha V st" and "stat_determines V (inputs st)" and "record_identity sha ok g st = (r, st')"
  shows "frame_ok sha V st st' \<and> overlay st' = overlay st
    \<and> (case r of Inl _ \<Rightarrow> key_file st' = key_file st
       | Inr _ \<Rightarrow> \<exists>b. input_bytes sha g (inputs st) = Some b \<and> key_is sha b st')"
proof -
  obtain q st1 where b: "base_identity sha g st = (q, st1)" by fastforce
  from base_identity_frame [OF assms(1,2) b] assms(3) b show ?thesis
    by (auto simp: record_identity_def frame_ok_def key_is_def cache_ok_def split: sum.splits if_splits)
qed

lemma create_overlay_fresh:
  "create_overlay r base st = (Inr u, st') \<Longrightarrow>
   no_snapshot st' \<and> inputs st' = inputs st \<and> hash_cache st' = hash_cache st"
  by (auto simp: create_overlay_def no_snapshot_def split: img_result.splits if_splits)

lemma renew_overlay_spec:
  assumes "cache_ok sha V st" and "stat_determines V (inputs st)" and "renew_overlay sha r ok g st = (q, st')"
  shows "frame_ok sha V st st'
    \<and> (case q of Inl _ \<Rightarrow> overlay st' = overlay st \<and> key_file st' = key_file st \<or> no_snapshot st'
       | Inr _ \<Rightarrow> no_snapshot st' \<and> (\<exists>b. input_bytes sha g (inputs st) = Some b \<and> key_is sha b st'))"
proof -
  obtain q1 st1 where c: "create_overlay r (g_rootfs g) st = (q1, st1)" by fastforce
  show ?thesis
  proof (cases q1)
    case (Inl e)
    with c assms show ?thesis
      by (auto simp: renew_overlay_def create_overlay_def frame_ok_def split: img_result.splits if_splits)
  next
    case (Inr u)
    then have st1: "no_snapshot st1" "inputs st1 = inputs st" "hash_cache st1 = hash_cache st"
      using create_overlay_fresh c by auto
    then have ok: "cache_ok sha V st1" "stat_determines V (inputs st1)"
      using assms(1,2) by (simp_all add: cache_ok_def)
    have "record_identity sha ok g st1 = (q, st')"
      using assms(3) c Inr by (simp add: renew_overlay_def)
    from record_identity_spec [OF ok this] st1 show ?thesis
      by (auto simp: frame_ok_def no_snapshot_def split: sum.splits)
  qed
qed

lemma invalidate_overlay_spec:
  assumes "cache_ok sha V st" and "stat_determines V (inputs st)" and "invalidate_overlay sha ls g st = (q, st')"
  shows "frame_ok sha V st st'
    \<and> (overlay st' = None \<or> overlay st' = overlay st \<and> key_file st' = key_file st
       \<and> (q = Inr () \<longrightarrow> snapshot_present ls SNAPSHOT_TAG st' \<and> (\<exists>b. input_bytes sha g (inputs st) = Some b
            \<and> read_identity st = Inr (Some (take IDENTITY_HEX_LEN (sha b))))))"
proof (cases "overlay st")
  case None
  then show ?thesis using assms by (simp add: invalidate_overlay_def frame_ok_def)
next
  case (Some img)
  show ?thesis
  proof (cases "read_identity st")
    case (Inl e)
    with Some assms have "st' = st" "q = Inl e" by (simp_all add: invalidate_overlay_def overlay_is_stale_def)
    then show ?thesis using assms(1) by (simp add: frame_ok_def)
  next
  case (Inr k)
  then have k: "read_identity st = Inr k" "overlay st \<noteq> None" using Some by simp_all
  obtain r st1 where b: "base_identity sha g st = (r, st1)" by fastforce
  from base_identity_frame [OF assms(1,2) b] obtain c where c: "st1 = st\<lparr>hash_cache := c\<rparr>" "cache_ok sha V st1"
    "\<And>d. r = Inr d \<Longrightarrow> \<exists>b. input_bytes sha g (inputs st) = Some b \<and> d = take IDENTITY_HEX_LEN (sha b)"
    by blast
  have disc: "frame_ok sha V st (discard_overlay st1)" "frame_ok sha V st st1"
    using c by (auto simp: frame_ok_def discard_overlay_def cache_ok_def)
  show ?thesis
  proof (cases r)
    case (Inl e)
    then show ?thesis
      using assms(3) b k c disc by (auto simp: invalidate_overlay_def overlay_is_stale_def)
  next
    case (Inr d)
    from c(3) [OF Inr] obtain bb where bb: "input_bytes sha g (inputs st) = Some bb"
      "d = take IDENTITY_HEX_LEN (sha bb)" by blast
    have "(q, st') = (Inr (), discard_overlay st1)
      \<or> (q, st') = (Inr (), st1) \<and> k = Some d \<and> snapshot_present ls SNAPSHOT_TAG st1"
      using assms(3) b k Inr
      by (cases "k = Some d") (auto simp: invalidate_overlay_def overlay_is_stale_def split: if_splits)
    then show ?thesis using disc c(1) k bb by (auto simp: discard_overlay_def)
  qed
  qed
qed

lemma no_snapshot_None [simp]: "overlay st = None \<Longrightarrow> no_snapshot st"
  by (simp add: no_snapshot_def)

lemma prepare_spec:
  assumes "hex_digest sha" and "listing_sound ls" and "cache_inv sha V (st, b, Idle)"
    and "prepare_overlay sha ls r ok g st = (q, st')"
  shows "frame_ok sha V st st'
    \<and> (case q of
         Inl _ \<Rightarrow> no_snapshot st' \<or> key_is sha b st'
       | Inr warm \<Rightarrow> if warm then key_is sha b st' \<and> (\<exists>b'. input_bytes sha g (inputs st) = Some b'
            \<and> take IDENTITY_HEX_LEN (sha b') = take IDENTITY_HEX_LEN (sha b))
         else no_snapshot st' \<and> (\<exists>b'. input_bytes sha g (inputs st) = Some b' \<and> key_is sha b' st'))"
proof -
  obtain q1 st1 where i: "invalidate_overlay sha ls g st = (q1, st1)" by fastforce
  have inv: "cache_ok sha V st" "stat_determines V (inputs st)" "no_snapshot st \<or> key_is sha b st"
    using assms(3) by simp_all
  note I = invalidate_overlay_spec [OF inv(1,2) i]
  have same: "no_snapshot st1 \<or> key_is sha b st1" if "overlay st1 = overlay st" "key_file st1 = key_file st"
    using inv(3) that by (simp add: no_snapshot_def key_is_def)
  show ?thesis
  proof (cases q1)
    case (Inl e)
    then have "st' = st1" "q = Inl e" using assms(4) i by (simp_all add: prepare_overlay_def)
    then show ?thesis using I same by auto
  next
    case (Inr u)
    show ?thesis
    proof (cases "overlay st1 = None")
      case True
      obtain q2 st2 where n: "renew_overlay sha r ok g st1 = (q2, st2)" by fastforce
      have st1: "inputs st1 = inputs st" "cache_ok sha V st1" "stat_determines V (inputs st1)"
        using I inv(2) by (simp_all add: frame_ok_def)
      note R = renew_overlay_spec [OF st1(2,3) n]
      have "st' = st2 \<and> (case q2 of Inl e \<Rightarrow> q = Inl e | Inr _ \<Rightarrow> q = Inr (snapshot_present ls SNAPSHOT_TAG st2))"
        using assms(4) i Inr True n by (auto simp: prepare_overlay_def split: sum.splits)
      then show ?thesis
        using R st1(1) True snapshot_present_sound [OF assms(2), of st2]
        by (auto simp: frame_ok_def split: sum.splits)
    next
      case False
      then have st1: "overlay st1 = overlay st" "key_file st1 = key_file st" "snapshot_present ls SNAPSHOT_TAG st1"
        "\<exists>b'. input_bytes sha g (inputs st) = Some b' \<and> read_identity st = Inr (Some (take IDENTITY_HEX_LEN (sha b')))"
        using I Inr by auto
      have q: "q = Inr True" "st' = st1"
        using assms(4) i Inr False st1(3) by (auto simp: prepare_overlay_def)
      have key: "key_is sha b st" "key_is sha b st1"
        using snapshot_present_sound [OF assms(2) st1(3)] st1(1,2) inv(3)
        by (auto simp: no_snapshot_def key_is_def)
      with st1(4) key_present_id [OF assms(1) key(1)] I show ?thesis by (auto simp: q)
    qed
  qed
qed

lemma cache_step_inv:
  assumes "cache_step sha ls V s s'" and "hex_digest sha" and "listing_sound ls" and "cache_inv sha V s"
  shows "cache_inv sha V s'"
  using assms(1,4)
proof cases
  case (edit fs st c b ph)
  with assms(4) show ?thesis by (simp add: cache_ok_def no_snapshot_def key_is_def)
next
  case (delete st b)
  with assms(4) show ?thesis by (simp add: cache_ok_def)
next
  case (resume r ok g st st' b)
  with prepare_spec [OF assms(2,3), of V st b r ok g] assms(4) show ?thesis
    by (auto simp: frame_ok_def)
next
  case (cold r ok g st st' b' b)
  with prepare_spec [OF assms(2,3), of V st b r ok g] assms(4) show ?thesis
    by (auto simp: frame_ok_def)
next
  case (fail r ok g st e st' b)
  with prepare_spec [OF assms(2,3), of V st b r ok g] assms(4) show ?thesis
    by (auto simp: frame_ok_def)
next
  case (interrupted1 g st st' b)
  with invalidate_overlay_spec [of sha V st ls g] assms(4) show ?thesis
    by (auto simp: frame_ok_def no_snapshot_def key_is_def)
next
  case (interrupted2 g st st1 r base st' b)
  have pre: "cache_ok sha V st" "stat_determines V (inputs st)" using assms(4) interrupted2(1) by simp_all
  have "frame_ok sha V st st1" using invalidate_overlay_spec [OF pre interrupted2(3)] by blast
  with create_overlay_fresh [OF interrupted2(5)] pre(2) show ?thesis
    by (simp add: interrupted2(2) frame_ok_def cache_ok_def)
next
  case (retry r ok g st st' b' b)
  then have "cache_ok sha V (discard_overlay st)" "stat_determines V (inputs (discard_overlay st))"
    using assms(4) by (simp_all add: discard_overlay_def cache_ok_def)
  from renew_overlay_spec [OF this retry(3)] retry assms(4) show ?thesis
    by (auto simp: frame_ok_def discard_overlay_def)
next
  case (retry_fail r ok g st e st' b)
  then have "cache_ok sha V (discard_overlay st)" "stat_determines V (inputs (discard_overlay st))"
    using assms(4) by (simp_all add: discard_overlay_def cache_ok_def)
  from renew_overlay_spec [OF this retry_fail(3)] retry_fail assms(4) show ?thesis
    by (auto simp: frame_ok_def discard_overlay_def)
next
  case (checkpoint st b)
  with assms(4) show ?thesis by (simp add: add_tag_def cache_ok_def key_is_def)
next
  case (stop st b)
  with assms(4) show ?thesis by simp
qed

inductive cache_reachable :: "(string \<Rightarrow> string) \<Rightarrow> (overlay_image \<Rightarrow> img_result) \<Rightarrow> (string \<times> int \<times> int \<Rightarrow> string)
    \<Rightarrow> cache_state \<times> string \<times> phase \<Rightarrow> bool" for sha ls V where
  new: "stat_determines V fs \<Longrightarrow>
    cache_reachable sha ls V (\<lparr>inputs = fs, overlay = None, key_file = None, hash_cache = []\<rparr>, [], Idle)"
| step: "cache_reachable sha ls V s \<Longrightarrow> cache_step sha ls V s s' \<Longrightarrow> cache_reachable sha ls V s'"

lemma cache_reachable_inv:
  "cache_reachable sha ls V s \<Longrightarrow> hex_digest sha \<Longrightarrow> listing_sound ls \<Longrightarrow> cache_inv sha V s"
  by (induction rule: cache_reachable.induct) (auto simp: cache_ok_def intro: cache_step_inv)


text \<open>A listing in the format of \<open>qemu-img snapshot -l\<close>: a title, and a line per tag.\<close>

definition plain_listing :: "overlay_image \<Rightarrow> img_result" where
  "plain_listing i = ImgExit 0 (if SNAPSHOT_TAG \<in> set (img_tags i) then ''1 beetroot-boot 2 GiB'' else ''Snapshot list:'')"

lemma plain_listing_sound: "listing_sound plain_listing"
proof -
  have "\<not> list_ex (\<lambda>line. SNAPSHOT_TAG \<in> set (split_ws line)) (splitlines ''Snapshot list:'')" by code_simp
  then show ?thesis by (auto simp: listing_sound_def plain_listing_def split: if_splits)
qed

definition toy_bytes :: string where
  "toy_bytes = identity_bytes [(''/vm/bzImage'', toy_sha ''kernel-1''), (''/vm/rootfs.img'', toy_sha ''rootfs-1'')] 4 4096 Tcg"

lemma toy_input_bytes: "input_bytes toy_sha toy_geometry toy_fs = Some toy_bytes"
  by (simp add: input_bytes_def input_digests_def toy_geometry_def toy_fs_def toy_bytes_def)


section \<open>The monitor protocol\<close>

lemma read_to_prompt_Some:
  assumes "read_to_prompt buf evs = (Some r, evs')" and "Eof \<notin> set evs" and "Chunk [] \<notin> set evs"
  shows "\<exists>cs. r = buf @ concat cs \<and> evs = map Chunk cs @ evs' \<and> at_prompt r"
  using assms
proof (induction buf evs rule: read_to_prompt.induct)
  case (2 buf ev evs)
  show ?case
  proof (cases "at_prompt buf")
    case True
    with 2 show ?thesis by (auto intro: exI [of _ "[]"])
  next
    case False
    with "2.prems" obtain c where c: "ev = Chunk c" "c \<noteq> []" by (cases ev) auto
    with False "2.prems" "2.IH" [OF False c] obtain cs where
      "r = (buf @ c) @ concat cs" "evs = map Chunk cs @ evs'" "at_prompt r" by auto
    with c show ?thesis by (intro exI [of _ "c # cs"]) simp
  qed
qed (auto split: if_splits)

text \<open>
  A checkpoint reported as taken was acknowledged. As long as the monitor does not hang
  up, success means that the monitor's banner was read up to its prompt, the command was
  sent, and the monitor then answered up to a fresh prompt without reporting an error.
\<close>

theorem save_snapshot_acknowledged:
  assumes "save_snapshot connects sends evs" and "Eof \<notin> set evs" and "Chunk [] \<notin> set evs"
  shows "\<exists>banner reply rest. evs = map Chunk (banner @ reply) @ rest \<and> connects \<and> sends
     \<and> at_prompt (concat banner) \<and> at_prompt (concat reply) \<and> \<not> contains (lower (concat reply)) ''error''"
proof -
  obtain b evs1 r evs2 where b: "read_to_prompt [] evs = (Some b, evs1)"
    and r: "read_to_prompt [] evs1 = (Some r, evs2)" and *: "connects" "sends" "\<not> contains (lower r) ''error''"
    using assms(1) by (auto simp: save_snapshot_def split: if_splits prod.splits option.splits)
  from read_to_prompt_Some [OF b assms(2,3)] obtain cs where cs: "b = concat cs" "evs = map Chunk cs @ evs1" "at_prompt b"
    by auto
  then have "Eof \<notin> set evs1" "Chunk [] \<notin> set evs1" using assms(2,3) by auto
  from read_to_prompt_Some [OF r this] obtain ds where "r = concat ds" "evs1 = map Chunk ds @ evs2" "at_prompt r"
    by auto
  with cs * show ?thesis by (intro exI [of _ cs] exI [of _ ds] exI [of _ evs2]) simp
qed

theorem save_snapshot_acknowledged_witness:
  "\<exists>banner reply rest. [Chunk ''QEMU monitor'', Chunk '' (qemu) '', Chunk ''savevm (qemu)''] = map Chunk (banner @ reply) @ rest
     \<and> at_prompt (concat banner) \<and> at_prompt (concat reply)"
proof -
  let ?evs = "[Chunk ''QEMU monitor'', Chunk '' (qemu) '', Chunk ''savevm (qemu)'']"
  have s: "save_snapshot True True ?evs" by code_simp
  have "Eof \<notin> set ?evs" "Chunk [] \<notin> set ?evs" by simp_all
  from save_snapshot_acknowledged [OF s this] show ?thesis by blast
qed

text \<open>
  When the monitor does hang up, for instance because the emulator dies while writing the
  checkpoint, the call reports success although no prompt acknowledged the command.
\<close>

theorem save_snapshot_eof_success: "save_snapshot True True [Chunk ''QEMU monitor (qemu) '', Eof]"
  by code_simp

end
