(* ===== verification/Files.thy ===== *)
theory Files
  imports Prelude "HOL-Library.Sublist"
begin

text \<open>
  The file system and the statements that run on it: a directory tree from resolved absolute
  paths to nodes with the operations of \<open>pathlib\<close>, \<open>os\<close> and \<open>shutil\<close> the sources call, statements
  that may raise, and a small Hoare logic for what they keep.
\<close>

section \<open>Directory tree\<close>

type_synonym path = "string list"

datatype node = Dir | File string

type_synonym tree = "(path, node) dict"

definition path_str :: "path \<Rightarrow> string" where
  "path_str p = (if p = [] then ''/'' else concat (map (\<lambda>s. CHR ''/'' # s) p))"

definition parents :: "path \<Rightarrow> path list" where
  "parents p = map (\<lambda>k. take k p) [0..<length p]"

definition exists_at :: "path \<Rightarrow> tree \<Rightarrow> bool" where
  "exists_at p t \<longleftrightarrow> p = [] \<or> dict_get t p \<noteq> None"

definition is_file_node :: "node option \<Rightarrow> bool" where
  "is_file_node n = (case n of Some (File _) \<Rightarrow> True | _ \<Rightarrow> False)"

text \<open>\<open>mkdir(parents=True, exist_ok=True)\<close>; \<open>None\<close> is an \<open>OSError\<close>: a file is in the way.\<close>

definition mkdir_parents :: "path \<Rightarrow> tree \<Rightarrow> tree option" where
  "mkdir_parents p t =
     (let ds = filter (\<lambda>q. q \<noteq> []) (parents p @ [p])
      in if list_ex (\<lambda>q. is_file_node (dict_get t q)) ds then None
         else Some (fold (\<lambda>q t. if dict_get t q = None then dict_set q Dir t else t) ds t))"

definition write_text :: "path \<Rightarrow> string \<Rightarrow> tree \<Rightarrow> tree option" where
  "write_text p c t = (if dict_get t p = Some Dir then None else Some (dict_set p (File c) t))"

definition rmtree :: "path \<Rightarrow> tree \<Rightarrow> tree" where
  "rmtree p t = filter (\<lambda>(q, n). \<not> prefix p q) t"

definition read_bytes :: "path \<Rightarrow> tree \<Rightarrow> string option" where
  "read_bytes p t = (case dict_get t p of Some (File c) \<Rightarrow> Some c | _ \<Rightarrow> None)"

text \<open>\<open>p.unlink(missing_ok=True)\<close>; a directory is not unlinked.\<close>

definition unlink_missing_ok :: "path \<Rightarrow> tree \<Rightarrow> tree option" where
  "unlink_missing_ok p t = (if dict_get t p = Some Dir then None else Some (dict_pop p t))"

text \<open>\<open>src.replace(dst)\<close> of a file: an existing file at \<open>dst\<close> is replaced, a directory is an error.\<close>

definition replace_file :: "path \<Rightarrow> path \<Rightarrow> tree \<Rightarrow> tree option" where
  "replace_file src dst t = (case dict_get t src of
     Some (File c) \<Rightarrow> if dict_get t dst = Some Dir then None else Some (dict_set dst (File c) (dict_pop src t))
   | _ \<Rightarrow> None)"

text \<open>\<open>shutil.copyfile(src, dst)\<close>: the two must be different files.\<close>

definition copyfile :: "path \<Rightarrow> path \<Rightarrow> tree \<Rightarrow> tree option" where
  "copyfile src dst t = (if src = dst then None else Option.bind (read_bytes src t) (\<lambda>c. write_text dst c t))"

text \<open>\<open>p.exists() and p.stat().st_size > 0\<close>; a directory has a positive size.\<close>

definition has_content :: "path \<Rightarrow> tree \<Rightarrow> bool" where
  "has_content p t = (case dict_get t p of Some (File c) \<Rightarrow> c \<noteq> [] | Some Dir \<Rightarrow> True | None \<Rightarrow> False)"

section \<open>Sequencing\<close>

text \<open>Statements that may raise, run one after the other.\<close>

definition seq :: "('s \<Rightarrow> ('e + 'a) \<times> 's) \<Rightarrow> ('a \<Rightarrow> 's \<Rightarrow> ('e + 'b) \<times> 's) \<Rightarrow> 's \<Rightarrow> ('e + 'b) \<times> 's" where
  "seq c k s = (case c s of (Inl e, s') \<Rightarrow> (Inl e, s') | (Inr a, s') \<Rightarrow> k a s')"

definition ok :: "'a \<Rightarrow> 's \<Rightarrow> ('e + 'a) \<times> 's" where
  "ok a s = (Inr a, s)"

definition fail :: "'e \<Rightarrow> 's \<Rightarrow> ('e + 'a) \<times> 's" where
  "fail e s = (Inl e, s)"

text \<open>\<open>try: c  except BaseException: handler; raise\<close>; an error of the handler wins.\<close>

definition on_error :: "('s \<Rightarrow> ('e + 'a) \<times> 's) \<Rightarrow> ('s \<Rightarrow> ('e + unit) \<times> 's) \<Rightarrow> 's \<Rightarrow> ('e + 'a) \<times> 's" where
  "on_error c handler s = (case c s of
     (Inr a, s') \<Rightarrow> (Inr a, s')
   | (Inl e, s') \<Rightarrow> (case handler s' of (Inl e', s'') \<Rightarrow> (Inl e', s'') | (Inr _, s'') \<Rightarrow> (Inl e, s'')))"

text \<open>\<open>with\<close> blocks and \<open>finally\<close> clauses whose clean-up does not raise.\<close>

definition finally_do :: "('s \<Rightarrow> ('e + 'a) \<times> 's) \<Rightarrow> ('s \<Rightarrow> 's) \<Rightarrow> 's \<Rightarrow> ('e + 'a) \<times> 's" where
  "finally_do c clean s = (case c s of (r, s') \<Rightarrow> (r, clean s'))"

definition attempt :: "'e \<Rightarrow> ('s \<Rightarrow> 's option) \<Rightarrow> 's \<Rightarrow> ('e + unit) \<times> 's" where
  "attempt e f s = (case f s of None \<Rightarrow> (Inl e, s) | Some s' \<Rightarrow> (Inr (), s'))"

definition give :: "'e + 'a \<Rightarrow> 's \<Rightarrow> ('e + 'a) \<times> 's" where
  "give r s = (r, s)"

lemma seq_iff: "seq c k s = (r, s') \<longleftrightarrow>
    (\<exists>e. c s = (Inl e, s') \<and> r = Inl e) \<or> (\<exists>a s1. c s = (Inr a, s1) \<and> k a s1 = (r, s'))"
  by (auto simp: seq_def split: prod.split sum.split)

lemma ok_iff: "ok a s = (r, s') \<longleftrightarrow> r = Inr a \<and> s' = s"
  by (auto simp: ok_def)

lemma fail_iff: "fail e s = (r, s') \<longleftrightarrow> r = Inl e \<and> s' = s"
  by (auto simp: fail_def)

lemma give_iff: "give v s = (r, s') \<longleftrightarrow> r = v \<and> s' = s"
  by (auto simp: give_def)

lemma attempt_iff: "attempt e f s = (r, s') \<longleftrightarrow>
    f s = None \<and> r = Inl e \<and> s' = s \<or> f s = Some s' \<and> r = Inr ()"
  by (auto simp: attempt_def split: option.split)

lemma finally_iff: "finally_do c clean s = (r, s') \<longleftrightarrow> (\<exists>s1. c s = (r, s1) \<and> s' = clean s1)"
  by (auto simp: finally_do_def split: prod.split)

lemma on_error_iff: "on_error c h s = (r, s') \<longleftrightarrow>
    (\<exists>a. c s = (Inr a, s') \<and> r = Inr a) \<or>
    (\<exists>e s1. c s = (Inl e, s1) \<and> ((\<exists>e'. h s1 = (Inl e', s') \<and> r = Inl e') \<or> (\<exists>u. h s1 = (Inr u, s') \<and> r = Inl e)))"
  by (auto simp: on_error_def split: prod.split sum.split)

lemmas statement_iffs = seq_iff ok_iff fail_iff give_iff attempt_iff finally_iff on_error_iff

section \<open>Statements that keep an invariant\<close>

text \<open>Started in \<open>I\<close>, the statement ends in \<open>I\<close>, with or without an error, and a value satisfies \<open>Q\<close>.\<close>

definition hoare :: "('s \<Rightarrow> bool) \<Rightarrow> ('s \<Rightarrow> ('e + 'a) \<times> 's) \<Rightarrow> ('a \<Rightarrow> bool) \<Rightarrow> bool" where
  "hoare I c Q \<longleftrightarrow> (\<forall>s r s'. I s \<longrightarrow> c s = (r, s') \<longrightarrow> I s' \<and> (\<forall>a. r = Inr a \<longrightarrow> Q a))"

named_theorems hoare_intros

lemma hoareI:
  assumes "\<And>s r s'. I s \<Longrightarrow> c s = (r, s') \<Longrightarrow> I s' \<and> (\<forall>a. r = Inr a \<longrightarrow> Q a)"
  shows "hoare I c Q"
  using assms by (auto simp: hoare_def)

lemma hoareD: "hoare I c Q \<Longrightarrow> I s \<Longrightarrow> c s = (r, s') \<Longrightarrow> I s' \<and> (\<forall>a. r = Inr a \<longrightarrow> Q a)"
  by (simp add: hoare_def)

lemma hoare_seq [hoare_intros]:
  assumes "hoare I c P" and "\<And>a. P a \<Longrightarrow> hoare I (k a) Q"
  shows "hoare I (seq c k) Q"
proof (rule hoareI)
  fix s r s' assume "I s" "seq c k s = (r, s')"
  obtain q s1 where c: "c s = (q, s1)" by fastforce
  have "I s1" "\<And>a. q = Inr a \<Longrightarrow> P a" using hoareD [OF assms(1) \<open>I s\<close> c] by auto
  then show "I s' \<and> (\<forall>a. r = Inr a \<longrightarrow> Q a)"
    using \<open>seq c k s = (r, s')\<close> c hoareD [OF assms(2)] by (cases q) (auto simp: seq_def)
qed

lemma hoare_ok [hoare_intros]: "Q a \<Longrightarrow> hoare I (ok a) Q"
  by (simp add: hoare_def ok_def)

lemma hoare_fail [hoare_intros]: "hoare I (fail e) Q"
  by (simp add: hoare_def fail_def)

lemma hoare_if [hoare_intros]:
  "(b \<Longrightarrow> hoare I c Q) \<Longrightarrow> (\<not> b \<Longrightarrow> hoare I d Q) \<Longrightarrow> hoare I (if b then c else d) Q"
  by simp

lemma hoare_weaken: "hoare I c P \<Longrightarrow> (\<And>a. P a \<Longrightarrow> Q a) \<Longrightarrow> hoare I c Q"
  by (auto simp: hoare_def)

section \<open>What disk steps touch\<close>

definition touches :: "path \<Rightarrow> tree \<Rightarrow> tree \<Rightarrow> bool" where
  "touches d t t' \<longleftrightarrow> (\<forall>q. \<not> prefix d q \<longrightarrow> \<not> prefix q d \<longrightarrow> dict_get t' q = dict_get t q)"

lemma touches_refl [simp]: "touches d t t"
  by (simp add: touches_def)

lemma touches_trans: "touches d t t' \<Longrightarrow> touches d t' t'' \<Longrightarrow> touches d t t''"
  by (simp add: touches_def)

lemma parents_prefix: "q \<in> set (parents p) \<longleftrightarrow> strict_prefix q p"
proof
  assume "q \<in> set (parents p)"
  then obtain k where "k < length p" "q = take k p" by (auto simp: parents_def)
  then show "strict_prefix q p" by (auto simp: strict_prefix_def take_is_prefix dest: arg_cong [where f = length])
next
  assume "strict_prefix q p"
  then obtain r where "p = q @ r" "r \<noteq> []" by (auto simp: strict_prefix_def prefix_def)
  then have "q = take (length q) p" "length q < length p" by simp_all
  then show "q \<in> set (parents p)" unfolding parents_def by force
qed

lemma mkdir_parents_get:
  assumes "mkdir_parents d t = Some t'"
  shows "dict_get t' q = (if dict_get t q = None \<and> q \<noteq> [] \<and> prefix q d then Some Dir else dict_get t q)"
proof -
  have "dict_get (fold (\<lambda>q t. if dict_get t q = None then dict_set q Dir t else t) ds u) q
      = (if dict_get u q = None \<and> q \<in> set ds then Some Dir else dict_get u q)" for ds u
    by (induction ds arbitrary: u) auto
  moreover have "q \<in> set (filter (\<lambda>q. q \<noteq> []) (parents d @ [d])) \<longleftrightarrow> q \<noteq> [] \<and> prefix q d"
    by (auto simp: parents_prefix strict_prefix_def)
  ultimately show ?thesis
    using assms by (auto simp: mkdir_parents_def Let_def split: if_splits)
qed

lemma mkdir_other: "mkdir_parents p t = Some t' \<Longrightarrow> \<not> prefix q p \<Longrightarrow> dict_get t' q = dict_get t q"
  by (simp add: mkdir_parents_get)

lemma mkdir_touches: "mkdir_parents d t = Some t' \<Longrightarrow> touches d t t'"
  using mkdir_other by (auto simp: touches_def)

lemma mkdir_sub_touches:
  assumes "mkdir_parents (d @ [x]) t = Some t'"
  shows "touches d t t'"
  unfolding touches_def
proof (intro allI impI)
  fix q assume "\<not> prefix d q" "\<not> prefix q d"
  then have "\<not> prefix q (d @ [x])" by auto
  then show "dict_get t' q = dict_get t q" by (rule mkdir_other [OF assms])
qed

lemma write_touches: "write_text (d @ x) c t = Some t' \<Longrightarrow> touches d t t'"
  by (auto simp: touches_def write_text_def split: if_splits)

lemma map_of_filter_fst: "map_of (filter (\<lambda>(q, n). P q) t) q = (if P q then map_of t q else None)"
  by (induction t) auto

lemma rmtree_get: "dict_get (rmtree p t) q = (if prefix p q then None else dict_get t q)"
  using map_of_filter_fst [of "\<lambda>q. \<not> prefix p q" t q] by (simp add: rmtree_def)

lemma rmtree_touches: "touches d t (rmtree d t)"
  by (simp add: touches_def rmtree_get)

end
