(* ===== verification/Instances.thy ===== *)
theory Instances
  imports Registry_Props Files
begin

text \<open>
  The life of an instance in \<open>api.py\<close>: creating, adopting and destroying its directory
  together with its registry row. The state is the registry's world and a directory tree;
  paths are the segments of a resolved absolute path. Resolution of symbolic links, YAML
  dumping, the clock and which disk operations fail are arguments (\<open>io\<close>). Downloads, which
  run after the instance is committed and only print a note when they fail, are left out.
\<close>

section \<open>State\<close>

record istate =
  reg :: world
  tree :: tree

record io =
  io_pyd :: pyd
  io_resolve :: "string \<Rightarrow> path"
  io_dump :: "pyval \<Rightarrow> string"
  io_float :: "rat \<Rightarrow> string"
  io_render_node :: bool
  io_now :: string
  io_mkdir_ok :: bool
  io_yaml_ok :: bool
  io_fails_at :: "int option"

datatype inst_error =
    BadName string
  | LifecycleWithConfig
  | NameTaken string
  | YamlExists
  | NoYaml
  | Overlap string
  | DiskError
  | NotConfirmed
  | ComposeFailed
  | NotFound string
  | RegistryErr reg_error
  | PortsErr port_error
  | LoadFailed load_error

text \<open>The registry reads sibling configurations from the tree.\<close>

definition view :: "io \<Rightarrow> istate \<Rightarrow> world" where
  "view io st = (reg st)\<lparr>yaml := (yaml (reg st))\<lparr>read_text :=
     (\<lambda>s. case dict_get (tree st) (io_resolve io s) of Some (File c) \<Rightarrow> Some c | _ \<Rightarrow> None)\<rparr>\<rparr>"

definition with_registry :: "io \<Rightarrow> (world \<Rightarrow> (reg_error + 'a) \<times> world) \<Rightarrow> istate \<Rightarrow> (inst_error + 'a) \<times> istate" where
  "with_registry io f st = (case f (view io st) of
     (Inl e, w) \<Rightarrow> (Inl (RegistryErr e), st\<lparr>reg := w\<rparr>)
   | (Inr v, w) \<Rightarrow> (Inr v, st\<lparr>reg := w\<rparr>))"

definition yaml_path :: "path \<Rightarrow> path" where
  "yaml_path rdir = rdir @ [''beetroot.yaml'']"

section \<open>Guards\<close>

definition is_name_char :: "char \<Rightarrow> bool" where
  "is_name_char c \<longleftrightarrow> is_digit c \<or> 97 \<le> (of_char c :: int) \<and> (of_char c :: int) \<le> 122
     \<or> c = CHR ''_'' \<or> c = CHR ''-''"

definition valid_instance_name :: "string \<Rightarrow> bool" where
  "valid_instance_name name \<longleftrightarrow> name \<noteq> [] \<and> list_all is_name_char name"

definition overlaps :: "path \<Rightarrow> path \<Rightarrow> bool" where
  "overlaps reg_dir target \<longleftrightarrow>
     reg_dir = target \<or> target \<in> set (parents reg_dir) \<or> reg_dir \<in> set (parents target)"

fun first_overlap :: "(string \<Rightarrow> path) \<Rightarrow> path \<Rightarrow> registry_file \<Rightarrow> string option" where
  "first_overlap resolve target [] = None"
| "first_overlap resolve target ((other, m) # rows) = (case dir_of (backend m) of
     None \<Rightarrow> first_overlap resolve target rows
   | Some ap \<Rightarrow> if overlaps (resolve ap) target then Some other else first_overlap resolve target rows)"

definition check_directory_overlap :: "io \<Rightarrow> path \<Rightarrow> istate \<Rightarrow> (inst_error + unit) \<times> istate" where
  "check_directory_overlap io target st = (case with_registry io (list_instances (io_pyd io)) st of
     (Inl e, st1) \<Rightarrow> (Inl e, st1)
   | (Inr rows, st1) \<Rightarrow> (case first_overlap (io_resolve io) target rows of
       Some other \<Rightarrow> (Inl (Overlap other), st1)
     | None \<Rightarrow> (Inr (), st1)))"

section \<open>Local staging\<close>

text \<open>Disk steps in order; one of them may fail, and a failed step has no effect.\<close>

fun run_steps :: "int option \<Rightarrow> int \<Rightarrow> (tree \<Rightarrow> tree option) list \<Rightarrow> tree \<Rightarrow> (inst_error + unit) \<times> tree" where
  "run_steps fails k [] t = (Inr (), t)"
| "run_steps fails k (s # ss) t =
     (if fails = Some k then (Inl DiskError, t)
      else case s t of
        None \<Rightarrow> (Inl DiskError, t)
      | Some t' \<Rightarrow> run_steps fails (k + 1) ss t')"

text \<open>A directory in the place of the binary has a positive size too.\<close>

definition has_real_frida :: "path \<Rightarrow> tree \<Rightarrow> bool" where
  "has_real_frida rdir t = (case dict_get t (rdir @ [''frida-server'']) of
     Some (File c) \<Rightarrow> c \<noteq> [] | Some Dir \<Rightarrow> True | None \<Rightarrow> False)"

definition stage_steps :: "io \<Rightarrow> string \<Rightarrow> path \<Rightarrow> instance_config \<Rightarrow> (string, string) dict option \<Rightarrow> resolved_port list
    \<Rightarrow> (tree \<Rightarrow> tree option) list" where
  "stage_steps io name rdir cfg stealth new_ports =
     [mkdir_parents (rdir @ [''data'']),
      mkdir_parents (rdir @ [''modules'']),
      write_text (rdir @ [''.env'']) (render_env (io_float io) (io_render_node io) name cfg stealth),
      write_text (rdir @ [''compose.override.yaml'']) (render_compose_ports_override new_ports),
      (\<lambda>t. if frida cfg = None \<or> \<not> has_real_frida rdir t
           then Option.bind (mkdir_parents rdir t) (write_text (rdir @ [''frida-server'']) [])
           else Some t)]"

definition stage_local :: "io \<Rightarrow> string \<Rightarrow> path \<Rightarrow> instance_config \<Rightarrow> istate \<Rightarrow> (inst_error + unit) \<times> istate" where
  "stage_local io name rdir cfg st = (case with_registry io (get (io_pyd io) name) st of
     (Inl e, st1) \<Rightarrow> (Inl e, st1)
   | (Inr None, st1) \<Rightarrow> (Inl (NotFound name), st1)
   | (Inr (Some m), st1) \<Rightarrow>
       let stealth = (case backend m of Redroid _ sp \<Rightarrow> Some sp | _ \<Rightarrow> None)
       in case resolve_ports (index m) (ports cfg) False of
            Inl e \<Rightarrow> (Inl (PortsErr e), st1)
          | Inr (new_ports, notes) \<Rightarrow>
              let st2 = st1\<lparr>reg := fold note_world notes (reg st1)\<rparr>;
                  (r, t) = run_steps (io_fails_at io) 0 (stage_steps io name rdir cfg stealth new_ports) (tree st2)
              in (r, st2\<lparr>tree := t\<rparr>))"

section \<open>Operations\<close>

definition backend_for :: "path \<Rightarrow> instance_config \<Rightarrow> backend" where
  "backend_for rdir cfg = (if binder_mode cfg = BinderVm then VmBackend (path_str rdir) else Redroid (path_str rdir) [])"

definition rollback_partial_create :: "io \<Rightarrow> string \<Rightarrow> path \<Rightarrow> bool \<Rightarrow> istate \<Rightarrow> (inst_error + unit) \<times> istate" where
  "rollback_partial_create io name rdir created_dir st = (case with_registry io (remove (io_pyd io) name) st of
     (Inl e, st1) \<Rightarrow> (Inl e, st1)
   | (Inr _, st1) \<Rightarrow>
       (Inr (), if created_dir \<and> exists_at rdir (tree st1) then st1\<lparr>tree := rmtree rdir (tree st1)\<rparr> else st1))"

text \<open>
  The part \<open>create\<close> and \<open>register\<close> share: allocate and register, then resolve, check and stage
  with a rollback. An error of the rollback itself replaces the first one.
\<close>

definition commit_body :: "io \<Rightarrow> string \<Rightarrow> path \<Rightarrow> instance_config \<Rightarrow> int \<Rightarrow> istate \<Rightarrow> (inst_error + unit) \<times> istate" where
  "commit_body io name rdir cfg i st = (case resolve_ports i (ports cfg) False of
     Inl e \<Rightarrow> (Inl (PortsErr e), st)
   | Inr (new_ports, notes) \<Rightarrow>
       (case with_registry io (assert_no_port_collision (io_pyd io) name new_ports)
               (st\<lparr>reg := fold note_world notes (reg st)\<rparr>) of
          (Inl e, st1) \<Rightarrow> (Inl e, st1)
        | (Inr _, st1) \<Rightarrow> stage_local io name rdir cfg st1))"

definition commit_instance :: "io \<Rightarrow> string \<Rightarrow> path \<Rightarrow> instance_config \<Rightarrow> bool \<Rightarrow> istate \<Rightarrow> (inst_error + int) \<times> istate" where
  "commit_instance io name rdir cfg created_dir st =
     (case with_registry io (add_allocating (io_pyd io) name None (Some (backend_for rdir cfg)) (io_now io)) st of
        (Inl e, st1) \<Rightarrow> (Inl e, st1)
      | (Inr i, st1) \<Rightarrow> (case commit_body io name rdir cfg i st1 of
          (Inr _, st2) \<Rightarrow> (Inr i, st2)
        | (Inl e, st2) \<Rightarrow> (case rollback_partial_create io name rdir created_dir st2 of
            (Inl e', st3) \<Rightarrow> (Inl e', st3) | (Inr _, st3) \<Rightarrow> (Inl e, st3))))"

definition lifecycle_text :: "lifecycle \<Rightarrow> string" where
  "lifecycle_text l = (case l of Ephemeral \<Rightarrow> ''ephemeral'' | Durable \<Rightarrow> ''durable'')"

definition minimal_yaml :: "lifecycle option \<Rightarrow> string" where
  "minimal_yaml l = ''api_version: 8'' @ NL @ ''android:'' @ NL @ ''  version: 14'' @ NL
     @ (case l of None \<Rightarrow> '''' | Some x \<Rightarrow> ''lifecycle: '' @ lifecycle_text x @ NL)"

text \<open>\<open>Instance.create\<close>; \<open>rdir\<close> is the resolved target directory.\<close>

definition create :: "io \<Rightarrow> string \<Rightarrow> path \<Rightarrow> instance_config option \<Rightarrow> lifecycle option \<Rightarrow> istate
    \<Rightarrow> (inst_error + int) \<times> istate" where
  "create io name rdir cfg life st =
     (if \<not> valid_instance_name name then (Inl (BadName name), st)
      else if cfg \<noteq> None \<and> life \<noteq> None then (Inl LifecycleWithConfig, st)
      else case with_registry io (get (io_pyd io) name) st of
        (Inl e, st1) \<Rightarrow> (Inl e, st1)
      | (Inr (Some _), st1) \<Rightarrow> (Inl (NameTaken name), st1)
      | (Inr None, st1) \<Rightarrow>
          if exists_at (yaml_path rdir) (tree st1) then (Inl YamlExists, st1)
          else (case check_directory_overlap io rdir st1 of
              (Inl e, st2) \<Rightarrow> (Inl e, st2)
            | (Inr _, st2) \<Rightarrow>
                let effective = (case cfg of Some c \<Rightarrow> c
                      | None \<Rightarrow> default_config\<lparr>lifecycle := (case life of Some l \<Rightarrow> l | None \<Rightarrow> Durable)\<rparr>);
                    created_dir = (\<not> exists_at rdir (tree st2));
                    doc = (case cfg of None \<Rightarrow> minimal_yaml life
                      | Some c \<Rightarrow> io_dump io (PDict (dump_config_fields c)))
                in (case (if io_mkdir_ok io then mkdir_parents rdir (tree st2) else None) of
                    None \<Rightarrow> (Inl DiskError, st2)
                  | Some t1 \<Rightarrow> (case (if io_yaml_ok io then write_text (yaml_path rdir) doc t1 else None) of
                      None \<Rightarrow> (Inl DiskError, st2\<lparr>tree := t1\<rparr>)
                    | Some t \<Rightarrow> commit_instance io name rdir effective created_dir (st2\<lparr>tree := t\<rparr>)))))"

text \<open>\<open>Instance.register\<close>; the name defaults to the last segment of the directory.\<close>

definition register :: "io \<Rightarrow> path \<Rightarrow> string option \<Rightarrow> istate \<Rightarrow> (inst_error + int) \<times> istate" where
  "register io rdir name_arg st =
     (case dict_get (tree st) (yaml_path rdir) of
        Some (File _) \<Rightarrow>
          (let name = (case name_arg of Some n \<Rightarrow> n | None \<Rightarrow> if rdir = [] then [] else last rdir)
           in if \<not> valid_instance_name name then (Inl (BadName name), st)
              else case with_registry io (get (io_pyd io) name) st of
                (Inl e, st1) \<Rightarrow> (Inl e, st1)
              | (Inr (Some _), st1) \<Rightarrow> (Inl (NameTaken name), st1)
              | (Inr None, st1) \<Rightarrow> (case check_directory_overlap io rdir st1 of
                  (Inl e, st2) \<Rightarrow> (Inl e, st2)
                | (Inr _, st2) \<Rightarrow>
                    (case load_yaml (yaml (view io st2)) (instance_yaml (path_str rdir)) (loads (reg st2)) of
                       (Inl e, ls) \<Rightarrow> (Inl (LoadFailed e), st2\<lparr>reg := (reg st2)\<lparr>loads := ls\<rparr>\<rparr>)
                     | (Inr cfg, ls) \<Rightarrow> commit_instance io name rdir cfg False
                         (st2\<lparr>reg := (reg st2)\<lparr>loads := ls\<rparr>\<rparr>))))
      | _ \<Rightarrow> (Inl NoYaml, st))"

text \<open>
  \<open>Instance.destroy\<close> of the instance \<open>name\<close> rooted at \<open>rdir\<close>; \<open>down_ok\<close> is the outcome of
  \<open>docker compose down\<close>. The lock file is made in the directory while it exists.
\<close>

definition teardown_under_lock :: "io \<Rightarrow> string \<Rightarrow> path \<Rightarrow> bool \<Rightarrow> istate \<Rightarrow> (inst_error + unit) \<times> istate" where
  "teardown_under_lock io name rdir down_ok st = (case with_registry io (remove (io_pyd io) name) st of
     (Inl e, st1) \<Rightarrow> (Inl e, st1)
   | (Inr _, st1) \<Rightarrow>
       let st2 = (if exists_at rdir (tree st1) then st1\<lparr>tree := rmtree rdir (tree st1)\<rparr> else st1)
       in (if down_ok then Inr () else Inl ComposeFailed, st2))"

definition lock_file :: "path \<Rightarrow> path" where
  "lock_file rdir = rdir @ [''.beetroot.lock'']"

definition destroy :: "io \<Rightarrow> string \<Rightarrow> path \<Rightarrow> bool \<Rightarrow> bool \<Rightarrow> istate \<Rightarrow> (inst_error + unit) \<times> istate" where
  "destroy io name rdir down_ok confirmed st =
     (if \<not> confirmed then (Inl NotConfirmed, st)
      else if exists_at rdir (tree st) then
        (case mkdir_parents rdir (tree st) of
           None \<Rightarrow> (Inl DiskError, st)
         | Some t \<Rightarrow> (case dict_get t (lock_file rdir) of
             Some Dir \<Rightarrow> (Inl DiskError, st\<lparr>tree := t\<rparr>)
           | Some (File _) \<Rightarrow> teardown_under_lock io name rdir down_ok (st\<lparr>tree := t\<rparr>)
           | None \<Rightarrow> teardown_under_lock io name rdir down_ok
               (st\<lparr>tree := dict_set (lock_file rdir) (File []) t\<rparr>)))
      else teardown_under_lock io name rdir down_ok st)"

end
