(* ===== verification/Snapshot.thy ===== *)
theory Snapshot
  imports Instances "HOL-Library.List_Lexorder" "HOL-Library.Char_ord"
begin

text \<open>
  \<open>snapshot.py\<close>: packing an instance directory into an archive and restoring an archive as a
  new instance. The archive format (tar inside zstd), JSON text and what one call of
  \<open>tar.extract\<close> puts on disk are arguments (\<open>senv\<close>); which members are packed and in which
  order, the manifest, every check of \<open>restore\<close>, the size cap and the rollback are modelled.
\<close>

section \<open>Archives and manifests\<close>

definition MANIFEST_FILENAME :: string where "MANIFEST_FILENAME = ''.beetroot-snapshot.json''"
definition INSTANCE_LOCK_FILENAME :: string where "INSTANCE_LOCK_FILENAME = ''.beetroot.lock''"
definition ARCHIVE_SUFFIX :: string where "ARCHIVE_SUFFIX = ''.tar.zst''"
definition MAX_EXTRACT_BYTES :: int where "MAX_EXTRACT_BYTES = 64 * 1024 * 1024 * 1024"
definition MANIFEST_SCHEMA :: int where "MANIFEST_SCHEMA = 1"

definition EXCLUDED_TOP_LEVEL :: "string list" where
  "EXCLUDED_TOP_LEVEL = [''.env'', ''compose.override.yaml'', MANIFEST_FILENAME, INSTANCE_LOCK_FILENAME]"

datatype tar_kind = TarFile string | TarDir | TarOther

datatype tar_member = Tar_Member (arcname: string) (tkind: tar_kind)

datatype stream_end = StreamEnd | ZstdBroken | TarBroken

text \<open>
  An archive as the stream delivers it: each member with the sizes of the decompressed chunks
  read for its header and for its body, the chunks read after the last member, and how the
  stream ends.
\<close>

record archive =
  entries :: "(tar_member \<times> int list \<times> int list) list"
  trailer :: "int list"
  ending :: stream_end

text \<open>The two literal fields, \<open>schema_version\<close> and \<open>kind\<close>, have one value each.\<close>

record manifest =
  mf_name :: string
  source_index :: int
  mf_created_at :: string
  beetroot_version :: string
  path_layout :: "(string, string) dict"
  mf_lifecycle :: lifecycle

record senv =
  s_io :: io
  json_loads :: "string \<Rightarrow> doc"
  json_dumps :: "pyval \<Rightarrow> string"
  pack :: "tar_member list \<Rightarrow> string"
  unpack :: "string \<Rightarrow> archive"
  place :: "tar_member \<Rightarrow> path \<Rightarrow> tree \<Rightarrow> tree option"
  torn :: "tar_member \<Rightarrow> path \<Rightarrow> tree \<Rightarrow> tree"
  release :: string

datatype snap_error =
    NoInstanceAt path
  | NotRegistered path
  | UnsupportedBackend string string string
  | BadDestination
  | ArchiveUnreadable
  | NotZstd
  | MalformedTar
  | ManifestNotFile
  | ManifestMissing
  | ManifestInvalid
  | TargetIsFile path
  | TargetOverlaps string
  | TargetOccupied path
  | NameRegistered string
  | CapExceeded
  | MemberRefused string
  | StreamBroken
  | ArchiveWithoutYaml
  | RestoredPortTaken int string string
  | RestoredPortErr port_error
  | NoSuchInstance string
  | Failed inst_error

type_synonym 'a act = "istate \<Rightarrow> (snap_error + 'a) \<times> istate"

definition lift_inst :: "(istate \<Rightarrow> (inst_error + 'a) \<times> istate) \<Rightarrow> 'a act" where
  "lift_inst c st = (case c st of (Inl e, st') \<Rightarrow> (Inl (Failed e), st') | (Inr a, st') \<Rightarrow> (Inr a, st'))"

definition manifest_to_json :: "manifest \<Rightarrow> pyval" where
  "manifest_to_json mf = Config_Load.fields
     [(''beetroot_version'', PStr (beetroot_version mf)),
      (''created_at'', PStr (mf_created_at mf)),
      (''kind'', PStr ''redroid''),
      (''lifecycle'', PStr (lifecycle_text (mf_lifecycle mf))),
      (''name'', PStr (mf_name mf)),
      (''path_layout'', PDict (map (\<lambda>(k, v). (PStr k, PStr v)) (sort_key fst (path_layout mf)))),
      (''schema_version'', PInt MANIFEST_SCHEMA),
      (''source_index'', PInt (source_index mf))]"

definition MANIFEST_FIELDS :: "string list" where
  "MANIFEST_FIELDS = [''schema_version'', ''name'', ''source_index'', ''created_at'', ''beetroot_version'',
     ''kind'', ''path_layout'', ''lifecycle'']"

text \<open>\<open>Manifest.model_validate_json\<close> on the decoded document: unknown keys are refused.\<close>

definition field_or :: "(pyval \<times> pyval) list \<Rightarrow> string \<Rightarrow> 'a \<Rightarrow> (pyval \<Rightarrow> 'a option) \<Rightarrow> 'a option" where
  "field_or d k dflt f = (case dict_get d (PStr k) of None \<Rightarrow> Some dflt | Some v \<Rightarrow> f v)"

definition parse_lifecycle :: "pyval \<Rightarrow> lifecycle option" where
  "parse_lifecycle v = (if v = PStr ''ephemeral'' then Some Ephemeral
     else if v = PStr ''durable'' then Some Durable else None)"

definition literal :: "pyval \<Rightarrow> pyval \<Rightarrow> unit option" where
  "literal expected v = (if v = expected then Some () else None)"

definition Manifest_model_validate :: "pyd \<Rightarrow> pyval \<Rightarrow> manifest option" where
  "Manifest_model_validate p v = (case v of
     PDict d \<Rightarrow>
       if only_keys MANIFEST_FIELDS d
          \<and> field_or d ''schema_version'' () (literal (PInt MANIFEST_SCHEMA)) = Some ()
          \<and> field_or d ''kind'' () (literal (PStr ''redroid'')) = Some ()
       then (case (str_field p ''name'' d, Option.bind (dict_get d (PStr ''source_index'')) (pyd_int p),
                   str_field p ''created_at'' d, str_field p ''beetroot_version'' d,
                   field_or d ''path_layout'' [] (str_dict p), field_or d ''lifecycle'' Durable parse_lifecycle) of
               (Some n, Some i, Some c, Some b, Some l, Some lc) \<Rightarrow>
                 Some \<lparr>mf_name = n, source_index = i, mf_created_at = c, beetroot_version = b,
                   path_layout = l, mf_lifecycle = lc\<rparr>
             | _ \<Rightarrow> None)
       else None
   | _ \<Rightarrow> None)"

definition is_manifest_member :: "tar_member \<Rightarrow> bool" where
  "is_manifest_member m \<longleftrightarrow> arcname m \<in> {''./'' @ MANIFEST_FILENAME, MANIFEST_FILENAME}"

fun extract_manifest_bytes :: "(tar_member \<times> int list \<times> int list) list \<Rightarrow> stream_end \<Rightarrow> snap_error + string" where
  "extract_manifest_bytes [] end = Inl (case end of ZstdBroken \<Rightarrow> NotZstd | TarBroken \<Rightarrow> MalformedTar | StreamEnd \<Rightarrow> ManifestMissing)"
| "extract_manifest_bytes ((m, _) # ms) end =
     (if is_manifest_member m then (case tkind m of TarFile b \<Rightarrow> Inr b | _ \<Rightarrow> Inl ManifestNotFile)
      else extract_manifest_bytes ms end)"

definition open_archive :: "senv \<Rightarrow> path \<Rightarrow> archive act" where
  "open_archive env a st = (case dict_get (tree st) a of
     Some (File b) \<Rightarrow> (Inr (unpack env b), st) | _ \<Rightarrow> (Inl ArchiveUnreadable, st))"

definition read_manifest :: "senv \<Rightarrow> path \<Rightarrow> manifest act" where
  "read_manifest env a = seq (open_archive env a) (\<lambda>arch.
     case extract_manifest_bytes (entries arch) (ending arch) of
       Inl e \<Rightarrow> fail e
     | Inr b \<Rightarrow> (case json_loads env b of
         Json v \<Rightarrow> (case Manifest_model_validate (io_pyd (s_io env)) v of
           Some mf \<Rightarrow> ok mf | None \<Rightarrow> fail ManifestInvalid)
       | _ \<Rightarrow> fail ManifestInvalid))"

section \<open>Snapshot\<close>

definition ensure_suffix :: "path \<Rightarrow> path" where
  "ensure_suffix dest = (if endswith (last dest) ARCHIVE_SUFFIX then dest
     else butlast dest @ [last dest @ ARCHIVE_SUFFIX])"

fun find_entry :: "(string \<Rightarrow> path) \<Rightarrow> path \<Rightarrow> registry_file
    \<Rightarrow> snap_error + (string \<times> instance_meta \<times> (string, string) dict)" where
  "find_entry resolve target [] = Inl (NotRegistered target)"
| "find_entry resolve target ((name, m) # rows) = (case backend m of
     Redroid ap sp \<Rightarrow> if resolve ap = target then Inr (name, m, sp) else find_entry resolve target rows
   | VmBackend ap \<Rightarrow> if resolve ap = target then Inl (UnsupportedBackend ''snapshot'' name ''vm'')
       else find_entry resolve target rows
   | _ \<Rightarrow> find_entry resolve target rows)"

definition find_registry_entry :: "senv \<Rightarrow> path \<Rightarrow> (string \<times> instance_meta \<times> (string, string) dict) act" where
  "find_registry_entry env target = seq (lift_inst (with_registry (s_io env) (list_instances (io_pyd (s_io env)))))
     (\<lambda>rows. case find_entry (io_resolve (s_io env)) target rows of Inl e \<Rightarrow> fail e | Inr x \<Rightarrow> ok x)"

definition load_config :: "io \<Rightarrow> path \<Rightarrow> istate \<Rightarrow> (inst_error + instance_config) \<times> istate" where
  "load_config io rdir st =
     (case load_yaml (yaml (view io st)) (instance_yaml (path_str rdir)) (loads (reg st)) of
        (Inl e, ls) \<Rightarrow> (Inl (LoadFailed e), st\<lparr>reg := (reg st)\<lparr>loads := ls\<rparr>\<rparr>)
      | (Inr cfg, ls) \<Rightarrow> (Inr cfg, st\<lparr>reg := (reg st)\<lparr>loads := ls\<rparr>\<rparr>))"

definition read_lifecycle :: "senv \<Rightarrow> path \<Rightarrow> lifecycle act" where
  "read_lifecycle env rdir st = (case load_config (s_io env) rdir st of
     (Inl _, st') \<Rightarrow> (Inr Durable, st') | (Inr cfg, st') \<Rightarrow> (Inr (lifecycle cfg), st'))"

definition build_manifest :: "senv \<Rightarrow> string \<Rightarrow> int \<Rightarrow> (string, string) dict \<Rightarrow> lifecycle \<Rightarrow> manifest" where
  "build_manifest env name i layout lc = \<lparr>mf_name = name, source_index = i, mf_created_at = io_now (s_io env),
     beetroot_version = release env, path_layout = layout, mf_lifecycle = lc\<rparr>"

definition arc_path :: "path \<Rightarrow> string" where
  "arc_path rel = ''./'' @ join ''/'' rel"

text \<open>The members below \<open>rdir\<close> in the order of the sorted walk: a directory before what is in it.\<close>

definition packed_nodes :: "path \<Rightarrow> path \<Rightarrow> tree \<Rightarrow> (path \<times> node) list" where
  "packed_nodes rdir dest t =
     sort_key fst (map (\<lambda>(q, n). (drop (length rdir) q, n))
       (filter (\<lambda>(q, n). prefix rdir q \<and> q \<noteq> rdir \<and> q ! length rdir \<notin> set EXCLUDED_TOP_LEVEL \<and> q \<noteq> dest) t))"

definition add_instance_tree :: "path \<Rightarrow> path \<Rightarrow> tree \<Rightarrow> tar_member list" where
  "add_instance_tree rdir dest t = map (\<lambda>(rel, n). Tar_Member (arc_path rel)
     (case n of Dir \<Rightarrow> TarDir | File c \<Rightarrow> TarFile c)) (packed_nodes rdir dest t)"

definition add_manifest :: "senv \<Rightarrow> manifest \<Rightarrow> tar_member" where
  "add_manifest env mf = Tar_Member (''./'' @ MANIFEST_FILENAME) (TarFile (json_dumps env (manifest_to_json mf)))"

definition on_tree :: "snap_error \<Rightarrow> (tree \<Rightarrow> tree option) \<Rightarrow> unit act" where
  "on_tree e f st = (case f (tree st) of None \<Rightarrow> (Inl e, st) | Some t \<Rightarrow> (Inr (), st\<lparr>tree := t\<rparr>))"

definition touch_lock :: "path \<Rightarrow> tree \<Rightarrow> tree option" where
  "touch_lock rdir t = Option.bind (mkdir_parents rdir t) (\<lambda>t. case dict_get t (lock_file rdir) of
     Some Dir \<Rightarrow> None | Some (File _) \<Rightarrow> Some t | None \<Rightarrow> Some (dict_set (lock_file rdir) (File []) t))"

definition write_archive :: "senv \<Rightarrow> path \<Rightarrow> path \<Rightarrow> manifest \<Rightarrow> unit act" where
  "write_archive env rdir final mf st = on_tree (Failed DiskError) (write_text final
     (pack env (add_manifest env mf # add_instance_tree rdir final (tree st)))) st"

text \<open>\<open>rdir\<close> and \<open>dest\<close> are resolved paths; the archive is created empty before the walk.\<close>

definition snapshot :: "senv \<Rightarrow> path \<Rightarrow> path \<Rightarrow> path act" where
  "snapshot env rdir dest st =
     (if \<not> is_file_node (dict_get (tree st) (yaml_path rdir)) then (Inl (NoInstanceAt rdir), st)
      else seq (find_registry_entry env rdir) (\<lambda>(name, m, sp).
        if dest = [] then fail BadDestination
        else let final = ensure_suffix dest in
          seq (on_tree (Failed DiskError) (mkdir_parents (butlast final))) (\<lambda>_.
          seq (read_lifecycle env rdir) (\<lambda>lc.
          seq (on_tree (Failed DiskError) (touch_lock rdir)) (\<lambda>_.
          seq (on_tree (Failed DiskError) (write_text final [])) (\<lambda>_.
          seq (write_archive env rdir final (build_manifest env name (index m) sp lc)) (\<lambda>_.
          ok final)))))) st)"

section \<open>Restore\<close>

text \<open>\<open>any(target.iterdir())\<close>\<close>

definition occupied :: "path \<Rightarrow> tree \<Rightarrow> bool" where
  "occupied target t \<longleftrightarrow> list_ex (\<lambda>(q, _). q \<noteq> [] \<and> butlast q = target) t"

definition prepare_destination :: "senv \<Rightarrow> path \<Rightarrow> bool \<Rightarrow> unit act" where
  "prepare_destination env target force st =
     (if is_file_node (dict_get (tree st) target) then (Inl (TargetIsFile target), st)
      else let occ = occupied target (tree st) in
        seq (lift_inst (with_registry (s_io env) (list_instances (io_pyd (s_io env))))) (\<lambda>rows.
          case first_overlap (io_resolve (s_io env)) target rows of
            Some other \<Rightarrow> fail (TargetOverlaps other)
          | None \<Rightarrow>
              if \<not> occ then ok ()
              else if \<not> force then fail (TargetOccupied target)
              else (\<lambda>st. (Inr (), st\<lparr>tree := rmtree target (tree st)\<rparr>))) st)"

text \<open>\<open>_CappedReader.read\<close> on the chunks the stream delivers.\<close>

fun capped_reads :: "int \<Rightarrow> int \<Rightarrow> int list \<Rightarrow> int option" where
  "capped_reads cap seen [] = Some seen"
| "capped_reads cap seen (c # cs) = (if seen + c > cap then None else capped_reads cap (seen + c) cs)"

fun extract_members :: "senv \<Rightarrow> path \<Rightarrow> int \<Rightarrow> int \<Rightarrow> (tar_member \<times> int list \<times> int list) list \<Rightarrow> tree
    \<Rightarrow> (snap_error + int) \<times> tree" where
  "extract_members env target cap seen [] t = (Inr seen, t)"
| "extract_members env target cap seen ((m, hdr, body) # ms) t = (case capped_reads cap seen hdr of
     None \<Rightarrow> (Inl CapExceeded, t)
   | Some n \<Rightarrow> (case capped_reads cap n body of
       None \<Rightarrow> (Inl CapExceeded, torn env m target t)
     | Some n' \<Rightarrow> (case place env m target t of
         None \<Rightarrow> (Inl (MemberRefused (arcname m)), torn env m target t)
       | Some t' \<Rightarrow> extract_members env target cap n' ms t')))"

definition extract_archive_into :: "senv \<Rightarrow> path \<Rightarrow> path \<Rightarrow> unit act" where
  "extract_archive_into env a target = seq (open_archive env a) (\<lambda>arch.
     seq (\<lambda>st. case extract_members env target MAX_EXTRACT_BYTES 0 (entries arch) (tree st) of
            (r, t) \<Rightarrow> (r, st\<lparr>tree := t\<rparr>)) (\<lambda>seen.
       if capped_reads MAX_EXTRACT_BYTES seen (trailer arch) = None then fail CapExceeded
       else if ending arch \<noteq> StreamEnd then fail StreamBroken
       else (\<lambda>st. if is_file_node (dict_get (tree st) (yaml_path target)) then (Inr (), st)
                  else (Inl ArchiveWithoutYaml, st))))"

definition resolve_noting :: "int \<Rightarrow> port_mapping list \<Rightarrow> resolved_port list act" where
  "resolve_noting i ms st = (case resolve_ports i ms False of
     Inl e \<Rightarrow> (Inl (RestoredPortErr e), st)
   | Inr (new_ports, notes) \<Rightarrow> (Inr new_ports, st\<lparr>reg := fold note_world notes (reg st)\<rparr>))"

definition check_restored_port_collision :: "senv \<Rightarrow> string \<Rightarrow> int \<Rightarrow> path \<Rightarrow> unit act" where
  "check_restored_port_collision env dest_name i target =
     seq (lift_inst (load_config (s_io env) target)) (\<lambda>cfg.
     seq (resolve_noting i (ports cfg)) (\<lambda>new_ports.
     seq (lift_inst (with_registry (s_io env) (all_resolved_host_ports (io_pyd (s_io env))))) (\<lambda>all.
       case find_port_collision new_ports (dict_pop dest_name all) of
         None \<Rightarrow> ok ()
       | Some (port, other, kind) \<Rightarrow> fail (RestoredPortTaken port other kind))))"

text \<open>\<open>Instance.load\<close>: the row must be a redroid row and its configuration must load.\<close>

definition load_instance :: "senv \<Rightarrow> string \<Rightarrow> (path \<times> instance_config) act" where
  "load_instance env name =
     seq (lift_inst (with_registry (s_io env) (get (io_pyd (s_io env)) name))) (\<lambda>row.
       case row of
         None \<Rightarrow> fail (NoSuchInstance name)
       | Some m \<Rightarrow> (case backend m of
           Redroid ap _ \<Rightarrow> seq (lift_inst (load_config (s_io env) (io_resolve (s_io env) ap)))
             (\<lambda>cfg. ok (io_resolve (s_io env) ap, cfg))
         | _ \<Rightarrow> fail (NoSuchInstance name)))"

definition restore_body :: "senv \<Rightarrow> path \<Rightarrow> string \<Rightarrow> path \<Rightarrow> manifest \<Rightarrow> int \<Rightarrow> unit act" where
  "restore_body env a dest_name target mf i =
     seq (extract_archive_into env a target) (\<lambda>_.
     seq (lift_inst (load_config (s_io env) target)) (\<lambda>cfg.
     if binder_mode cfg = BinderVm then fail (UnsupportedBackend ''restore'' dest_name ''vm'')
     else seq (if path_layout mf = [] then ok ()
               else lift_inst (with_registry (s_io env)
                 (set_stealth_paths (io_pyd (s_io env)) dest_name (path_layout mf)))) (\<lambda>_.
     seq (check_restored_port_collision env dest_name i target) (\<lambda>_.
     seq (load_instance env dest_name) (\<lambda>(rdir, loaded).
     lift_inst (stage_local (s_io env) dest_name rdir loaded))))))"

text \<open>
  From the directory on: made, registered, filled and staged, with the rollback.
  \<open>target\<close> is the resolved destination, \<open>a\<close> the archive's path.
\<close>

definition restore_into :: "senv \<Rightarrow> path \<Rightarrow> string \<Rightarrow> path \<Rightarrow> manifest \<Rightarrow> path act" where
  "restore_into env a dest_name target mf st =
     (let created_dir = (\<not> exists_at target (tree st)) in
      seq (on_tree (Failed DiskError) (mkdir_parents target)) (\<lambda>_.
      seq (lift_inst (with_registry (s_io env) (add_allocating (io_pyd (s_io env)) dest_name None
             (Some (Redroid (path_str target) [])) (io_now (s_io env))))) (\<lambda>i.
      seq (on_error (restore_body env a dest_name target mf i)
            (lift_inst (rollback_partial_create (s_io env) dest_name target created_dir))) (\<lambda>_.
      ok target))) st)"

definition restore :: "senv \<Rightarrow> path \<Rightarrow> string \<Rightarrow> path \<Rightarrow> bool \<Rightarrow> path act" where
  "restore env a dest_name target force =
     (if \<not> valid_instance_name dest_name then fail (Failed (BadName dest_name))
      else seq (lift_inst (with_registry (s_io env) (get (io_pyd (s_io env)) dest_name))) (\<lambda>row.
        case row of
          Some m \<Rightarrow> (case backend m of
            Redroid _ _ \<Rightarrow> fail (NameRegistered dest_name)
          | b \<Rightarrow> fail (UnsupportedBackend ''restore'' dest_name (kind_of b)))
        | None \<Rightarrow>
            seq (read_manifest env a) (\<lambda>mf.
            seq (prepare_destination env target force) (\<lambda>_.
            restore_into env a dest_name target mf))))"

end
