(* ===== verification/Instances_Props.thy ===== *)
theory Instances_Props
  imports Instances Registry_Ops
begin

text \<open>
  Creating, adopting and destroying instances: a failed creation leaves the registry as it
  was and removes what it made, and no operation on one instance touches the row or the files
  of another, because registered directories never overlap.
\<close>

section \<open>What registry calls keep\<close>

lemma check_v02_cong:
  assumes "registry_json w' = registry_json w" "cwd_json w' = cwd_json w" "v02_hint_printed w' = v02_hint_printed w"
  shows "fst (check_v02_registry_at_cwd w') = fst (check_v02_registry_at_cwd w)"
  using assms
  by (auto simp: check_v02_registry_at_cwd_def split: option.split doc.split pyval.split)

lemma check_v02_registry: "registry_json (snd (check_v02_registry_at_cwd w)) = registry_json w
   \<and> classes (snd (check_v02_registry_at_cwd w)) = classes w"
  by (auto simp: check_v02_registry_at_cwd_def note_world_def split: option.split doc.split pyval.split)

lemma read_registry_cong:
  assumes "registry_json w' = registry_json w" "cwd_json w' = cwd_json w"
    "v02_hint_printed w' = v02_hint_printed w" "classes w' = classes w"
  shows "fst (read_registry p w') = fst (read_registry p w)"
proof -
  obtain r a where a: "check_v02_registry_at_cwd w = (r, a)" by fastforce
  obtain r' b where b: "check_v02_registry_at_cwd w' = (r', b)" by fastforce
  have "r' = r" using check_v02_cong [OF assms(1-3)] a b by simp
  moreover have "registry_json b = registry_json a" "classes b = classes a"
    using check_v02_registry [of w] check_v02_registry [of w'] a b assms by simp_all
  moreover have "fst (backup_and_warn s b) = fst (backup_and_warn s a)" for s
    by (simp add: backup_and_warn_def Let_def split: option.split)
  ultimately show ?thesis
    using a b by (auto simp: read_registry_def case_prod_beta split: sum.split option.split doc.split)
qed

lemma rows_of_cong:
  assumes "registry_json w' = registry_json w" "cwd_json w' = cwd_json w"
    "v02_hint_printed w' = v02_hint_printed w" "classes w' = classes w"
  shows "rows_of p w' = rows_of p w"
proof -
  have "fst (read_registry p (locked_init w')) = fst (read_registry p (locked_init w))"
    by (rule read_registry_cong) (simp_all add: assms locked_init_def write_registry_def)
  then show ?thesis
    by (cases "read_registry p (locked_init w)"; cases "read_registry p (locked_init w')")
      (simp add: rows_of_def split: sum.split)
qed

lemma rows_of_yaml [simp]: "rows_of p (w\<lparr>yaml := y\<rparr>) = rows_of p w"
  by (rule rows_of_cong) simp_all

lemma rows_of_loads [simp]: "rows_of p (w\<lparr>loads := l\<rparr>) = rows_of p w"
  by (rule rows_of_cong) simp_all

lemma rows_of_notes [simp]: "rows_of p (fold note_world ns w) = rows_of p w"
  by (induction ns arbitrary: w) (simp_all add: note_world_def)

lemma classes_notes [simp]: "classes (fold note_world ns w) = classes w"
  by (induction ns arbitrary: w) (simp_all add: note_world_def)

text \<open>Every registry call keeps the classes; reading calls keep the rows.\<close>

lemma list_instances_rows:
  assumes "list_instances p w = (r, w')"
  shows "rows_of p w' = rows_of p w \<and> classes w' = classes w \<and> (\<forall>f. r = Inr f \<longrightarrow> f = rows_of p w)"
proof (cases "registry_json w")
  case None
  obtain q w1 where c: "check_v02_registry_at_cwd w = (q, w1)" by fastforce
  then have w1: "registry_json w1 = None" "classes w1 = classes w" using check_v02_registry [of w] None by simp_all
  have "w' = w1" "\<forall>f. r = Inr f \<longrightarrow> f = []"
    using assms None c by (auto simp: list_instances_def split: sum.splits)
  then show ?thesis using w1 None rows_of_missing by simp
next
  case (Some d)
  then have l: "locked_init w = w" by (simp add: locked_init_def)
  then have r: "read_registry p (locked_init w) = (r, w')"
    using assms Some by (simp add: list_instances_def split: if_splits)
  then have c: "classes w' = classes w" using read_registry_frame [of p w r w'] l by simp
  show ?thesis
  proof (cases r)
    case (Inl e)
    then show ?thesis using r c rows_of_read_error [of p w e w'] by (simp add: rows_of_def [of p w])
  next
    case (Inr f)
    then show ?thesis using r c rows_of_read [of p w f w'] by (simp add: rows_of_def [of p w])
  qed
qed

lemma get_rows:
  assumes "get p name w = (r, w')"
  shows "rows_of p w' = rows_of p w \<and> classes w' = classes w \<and> (\<forall>v. r = Inr v \<longrightarrow> v = dict_get (rows_of p w) name)"
proof -
  obtain q w1 where l: "list_instances p w = (q, w1)" by fastforce
  with list_instances_rows [OF l] assms show ?thesis by (cases q) (auto simp: get_def)
qed

lemma row_host_ports_frame: "\<exists>l. snd (row_host_ports m w) = w\<lparr>loads := l\<rparr>"
proof (cases "dir_of (backend m)")
  case None
  then show ?thesis by (intro exI [of _ "loads w"]) (simp add: row_host_ports_def split: sum.split)
next
  case (Some ap)
  obtain q ls where "load_yaml (yaml w) (instance_yaml ap) (loads w) = (q, ls)" by fastforce
  with Some show ?thesis
    by (intro exI [of _ ls]) (simp add: row_host_ports_def split: sum.split load_error.split prod.split)
qed

lemma resolved_host_ports_frame: "\<exists>l. snd (resolved_host_ports_from f w) = w\<lparr>loads := l\<rparr>"
proof (induction f arbitrary: w)
  case Nil
  show ?case by (rule exI [of _ "loads w"]) simp
next
  case (Cons nm f)
  obtain n m where nm: "nm = (n, m)" by (cases nm)
  obtain r l where r: "row_host_ports m w = (r, w\<lparr>loads := l\<rparr>)"
    using row_host_ports_frame [of m w] by (cases "row_host_ports m w") auto
  obtain q l' where q: "resolved_host_ports_from f (w\<lparr>loads := l\<rparr>) = (q, w\<lparr>loads := l'\<rparr>)"
    using Cons.IH [of "w\<lparr>loads := l\<rparr>"] by (cases "resolved_host_ports_from f (w\<lparr>loads := l\<rparr>)") auto
  show ?case
  proof (cases r)
    case (Inl e)
    then show ?thesis using r by (intro exI [of _ l]) (simp add: nm)
  next
    case (Inr ps)
    then show ?thesis using r q by (cases q; intro exI [of _ l']) (simp_all add: nm)
  qed
qed

lemma locked_section_classes:
  assumes "\<And>f w1. classes (snd (body f w1)) = classes w1"
  shows "classes (snd (locked_section p body w)) = classes w"
  using assms read_registry_frame [of p "locked_init w"]
  by (cases "read_registry p (locked_init w)") (auto simp: locked_section_def split: sum.split)

lemma assert_no_port_collision_rows:
  assumes "assert_no_port_collision p name new w = (r, w')"
  shows "rows_of p w' = rows_of p w \<and> classes w' = classes w"
proof -
  obtain q w1 where q: "read_registry p (locked_init w) = (q, w1)" by fastforce
  have c: "classes w1 = classes w" using read_registry_frame [OF q] by simp
  show ?thesis
  proof (cases q)
    case (Inl e)
    with q assms have "w' = w1" by (simp add: assert_no_port_collision_def locked_section_def)
    then show ?thesis using c q Inl rows_of_read_error [of p w e w1] by (simp add: rows_of_def [of p w])
  next
    case (Inr f)
    obtain l where l: "snd (resolved_host_ports_from f w1) = w1\<lparr>loads := l\<rparr>"
      using resolved_host_ports_frame by blast
    have "w' = w1\<lparr>loads := l\<rparr>"
      using assms q Inr l by (cases "resolved_host_ports_from f w1")
        (auto simp: assert_no_port_collision_def locked_section_def split: sum.splits option.splits)
    then show ?thesis using c q Inr rows_of_read [of p w f w1] by (simp add: rows_of_def [of p w])
  qed
qed

lemma add_allocating_classes: "classes (snd (add_allocating p name None (Some b) now w)) = classes w"
  by (simp add: add_allocating_def locked_section_classes add_allocating_body_def Let_def write_registry_def
      split: sum.split)

lemma remove_classes: "classes (snd (remove p name w)) = classes w"
  by (simp add: remove_def locked_section_classes remove_body_def write_registry_def)

lemma add_allocating_failed:
  assumes "add_allocating p name None (Some b) now w = (Inl e, w')"
  shows "rows_of p w' = rows_of p w"
proof -
  have "locked_section p (add_allocating_body name b now) w = (Inl e, w')"
    using assms by (simp add: add_allocating_def)
  then show ?thesis by (rule locked_section_untouched) (rule body_failures(1))
qed

lemma remove_failed:
  assumes "remove p name w = (Inl e, w')"
  shows "rows_of p w' = rows_of p w \<and> rows_of p w = []"
proof -
  obtain w1 where q: "read_registry p (locked_init w) = (Inl e, w1)" "w' = w1"
    using assms by (auto simp: remove_def locked_section_def remove_body_def split: prod.splits sum.splits)
  then show ?thesis using rows_of_read_error [of p w e w1] by (simp add: rows_of_def [of p w])
qed

section \<open>What staging touches\<close>

lemma overlaps_iff: "overlaps p q \<longleftrightarrow> prefix p q \<or> prefix q p"
  by (auto simp: overlaps_def parents_prefix strict_prefix_def)

text \<open>Staging adds nodes and rewrites the generated files; every other node stays as it is.\<close>

definition generated_files :: "path \<Rightarrow> path set" where
  "generated_files d = (\<lambda>x. d @ [x]) ` {''.env'', ''compose.override.yaml'', ''frida-server''}"

definition preserves :: "path \<Rightarrow> tree \<Rightarrow> tree \<Rightarrow> bool" where
  "preserves d t t' \<longleftrightarrow> (\<forall>q. dict_get t q \<noteq> None \<longrightarrow>
     dict_get t' q = dict_get t q \<or> q \<in> generated_files d \<and> dict_get t' q \<noteq> None)"

definition edits :: "path \<Rightarrow> tree \<Rightarrow> tree \<Rightarrow> bool" where
  "edits d t t' \<longleftrightarrow> touches d t t' \<and> preserves d t t'"

lemma edits_refl [simp]: "edits d t t"
  by (simp add: edits_def preserves_def)

lemma preserves_trans: "preserves d t t' \<Longrightarrow> preserves d t' t'' \<Longrightarrow> preserves d t t''"
  unfolding preserves_def by metis

lemma edits_trans: "edits d t t' \<Longrightarrow> edits d t' t'' \<Longrightarrow> edits d t t''"
  by (auto simp: edits_def intro: touches_trans preserves_trans)

lemma mkdir_preserves:
  assumes "mkdir_parents p t = Some t'"
  shows "preserves d t t'"
proof -
  have "preserves d u (fold (\<lambda>q t. if dict_get t q = None then dict_set q Dir t else t) ds u)" for ds u
  proof (induction ds arbitrary: u)
    case (Cons q ds)
    have "preserves d u (if dict_get u q = None then dict_set q Dir u else u)"
      by (auto simp: preserves_def)
    from preserves_trans [OF this Cons.IH] show ?case by simp
  qed (simp add: preserves_def)
  with assms show ?thesis
    by (auto simp only: mkdir_parents_def Let_def option.inject option.distinct split: if_split_asm)
qed

lemma mkdir_makes:
  assumes "mkdir_parents p t = Some t'" and "p \<noteq> []"
  shows "dict_get t' p = Some Dir"
proof -
  define mk where "mk = (\<lambda>q t. if dict_get t q = None then dict_set q Dir t else (t :: tree))"
  let ?ds = "filter (\<lambda>q. q \<noteq> []) (parents p)"
  have ds: "filter (\<lambda>q. q \<noteq> []) (parents p @ [p]) = ?ds @ [p]" using assms(2) by simp
  have t': "t' = mk p (fold mk ?ds t)" and nofile: "\<not> is_file_node (dict_get t p)"
    using assms unfolding mkdir_parents_def Let_def ds by (auto simp: mk_def split: if_splits)
  have "dict_get (fold mk ds u) p = dict_get u p" if "p \<notin> set ds" for ds u
    using that by (induction ds arbitrary: u) (auto simp: mk_def)
  moreover have "p \<notin> set ?ds" by (simp add: parents_prefix)
  ultimately have "dict_get (fold mk ?ds t) p = dict_get t p" by blast
  then show ?thesis using t' nofile by (auto simp: mk_def is_file_node_def split: option.splits node.splits)
qed

lemma write_preserves: "write_text p c t = Some t' \<Longrightarrow> p \<in> generated_files d \<Longrightarrow> preserves d t t'"
  by (auto simp: preserves_def write_text_def split: if_splits)

lemmas disk_edits = mkdir_preserves mkdir_touches mkdir_sub_touches write_preserves write_touches

lemma run_steps_edits:
  assumes "\<And>s t t'. s \<in> set ss \<Longrightarrow> s t = Some t' \<Longrightarrow> edits d t t'"
  shows "edits d t (snd (run_steps fails k ss t))"
  using assms
proof (induction ss arbitrary: k t)
  case (Cons s ss)
  show ?case
  proof (cases "fails = Some k \<or> s t = None")
    case False
    then obtain t' where t': "s t = Some t'" by auto
    have "edits d t' (snd (run_steps fails (k + 1) ss t'))"
      by (rule Cons.IH) (meson Cons.prems list.set_intros(2))
    with Cons.prems [of s t t'] t' False show ?thesis by (auto intro: edits_trans)
  qed auto
qed simp

lemma stage_steps_edit:
  assumes "s \<in> set (stage_steps io name d cfg sp np)" and "s t = Some t'"
  shows "edits d t t'"
proof -
  let ?frida = "\<lambda>t. if frida cfg = None \<or> \<not> has_real_frida d t
    then Option.bind (mkdir_parents d t) (write_text (d @ [''frida-server'']) []) else Some t"
  from assms(1) consider x where "s = mkdir_parents (d @ [x])"
    | x c where "s = write_text (d @ [x]) c" "d @ [x] \<in> generated_files d" | "s = ?frida"
    by (auto simp: stage_steps_def generated_files_def)
  then show ?thesis
  proof cases
    case 1
    then show ?thesis using assms(2) by (auto simp: edits_def intro: disk_edits)
  next
    case 2
    then show ?thesis using assms(2) by (auto simp: edits_def intro: disk_edits)
  next
    case 3
    show ?thesis
    proof (cases "t' = t")
      case False
      then obtain t1 where "mkdir_parents d t = Some t1" "write_text (d @ [''frida-server'']) [] t1 = Some t'"
        using assms(2) 3 by (auto simp: bind_eq_Some_conv split: if_splits)
      moreover have "d @ [''frida-server''] \<in> generated_files d" by (simp add: generated_files_def)
      ultimately have "edits d t t1" "edits d t1 t'" unfolding edits_def by (blast intro: disk_edits)+
      then show ?thesis by (rule edits_trans)
    qed simp
  qed
qed

section \<open>What the operations do\<close>

abbreviation irows :: "io \<Rightarrow> istate \<Rightarrow> registry_file" where
  "irows io st \<equiv> rows_of (io_pyd io) (reg st)"

lemma view_simps [simp]: "rows_of p (view io st) = rows_of p (reg st)" "classes (view io st) = classes (reg st)"
  by (simp_all add: view_def)

lemma with_registry_cases:
  assumes "with_registry io f st = (r, st')"
  obtains (ok) v where "f (view io st) = (Inr v, reg st')" "r = Inr v" "tree st' = tree st"
  | (err) e where "f (view io st) = (Inl e, reg st')" "r = Inl (RegistryErr e)" "tree st' = tree st"
proof (cases "f (view io st)")
  case (Pair q w)
  show ?thesis
  proof (cases q)
    case (Inl e)
    with Pair assms show ?thesis by (intro err [of e]) (auto simp: with_registry_def)
  next
    case (Inr v)
    with Pair assms show ?thesis by (intro ok [of v]) (auto simp: with_registry_def)
  qed
qed

text \<open>\<open>same\<close>: rows, classes and disk as before; \<open>kept\<close>: rows and classes as before, disk changed only along one directory.\<close>

definition kept :: "io \<Rightarrow> path \<Rightarrow> istate \<Rightarrow> istate \<Rightarrow> bool" where
  "kept io d st st' \<longleftrightarrow> irows io st' = irows io st \<and> classes (reg st') = classes (reg st)
     \<and> touches d (tree st) (tree st')"

definition same :: "io \<Rightarrow> istate \<Rightarrow> istate \<Rightarrow> bool" where
  "same io st st' \<longleftrightarrow> irows io st' = irows io st \<and> classes (reg st') = classes (reg st) \<and> tree st' = tree st"

lemma same_kept: "same io st st' \<Longrightarrow> kept io d st st'"
  by (simp add: same_def kept_def)

lemma kept_trans: "kept io d st st' \<Longrightarrow> kept io d st' st'' \<Longrightarrow> kept io d st st''"
  by (auto simp: kept_def intro: touches_trans)

lemma same_refl [simp]: "same io st st"
  by (simp add: same_def)

lemma get_same: "with_registry io (get (io_pyd io) name) st = (r, st') \<Longrightarrow> same io st st'"
  by (erule with_registry_cases) (auto simp: same_def dest: get_rows)

lemma get_result:
  "with_registry io (get (io_pyd io) name) st = (Inr v, st') \<Longrightarrow> v = dict_get (irows io st) name"
  by (erule with_registry_cases) (auto dest: get_rows)

lemma overlap_check:
  assumes "check_directory_overlap io d st = (r, st')"
  shows "same io st st' \<and> (r = Inr () \<longrightarrow> (\<forall>n m ap. (n, m) \<in> set (irows io st) \<longrightarrow>
    dir_of (backend m) = Some ap \<longrightarrow> \<not> overlaps (io_resolve io ap) d))"
proof -
  obtain q st1 where l: "with_registry io (list_instances (io_pyd io)) st = (q, st1)" by fastforce
  have s: "same io st st1" and q: "\<And>f. q = Inr f \<Longrightarrow> f = irows io st"
    using l by (auto elim!: with_registry_cases simp: same_def dest: list_instances_rows)
  have none: "first_overlap R d rows = None \<Longrightarrow> (n, m) \<in> set rows \<Longrightarrow> dir_of (backend m) = Some ap \<Longrightarrow>
      \<not> overlaps (R ap) d" for R rows n m ap
    by (induction R d rows rule: first_overlap.induct) (auto split: option.splits if_splits)
  have "st' = st1" using assms l by (auto simp: check_directory_overlap_def split: sum.splits option.splits)
  moreover have "first_overlap (io_resolve io) d (irows io st) = None" if "r = Inr ()"
    using assms l that q by (auto simp: check_directory_overlap_def split: sum.splits option.splits)
  ultimately show ?thesis using s none by blast
qed

end
