(* ===== verification/Instances_Life.thy ===== *)
theory Instances_Life
  imports Instances_Props
begin

text \<open>
  What \<open>create\<close>, \<open>register\<close> and \<open>destroy\<close> do, case by case: the guards that stop them without
  effect, the commit with its rollback, and the removal.
\<close>

section \<open>Registration with rollback\<close>

text \<open>What the environment is trusted with: the coercion laws, a clock that prints ISO times
  and a path resolution that is idempotent.\<close>

definition io_ok :: "io \<Rightarrow> bool" where
  "io_ok io \<longleftrightarrow> pyd_laws (io_pyd io) \<and> iso_time (io_pyd io) (io_now io)"

text \<open>Staging keeps rows and classes and only adds to the instance's directory.\<close>

definition staged :: "io \<Rightarrow> path \<Rightarrow> istate \<Rightarrow> istate \<Rightarrow> bool" where
  "staged io d st st' \<longleftrightarrow> irows io st' = irows io st \<and> classes (reg st') = classes (reg st)
     \<and> edits d (tree st) (tree st')"

lemma same_staged: "same io st st' \<Longrightarrow> staged io d st st'"
  by (simp add: same_def staged_def)

lemma staged_trans: "staged io d st st' \<Longrightarrow> staged io d st' st'' \<Longrightarrow> staged io d st st''"
  by (auto simp: staged_def intro: edits_trans)

lemma stage_local_staged:
  assumes "stage_local io name d cfg st = (r, st')"
  shows "staged io d st st'"
proof -
  obtain q st1 where g: "with_registry io (get (io_pyd io) name) st = (q, st1)" by fastforce
  have s: "same io st st1" using get_same [OF g] .
  have run: "staged io d st (st1\<lparr>reg := fold note_world ns (reg st1),
      tree := snd (run_steps f k (stage_steps io name d cfg sp np) (tree st1))\<rparr>)" for ns f k sp np
    using s run_steps_edits [OF stage_steps_edit] by (auto simp: staged_def same_def)
  show ?thesis
  proof (cases "st' = st1")
    case True
    then show ?thesis using s same_staged by blast
  next
    case False
    then obtain ns f k sp np where "st' = st1\<lparr>reg := fold note_world ns (reg st1),
        tree := snd (run_steps f k (stage_steps io name d cfg sp np) (tree st1))\<rparr>"
      using assms g
      by (auto simp: stage_local_def Let_def case_prod_beta split: sum.splits option.splits)
    then show ?thesis using run by simp
  qed
qed

lemma commit_body_staged:
  assumes "commit_body io name d cfg i st = (r, st')"
  shows "staged io d st st'"
proof (cases "resolve_ports i (ports cfg) False")
  case (Inl e)
  then show ?thesis using assms by (simp add: commit_body_def staged_def)
next
  case (Inr np)
  then obtain new ns where np: "resolve_ports i (ports cfg) False = Inr (new, ns)" by (cases np) auto
  let ?st = "st\<lparr>reg := fold note_world ns (reg st)\<rparr>"
  obtain q st1 where c: "with_registry io (assert_no_port_collision (io_pyd io) name new) ?st = (q, st1)"
    by fastforce
  have "same io ?st st1"
    using c by (auto elim!: with_registry_cases simp: same_def dest: assert_no_port_collision_rows)
  then have s: "staged io d st st1" by (intro same_staged) (simp add: same_def)
  show ?thesis
    using assms np c s staged_trans [OF s stage_local_staged]
    by (cases q) (auto simp: commit_body_def)
qed

lemma remove_spec:
  assumes "pyd_laws (io_pyd io)" and "classes_ok (classes (reg st))"
    and "with_registry io (remove (io_pyd io) name) st = (r, st')"
  shows "tree st' = tree st \<and> classes (reg st') = classes (reg st)
     \<and> irows io st' = dict_pop name (irows io st) \<and> (irows io st \<noteq> [] \<longrightarrow> r = Inr ())"
  using assms(3)
proof (cases rule: with_registry_cases)
  case (ok v)
  then show ?thesis
    using remove_rows [OF assms(1) _ ok(1)] remove_classes [of "io_pyd io" name "view io st"] assms(2)
    by (simp add: view_simps)
next
  case (err e)
  then show ?thesis
    using remove_failed [OF err(1)] remove_classes [of "io_pyd io" name "view io st"]
    by (simp add: dict_pop_def)
qed

lemma rollback_spec:
  assumes "pyd_laws (io_pyd io)" and "classes_ok (classes (reg st))" and "irows io st \<noteq> []"
    and "rollback_partial_create io name d created st = (r, st')"
  shows "r = Inr () \<and> touches d (tree st) (tree st') \<and> classes (reg st') = classes (reg st)
     \<and> irows io st' = dict_pop name (irows io st)
     \<and> (created \<longrightarrow> (\<forall>q. exists_at d (tree st) \<longrightarrow> prefix d q \<longrightarrow> dict_get (tree st') q = None))
     \<and> (\<not> created \<longrightarrow> tree st' = tree st)"
proof -
  obtain q st1 where rm: "with_registry io (remove (io_pyd io) name) st = (q, st1)" by fastforce
  then show ?thesis
    using remove_spec [OF assms(1,2) rm] assms(3,4)
    by (auto simp: rollback_partial_create_def rmtree_get rmtree_touches)
qed

lemma in_tree_backend_for: "in_tree (backend_for d cfg)"
  by (simp add: backend_for_def in_tree_def)

lemma dict_pop_snoc: "dict_get f k = None \<Longrightarrow> dict_pop k (f @ [(k, v)]) = f"
  using dict_pop_absent [of k f] by (simp add: dict_pop_def map_of_eq_None_iff)

text \<open>The outcomes of the shared part: allocation refused, committed, or undone.\<close>

lemma commit_cases:
  assumes "io_ok io" and "classes_ok (classes (reg st))" and "created \<longrightarrow> exists_at d (tree st)"
    and "commit_instance io name d cfg created st = (r, st')"
  obtains (refused) e where "r = Inl (RegistryErr e)" "same io st st'"
      "fst (add_allocating (io_pyd io) name None (Some (backend_for d cfg)) (io_now io) (view io st)) = Inl e"
  | (committed) i where "r = Inr i" "edits d (tree st) (tree st')" "classes (reg st') = classes (reg st)"
      "irows io st' = irows io st @ [(name, \<lparr>backend = backend_for d cfg, index = i, created_at = io_now io\<rparr>)]"
      "dict_get (irows io st) name = None"
      "i = lowest_free_index (map index (dict_values (irows io st)))" "0 \<le> i" "i \<le> 1295"
  | (undone) e where "r = Inl e" "kept io d st st'"
      "created \<Longrightarrow> \<forall>q. prefix d q \<longrightarrow> dict_get (tree st') q = None"
      "\<not> created \<Longrightarrow> preserves d (tree st) (tree st')"
proof -
  let ?add = "add_allocating (io_pyd io) name None (Some (backend_for d cfg)) (io_now io)"
  obtain q st1 where a: "with_registry io ?add st = (q, st1)" by fastforce
  then show ?thesis
  proof (cases rule: with_registry_cases)
    case (err e)
    have "same io st st1"
      using err add_allocating_failed [OF err(1)]
        add_allocating_classes [of "io_pyd io" name "backend_for d cfg" "io_now io" "view io st"]
      by (simp add: same_def)
    then show ?thesis using err a assms(4) refused [of e] by (simp add: commit_instance_def)
  next
    case (ok i)
    let ?m = "\<lparr>backend = backend_for d cfg, index = i, created_at = io_now io\<rparr>"
    have row: "irows io st1 = irows io st @ [(name, ?m)]" "dict_get (irows io st) name = None"
      "i = lowest_free_index (map index (dict_values (irows io st)))" "0 \<le> i" "i \<le> 1295"
      using add_allocating_row [OF _ _ in_tree_backend_for _ ok(1)] assms(1,2)
      by (simp_all add: io_ok_def)
    have cls: "classes (reg st1) = classes (reg st)"
      using add_allocating_classes [of "io_pyd io" name "backend_for d cfg" "io_now io" "view io st"] ok(1)
      by simp
    obtain s st2 where b: "commit_body io name d cfg i st1 = (s, st2)" by fastforce
    have k: "irows io st2 = irows io st @ [(name, ?m)]" "classes (reg st2) = classes (reg st)"
      "touches d (tree st) (tree st2)" "preserves d (tree st) (tree st2)"
      using commit_body_staged [OF b] row(1) cls ok(3) by (simp_all add: staged_def edits_def)
    show ?thesis
    proof (cases s)
      case (Inr u)
      then show ?thesis using a ok(2) b assms(4) k row committed [of i] by (simp add: commit_instance_def edits_def)
    next
      case (Inl e)
      obtain v st3 where rb: "rollback_partial_create io name d created st2 = (v, st3)" by fastforce
      have "created \<longrightarrow> exists_at d (tree st2)" using k(4) assms(3) by (auto simp: exists_at_def preserves_def)
      then have r: "v = Inr ()" "touches d (tree st2) (tree st3)" "classes (reg st3) = classes (reg st)"
        "irows io st3 = irows io st" "created \<Longrightarrow> \<forall>q. prefix d q \<longrightarrow> dict_get (tree st3) q = None"
        "\<not> created \<Longrightarrow> tree st3 = tree st2"
        using rollback_spec [OF _ _ _ rb] k assms(1,2) dict_pop_snoc [OF row(2)] by (auto simp: io_ok_def)
      have fin: "r = Inl e" "st' = st3" using a ok(2) b rb r(1) assms(4) Inl by (simp_all add: commit_instance_def)
      show ?thesis
        using fin r k touches_trans [OF k(3) r(2)] by (intro undone [of e]) (simp_all add: kept_def)
    qed
  qed
qed

text \<open>Errors only the port check raises, never the registration.\<close>

definition is_collision :: "reg_error \<Rightarrow> bool" where
  "is_collision e = (case e of PortCollision _ _ _ \<Rightarrow> True | LoadErr _ \<Rightarrow> True | _ \<Rightarrow> False)"

lemma allocation_errors:
  assumes "fst (add_allocating p name None (Some b) now w) = Inl e"
  shows "\<not> is_collision e"
proof -
  have v: "fst (check_v02_registry_at_cwd u) = Inl x \<Longrightarrow> \<not> is_collision x" for u x
    by (auto simp: check_v02_registry_at_cwd_def is_collision_def split: if_splits option.splits doc.splits pyval.splits)
  have r: "read_registry p u = (Inl x, u') \<Longrightarrow> \<not> is_collision x" for u u' x
    using v [of u x] by (auto simp: read_registry_def is_collision_def case_prod_beta
        split: sum.splits option.splits doc.splits if_splits)
  have b: "fst (add_allocating_body name b now f u) = Inl x \<Longrightarrow> \<not> is_collision x" for f u x
    by (auto simp: add_allocating_body_def is_collision_def Let_def split: if_splits sum.splits)
  from assms show ?thesis
    using r b by (cases "read_registry p (locked_init w)")
      (auto simp: add_allocating_def locked_section_def split: sum.splits)
qed

section \<open>Creation and adoption\<close>

text \<open>No registered directory lies in, over or at \<open>d\<close>.\<close>

definition free_dir :: "io \<Rightarrow> path \<Rightarrow> istate \<Rightarrow> bool" where
  "free_dir io d st \<longleftrightarrow> (\<forall>(n, m) \<in> set (irows io st). \<forall>ap.
     dir_of (backend m) = Some ap \<longrightarrow> \<not> overlaps (io_resolve io ap) d)"

text \<open>What an attempt to register \<open>name\<close> at \<open>d\<close> may do; \<open>added\<close> says whether it succeeded.\<close>

definition registers :: "io \<Rightarrow> string \<Rightarrow> path \<Rightarrow> istate \<Rightarrow> bool \<Rightarrow> istate \<Rightarrow> bool" where
  "registers io name d st added st' \<longleftrightarrow>
     same io st st' \<and> \<not> added
   \<or> free_dir io d st \<and> dict_get (irows io st) name = None \<and> classes (reg st') = classes (reg st)
     \<and> touches d (tree st) (tree st')
     \<and> (if added then \<exists>m. irows io st' = irows io st @ [(name, m)] \<and> dir_of (backend m) = Some (path_str d)
        else irows io st' = irows io st)"

lemma dir_of_backend_for [simp]: "dir_of (backend_for d cfg) = Some (path_str d)"
  by (simp add: backend_for_def dir_of_def)

lemma same_trans: "same io st st' \<Longrightarrow> same io st' st'' \<Longrightarrow> same io st st''"
  by (simp add: same_def)

lemma commit_registers:
  assumes "io_ok io" and "classes_ok (classes (reg st))" and "created \<longrightarrow> exists_at d (tree st1)"
    and "free_dir io d st" and "dict_get (irows io st) name = None" and "kept io d st st1"
    and "commit_instance io name d cfg created st1 = (r, st')"
  shows "registers io name d st (is_ok r) st'"
proof -
  have k: "irows io st1 = irows io st" "classes (reg st1) = classes (reg st)" "touches d (tree st) (tree st1)"
    using assms(6) by (simp_all add: kept_def)
  have c: "classes_ok (classes (reg st1))" using assms(2) k(2) by simp
  from assms(1) c assms(3,7) show ?thesis
  proof (cases rule: commit_cases)
    case (refused e)
    then show ?thesis using assms(4,5) k by (simp add: registers_def same_def)
  next
    case (committed i)
    then show ?thesis using assms(4,5) k touches_trans [OF k(3)] by (simp add: registers_def edits_def)
  next
    case (undone e)
    then show ?thesis using assms(4,5) k touches_trans [OF k(3)] by (simp add: registers_def kept_def)
  qed
qed

lemma overlap_free:
  assumes "check_directory_overlap io d st = (r, st')"
  shows "same io st st' \<and> (r = Inr () \<longrightarrow> free_dir io d st)"
  using overlap_check [OF assms] by (auto simp: free_dir_def)

text \<open>The calls of \<open>create\<close> up to its first write, and from there.\<close>

lemma create_cases:
  assumes "create io name d cfg life st = (r, st')"
  obtains (guarded) e where "r = Inl e" "same io st st'"
  | (no_yaml) t where "r = Inl DiskError" "free_dir io d st" "dict_get (irows io st) name = None"
      "mkdir_parents d (tree st) = Some t" "tree st' = t" "kept io d st st'" "\<not> io_yaml_ok io"
  | (committing) st2 t c eff where "kept io d st st2" "free_dir io d st" "dict_get (irows io st) name = None"
      "mkdir_parents d (tree st) = Some t" "write_text (yaml_path d) c t = Some (tree st2)"
      "commit_instance io name d eff (\<not> exists_at d (tree st)) st2 = (r, st')"
proof -
  obtain g st1 where g: "with_registry io (get (io_pyd io) name) st = (g, st1)" by fastforce
  obtain v st2 where v: "check_directory_overlap io d st1 = (v, st2)" by fastforce
  have s1: "same io st st1" and s2: "same io st st2"
    using get_same [OF g] same_trans overlap_free [OF v] by blast+
  show ?thesis
  proof (cases "valid_instance_name name \<and> \<not> (cfg \<noteq> None \<and> life \<noteq> None) \<and> g = Inr None
      \<and> \<not> exists_at (yaml_path d) (tree st1) \<and> v = Inr () \<and> io_mkdir_ok io \<and> mkdir_parents d (tree st2) \<noteq> None")
    case False
    then have "(\<exists>e. r = Inl e) \<and> same io st st'"
      using assms g v s1 s2
      by (auto simp: create_def Let_def split: if_splits sum.splits option.splits)
    then show ?thesis using guarded by blast
  next
    case True
    then obtain t where t: "mkdir_parents d (tree st) = Some t" using s2 by (auto simp: same_def)
    have f: "free_dir io d st" "dict_get (irows io st) name = None"
      using True get_result [of io name st "None" st1] g overlap_free [OF v] s1
      by (auto simp: free_dir_def same_def)
    have "dict_get t (yaml_path d) = None"
      using mkdir_other [OF t, of "yaml_path d"] True s1 by (simp add: yaml_path_def exists_at_def same_def)
    then have w: "write_text (yaml_path d) c t = Some (dict_set (yaml_path d) (File c) t)" for c
      by (simp add: write_text_def)
    show ?thesis
    proof (cases "io_yaml_ok io")
      case False
      then have "r = Inl DiskError \<and> st' = st2\<lparr>tree := t\<rparr>"
        using assms True g v t s2 by (auto simp: create_def Let_def same_def)
      moreover have "kept io d st (st2\<lparr>tree := t\<rparr>)"
        using s2 mkdir_touches [OF t] by (simp add: kept_def same_def)
      ultimately show ?thesis using no_yaml [OF _ f t] False by simp
    next
      case yes: True
      obtain c eff where cm: "commit_instance io name d eff (\<not> exists_at d (tree st))
          (st2\<lparr>tree := dict_set (yaml_path d) (File c) t\<rparr>) = (r, st')"
        using assms True g v t s2 yes w by (auto simp: create_def Let_def same_def split: option.splits)
      have k: "kept io d st (st2\<lparr>tree := dict_set (yaml_path d) (File c) t\<rparr>)"
        using s2 touches_trans [OF mkdir_touches [OF t] write_touches [OF w [of c, unfolded yaml_path_def]]]
        by (simp add: kept_def same_def yaml_path_def)
      show ?thesis by (rule committing [OF k f t _ cm]) (simp add: w)
    qed
  qed
qed

lemma made_dir:
  assumes "mkdir_parents d t = Some t1" and "write_text (yaml_path d) c t1 = Some t2"
  shows "exists_at d t2"
proof (cases "d = []")
  case False
  then have "dict_get t1 d = Some Dir" using mkdir_makes assms(1) by blast
  then show ?thesis
    using assms(2) by (auto simp: exists_at_def write_text_def split: if_splits)
qed (simp add: exists_at_def)

lemma create_registers:
  assumes "io_ok io" and "classes_ok (classes (reg st))" and "create io name d cfg life st = (r, st')"
  shows "registers io name d st (is_ok r) st'"
  using assms(3)
proof (cases rule: create_cases)
  case (guarded e)
  then show ?thesis by (simp add: registers_def)
next
  case (no_yaml t)
  then show ?thesis by (simp add: registers_def kept_def)
next
  case (committing st2 t c eff)
  then show ?thesis using commit_registers [OF assms(1,2)] made_dir by blast
qed

lemma register_cases:
  assumes "register io d name_arg st = (r, st')"
  obtains (guarded) e where "r = Inl e" "same io st st'"
  | (committing) name st2 cfg where "same io st st2" "free_dir io d st" "dict_get (irows io st) name = None"
      "name = (case name_arg of Some n \<Rightarrow> n | None \<Rightarrow> last d)" "name \<noteq> []"
      "commit_instance io name d cfg False st2 = (r, st')"
proof -
  let ?name = "case name_arg of Some n \<Rightarrow> n | None \<Rightarrow> if d = [] then [] else last d"
  obtain g st1 where g: "with_registry io (get (io_pyd io) ?name) st = (g, st1)" by fastforce
  obtain v st2 where v: "check_directory_overlap io d st1 = (v, st2)" by fastforce
  obtain l ls where l: "load_yaml (yaml (view io st2)) (instance_yaml (path_str d)) (loads (reg st2)) = (l, ls)"
    by fastforce
  have s1: "same io st st1" and s2: "same io st st2"
    using get_same [OF g] same_trans overlap_free [OF v] by blast+
  have s3: "same io st (st2\<lparr>reg := (reg st2)\<lparr>loads := ls\<rparr>\<rparr>)" using s2 by (simp add: same_def)
  show ?thesis
  proof (cases "(\<exists>c. dict_get (tree st) (yaml_path d) = Some (File c)) \<and> valid_instance_name ?name
      \<and> g = Inr None \<and> v = Inr () \<and> (\<exists>cfg. l = Inr cfg)")
    case False
    then have "(\<exists>e. r = Inl e) \<and> same io st st'"
      using assms g v l s1 s2 s3
      by (auto simp: register_def Let_def split: if_splits sum.splits option.splits node.splits)
    then show ?thesis using guarded by blast
  next
    case True
    then obtain c cfg where y: "dict_get (tree st) (yaml_path d) = Some (File c)" "l = Inr cfg" by blast
    have f: "free_dir io d st" "dict_get (irows io st) ?name = None"
      using True get_result [of io ?name st "None" st1] g overlap_free [OF v] s1
      by (auto simp: free_dir_def same_def)
    have n: "?name \<noteq> []" using True by (simp add: valid_instance_name_def)
    then have "?name = (case name_arg of Some n \<Rightarrow> n | None \<Rightarrow> last d)" by (auto split: option.splits if_splits)
    moreover have "commit_instance io ?name d cfg False (st2\<lparr>reg := (reg st2)\<lparr>loads := ls\<rparr>\<rparr>) = (r, st')"
      using assms True y g v l by (simp add: register_def Let_def)
    ultimately show ?thesis using committing [OF s3 f _ n] by blast
  qed
qed

lemma register_registers:
  assumes "io_ok io" and "classes_ok (classes (reg st))" and "register io d name_arg st = (r, st')"
  shows "registers io (case name_arg of Some n \<Rightarrow> n | None \<Rightarrow> last d) d st (is_ok r) st'"
  using assms(3)
proof (cases rule: register_cases)
  case (guarded e)
  then show ?thesis by (simp add: registers_def)
next
  case (committing name st2 cfg)
  then show ?thesis
    using commit_registers [OF assms(1,2) _ committing(2,3) same_kept [OF committing(1)] committing(6)] by simp
qed

section \<open>Destruction\<close>

lemma teardown_spec:
  assumes "pyd_laws (io_pyd io)" and "classes_ok (classes (reg st))" and "dict_get (irows io st) name \<noteq> None"
    and "teardown_under_lock io name d down_ok st = (r, st')"
  shows "irows io st' = dict_pop name (irows io st) \<and> classes (reg st') = classes (reg st)
     \<and> touches d (tree st) (tree st')
     \<and> (exists_at d (tree st) \<longrightarrow> (\<forall>q. prefix d q \<longrightarrow> dict_get (tree st') q = None))
     \<and> r = (if down_ok then Inr () else Inl ComposeFailed)"
proof -
  obtain q st1 where rm: "with_registry io (remove (io_pyd io) name) st = (q, st1)" by fastforce
  have "irows io st \<noteq> []" using assms(3) by auto
  then show ?thesis
    using remove_spec [OF assms(1,2) rm] assms(4) rm
    by (auto simp: teardown_under_lock_def Let_def rmtree_get rmtree_touches)
qed

text \<open>Destroying a registered instance either stops before its first write to the registry or
  removes the row and everything below the directory.\<close>

lemma destroy_spec:
  assumes "pyd_laws (io_pyd io)" and "classes_ok (classes (reg st))" and "dict_get (irows io st) name \<noteq> None"
    and "destroy io name d down_ok confirmed st = (r, st')"
  shows "classes (reg st') = classes (reg st) \<and> touches d (tree st) (tree st')
     \<and> (r \<in> {Inl NotConfirmed, Inl DiskError} \<and> irows io st' = irows io st \<and> preserves d (tree st) (tree st')
       \<or> r = (if down_ok then Inr () else Inl ComposeFailed) \<and> irows io st' = dict_pop name (irows io st)
         \<and> (exists_at d (tree st) \<longrightarrow> (\<forall>q. prefix d q \<longrightarrow> dict_get (tree st') q = None)))"
proof (cases "confirmed \<and> exists_at d (tree st)")
  case f: False
  show ?thesis
  proof (cases confirmed)
    case True
    with f assms(4) have "teardown_under_lock io name d down_ok st = (r, st')" by (simp add: destroy_def)
    then show ?thesis using teardown_spec [OF assms(1-3)] by blast
  next
    case False
    with assms(4) show ?thesis by (auto simp: destroy_def preserves_def)
  qed
next
  case c: True
  show ?thesis
  proof (cases "mkdir_parents d (tree st)")
    case None
    then show ?thesis using c assms(4) by (auto simp: destroy_def preserves_def)
  next
    case (Some t)
    have e: "exists_at d t" "touches d (tree st) t" "preserves d (tree st) t"
      using c mkdir_preserves [OF Some, of d] mkdir_touches [OF Some] by (auto simp: exists_at_def preserves_def)
    show ?thesis
    proof (cases "dict_get t (lock_file d) = Some Dir")
      case True
      then show ?thesis using c Some e assms(4) by (auto simp: destroy_def)
    next
      case False
      define t' where "t' = (if dict_get t (lock_file d) = None then dict_set (lock_file d) (File []) t else t)"
      have td: "teardown_under_lock io name d down_ok (st\<lparr>tree := t'\<rparr>) = (r, st')"
        using c Some False assms(4) by (auto simp: destroy_def t'_def split: option.splits node.splits)
      have "exists_at d t'" "touches d t t'"
        using e(1) by (auto simp: t'_def exists_at_def touches_def lock_file_def)
      then have "irows io st' = dict_pop name (irows io st)" "classes (reg st') = classes (reg st)"
          "touches d t' (tree st')" "\<forall>q. prefix d q \<longrightarrow> dict_get (tree st') q = None"
          "r = (if down_ok then Inr () else Inl ComposeFailed)" "touches d (tree st) t'"
        using teardown_spec [of io "st\<lparr>tree := t'\<rparr>", OF _ _ _ td] assms(1-3) touches_trans [OF e(2)] by simp_all
      then show ?thesis using touches_trans by blast
    qed
  qed
qed

end
