(* ===== verification/Snapshot_Props.thy ===== *)
theory Snapshot_Props
  imports Snapshot Instances_Life
begin

text \<open>
  Restoring an archive: what each statement of \<open>restore\<close> keeps, by a small Hoare logic over
  statements that may raise; the rollback; and the round trip through an archive.
\<close>

lemma hoare_lift [hoare_intros]: "hoare I c Q \<Longrightarrow> hoare I (lift_inst c) Q"
  by (fastforce simp: hoare_def lift_inst_def split: prod.splits sum.splits)

section \<open>The row being restored\<close>

text \<open>The registry holds the rows of before and, last, the row of the new instance.\<close>

definition owns :: "io \<Rightarrow> registry_file \<Rightarrow> string \<Rightarrow> path \<Rightarrow> int \<Rightarrow> (string, cfg_class) dict \<Rightarrow> tree \<Rightarrow> istate \<Rightarrow> bool" where
  "owns io f name d i cs t st \<longleftrightarrow> classes (reg st) = cs \<and> touches d t (tree st) \<and> exists_at d (tree st)
     \<and> (\<exists>sp. irows io st = f @ [(name, \<lparr>backend = Redroid (path_str d) sp, index = i, created_at = io_now io\<rparr>)])"

lemma owns_same: "same io st st' \<Longrightarrow> owns io f name d i cs t st \<Longrightarrow> owns io f name d i cs t st'"
  by (simp add: owns_def same_def)

lemma hoare_same:
  assumes "\<And>st r st'. c st = (r, st') \<Longrightarrow> same io st st' \<and> (\<forall>a. r = Inr a \<longrightarrow> Q a)"
  shows "hoare (owns io f name d i cs t) c Q"
  using assms owns_same by (intro hoareI) blast

lemma load_config_same: "load_config io rdir st = (r, st') \<Longrightarrow> same io st st'"
  by (auto simp: load_config_def same_def split: prod.splits sum.splits)

lemma resolve_noting_same: "resolve_noting i ms st = (r, st') \<Longrightarrow> same io st st'"
  by (auto simp: resolve_noting_def same_def split: sum.splits)

lemma list_same: "with_registry io (list_instances (io_pyd io)) st = (r, st') \<Longrightarrow> same io st st'"
  by (erule with_registry_cases) (auto simp: same_def dest: list_instances_rows)

lemma all_ports_same: "with_registry io (all_resolved_host_ports (io_pyd io)) st = (r, st') \<Longrightarrow> same io st st'"
proof -
  have "rows_of p w' = rows_of p w \<and> classes w' = classes w"
    if all: "all_resolved_host_ports p w = (q, w')" for p w q w'
  proof -
    obtain l w1 where l: "list_instances p w = (l, w1)" by fastforce
    show ?thesis
      using all l list_instances_rows [OF l] resolved_host_ports_frame [of "projr l" w1]
      by (cases l) (auto simp: all_resolved_host_ports_def dest: arg_cong [of _ _ snd])
  qed
  then show "with_registry io (all_resolved_host_ports (io_pyd io)) st = (r, st') \<Longrightarrow> same io st st'"
    by (elim with_registry_cases) (fastforce simp: same_def)+
qed

lemma dict_set_last: "dict_get f k = None \<Longrightarrow> dict_set k v (f @ [(k, w)]) = f @ [(k, v)]"
  by (induction f) (auto split: if_splits)

lemma stealth_rows:
  assumes "pyd_laws p" and "classes_ok (classes w)" and "dict_get f name = None" and "iso_time p now"
    and "rows_of p w = f @ [(name, \<lparr>backend = Redroid ap sp, index = i, created_at = now\<rparr>)]"
    and "set_stealth_paths p name sp' w = (r, w')"
  shows "r = Inr () \<and> classes w' = classes w
     \<and> rows_of p w' = f @ [(name, \<lparr>backend = Redroid ap sp', index = i, created_at = now\<rparr>)]"
proof -
  let ?new = "f @ [(name, \<lparr>backend = Redroid ap sp', index = i, created_at = now\<rparr>)]"
  have body: "set_stealth_paths_body name sp' (rows_of p w) u = (Inr (), write_registry ?new u)" for u
    using assms(3,5) by (simp add: set_stealth_paths_body_def dict_set_last map_add_def)
  obtain q w1 where rd: "read_registry p (locked_init w) = (q, w1)" by fastforce
  have "q = Inr (rows_of p w)" using rd assms(5) by (cases q) (auto simp: rows_of_def)
  then have w': "r = Inr ()" "w' = write_registry ?new w1" and l: "locked_section p (set_stealth_paths_body name sp') w = (Inr (), w')"
    using assms(6) rd body by (simp_all add: set_stealth_paths_def locked_section_def)
  have good: "rows_good p (classes w) (rows_of p w)" using locked_section_rows [OF l assms(1,2)] by blast
  have cs: "classes w1 = classes w" using read_registry_frame [OF rd] by simp
  have "row_good p (classes w) \<lparr>backend = Redroid ap sp', index = i, created_at = now\<rparr>"
    using in_tree_good [OF assms(1,2) _ assms(4)] by (simp add: in_tree_def)
  then have "rows_good p (classes w1) ?new"
    using rows_good_set [OF good, of _ name] dict_set_last [OF assms(3)] cs by (metis assms(5))
  then show ?thesis using w' cs rows_of_written [OF assms(1)] by (simp add: write_registry_def)
qed

text \<open>What the archive library is trusted with: it writes only at or below the destination and
  leaves the destination itself in place.\<close>

definition fills :: "path \<Rightarrow> tree \<Rightarrow> tree \<Rightarrow> bool" where
  "fills d t t' \<longleftrightarrow> touches d t t' \<and> (exists_at d t \<longrightarrow> exists_at d t')"

lemma fills_refl [simp]: "fills d t t"
  by (simp add: fills_def)

lemma fills_trans: "fills d t t' \<Longrightarrow> fills d t' t'' \<Longrightarrow> fills d t t''"
  using touches_trans by (auto simp: fills_def)

definition env_ok :: "senv \<Rightarrow> bool" where
  "env_ok env \<longleftrightarrow> io_ok (s_io env)
     \<and> (\<forall>m d t t'. place env m d t = Some t' \<longrightarrow> fills d t t') \<and> (\<forall>m d t. fills d t (torn env m d t))"

lemma extract_members_fills:
  assumes "env_ok env"
  shows "fills d t (snd (extract_members env d cap n ms t))"
  using assms
proof (induction env d cap n ms t rule: extract_members.induct)
  case (2 env d cap n m hdr body ms t)
  have torn: "fills d t (torn env m d t)" and place: "place env m d t = Some t' \<Longrightarrow> fills d t t'" for t'
    using 2(2) by (simp_all add: env_ok_def)
  show ?case
  proof (cases "\<exists>k k' t'. capped_reads cap n hdr = Some k \<and> capped_reads cap k body = Some k' \<and> place env m d t = Some t'")
    case True
    then show ?thesis using 2(1,2) place fills_trans by fastforce
  next
    case False
    then show ?thesis using torn by (auto split: option.splits)
  qed
qed simp

definition restoring :: "senv \<Rightarrow> registry_file \<Rightarrow> string \<Rightarrow> path \<Rightarrow> (string, cfg_class) dict \<Rightarrow> bool" where
  "restoring env f name d cs \<longleftrightarrow> env_ok env \<and> dict_get f name = None \<and> classes_ok cs
     \<and> io_resolve (s_io env) (path_str d) = d"

lemma extract_owns:
  assumes "restoring env f name d cs"
  shows "hoare (owns (s_io env) f name d i cs t) (extract_archive_into env a d) (\<lambda>_. True)"
proof -
  have x: "hoare (owns (s_io env) f name d i cs t) (\<lambda>st. case extract_members env d cap n ms (tree st) of
      (r, t') \<Rightarrow> (r, st\<lparr>tree := t'\<rparr>)) (\<lambda>_. True)" for cap n ms
  proof (rule hoareI)
    fix st r st'
    assume own: "owns (s_io env) f name d i cs t st"
      and "(case extract_members env d cap n ms (tree st) of (r, t') \<Rightarrow> (r, st\<lparr>tree := t'\<rparr>)) = (r, st')"
    then have st': "st' = st\<lparr>tree := snd (extract_members env d cap n ms (tree st))\<rparr>" by (simp add: case_prod_beta)
    have "fills d (tree st) (snd (extract_members env d cap n ms (tree st)))"
      using assms by (intro extract_members_fills) (simp add: restoring_def)
    then have "touches d t (tree st')" "exists_at d (tree st')"
      using own touches_trans [of d t "tree st"] unfolding st' by (simp_all add: fills_def owns_def)
    then show "owns (s_io env) f name d i cs t st' \<and> (\<forall>a. r = Inr a \<longrightarrow> True)"
      using own unfolding st' by (simp add: owns_def)
  qed
  have o: "hoare (owns (s_io env) f name d i cs t) (open_archive env a) (\<lambda>_. True)"
    by (rule hoareI) (auto simp: open_archive_def split: option.splits node.splits)
  have y: "hoare (owns (s_io env) f name d i cs t) (\<lambda>st. if is_file_node (dict_get (tree st) (yaml_path d))
      then (Inr (), st) else (Inl ArchiveWithoutYaml, st)) (\<lambda>_. True)"
    by (rule hoareI) (auto split: if_splits)
  show ?thesis
    unfolding extract_archive_into_def
    by (intro hoare_seq [OF o] hoare_seq [OF x] hoare_if hoare_fail y)
qed

lemma load_instance_owns:
  assumes "restoring env f name d cs"
  shows "hoare (owns (s_io env) f name d i cs t) (load_instance env name) (\<lambda>(rdir, _). rdir = d)"
proof -
  let ?I = "owns (s_io env) f name d i cs t"
  have g: "hoare ?I (with_registry (s_io env) (get (io_pyd (s_io env)) name))
      (\<lambda>row. \<exists>sp. row = Some \<lparr>backend = Redroid (path_str d) sp, index = i, created_at = io_now (s_io env)\<rparr>)"
  proof (rule hoareI)
    fix st r st'
    assume I: "?I st" and g: "with_registry (s_io env) (get (io_pyd (s_io env)) name) st = (r, st')"
    show "?I st' \<and> (\<forall>row. r = Inr row \<longrightarrow>
        (\<exists>sp. row = Some \<lparr>backend = Redroid (path_str d) sp, index = i, created_at = io_now (s_io env)\<rparr>))"
      using owns_same [OF get_same [OF g] I] I g get_result [of "s_io env" name st _ st'] assms
      by (auto simp: owns_def restoring_def map_add_def)
  qed
  have l: "hoare ?I (load_config (s_io env) rd) (\<lambda>_. True)" for rd
    by (rule hoare_same) (auto dest: load_config_same)
  show ?thesis
    unfolding load_instance_def using assms
    by (intro hoare_seq [OF hoare_lift [OF g]]) (auto simp: restoring_def intro!: hoare_seq [OF hoare_lift [OF l]] hoare_ok)
qed

lemma check_ports_owns:
  "hoare (owns (s_io env) f name d i cs t) (check_restored_port_collision env n j target) (\<lambda>_. True)"
proof -
  let ?I = "owns (s_io env) f name d i cs t"
  have l: "hoare ?I (load_config (s_io env) target) (\<lambda>_. True)" and n: "hoare ?I (resolve_noting j ms) (\<lambda>_. True)"
    and p: "hoare ?I (with_registry (s_io env) (all_resolved_host_ports (io_pyd (s_io env)))) (\<lambda>_. True)" for ms
    by (rule hoare_same, auto dest: load_config_same resolve_noting_same all_ports_same)+
  show ?thesis
    unfolding check_restored_port_collision_def
    by (intro hoare_seq [OF hoare_lift [OF l]] hoare_seq [OF n] hoare_seq [OF hoare_lift [OF p]])
      (auto split: option.splits intro: hoare_ok hoare_fail)
qed

lemma stealth_owns:
  assumes "restoring env f name d cs"
  shows "hoare (owns (s_io env) f name d i cs t)
     (with_registry (s_io env) (set_stealth_paths (io_pyd (s_io env)) name sp)) (\<lambda>_. True)"
proof (rule hoareI)
  fix st r st'
  assume I: "owns (s_io env) f name d i cs t st"
    and s: "with_registry (s_io env) (set_stealth_paths (io_pyd (s_io env)) name sp) st = (r, st')"
  obtain q where q: "set_stealth_paths (io_pyd (s_io env)) name sp (view (s_io env) st) = (q, reg st')" "tree st' = tree st"
    using s by (elim with_registry_cases) auto
  from I obtain sp0 where rows: "rows_of (io_pyd (s_io env)) (view (s_io env) st) = f @ [(name, \<lparr>backend = Redroid (path_str d) sp0,
      index = i, created_at = io_now (s_io env)\<rparr>)]"
    by (auto simp: owns_def)
  show "owns (s_io env) f name d i cs t st' \<and> (\<forall>a. r = Inr a \<longrightarrow> True)"
    using stealth_rows [OF _ _ _ _ rows q(1)] I q(2) assms
    by (auto simp: owns_def restoring_def env_ok_def io_ok_def)
qed

lemma stage_owns: "hoare (owns (s_io env) f name d i cs t) (stage_local (s_io env) n d cfg) (\<lambda>_. True)"
proof (rule hoareI)
  fix st r st'
  assume "owns (s_io env) f name d i cs t st" and s: "stage_local (s_io env) n d cfg st = (r, st')"
  then show "owns (s_io env) f name d i cs t st' \<and> (\<forall>a. r = Inr a \<longrightarrow> True)"
    using stage_local_staged [OF s] touches_trans [of d t "tree st" "tree st'"]
    by (auto simp: owns_def staged_def edits_def exists_at_def preserves_def)
qed

lemma restore_body_owns:
  assumes "restoring env f name d cs"
  shows "hoare (owns (s_io env) f name d i cs t) (restore_body env a name d mf j) (\<lambda>_. True)"
proof -
  let ?I = "owns (s_io env) f name d i cs t"
  have l: "hoare ?I (load_config (s_io env) d) (\<lambda>_. True)"
    by (rule hoare_same) (auto dest: load_config_same)
  show ?thesis
    unfolding restore_body_def
    by (intro hoare_seq [OF extract_owns [OF assms]] hoare_seq [OF hoare_lift [OF l]] hoare_if hoare_fail
        hoare_seq [OF hoare_if [OF hoare_ok hoare_lift [OF stealth_owns [OF assms]]]]
        hoare_seq [OF check_ports_owns] hoare_seq [OF load_instance_owns [OF assms]])
      (auto intro!: hoare_lift stage_owns)
qed

section \<open>Restoring\<close>

lemma destination_prepared:
  assumes "prepare_destination env d force st = (r, st')"
  shows "irows (s_io env) st' = irows (s_io env) st \<and> classes (reg st') = classes (reg st)
     \<and> (if r = Inr () then free_dir (s_io env) d st
          \<and> (tree st' = tree st \<and> \<not> occupied d (tree st) \<or> tree st' = rmtree d (tree st) \<and> force)
        else tree st' = tree st)"
proof -
  let ?list = "with_registry (s_io env) (list_instances (io_pyd (s_io env)))"
  obtain q st1 where l: "?list st = (q, st1)" by fastforce
  have s: "same (s_io env) st st1" using list_same [OF l] .
  have rows: "q = Inr f \<Longrightarrow> f = irows (s_io env) st" for f
    using l by (elim with_registry_cases) (auto dest: list_instances_rows)
  have none: "first_overlap R d rows = None \<Longrightarrow> (n, m) \<in> set rows \<Longrightarrow> dir_of (backend m) = Some ap \<Longrightarrow>
      \<not> overlaps (R ap) d" for R rows n m ap
    by (induction R d rows rule: first_overlap.induct) (auto split: option.splits if_splits)
  show ?thesis
  proof (cases "is_file_node (dict_get (tree st) d)")
    case True
    then show ?thesis using assms by (auto simp: prepare_destination_def)
  next
    case False
    then show ?thesis
      using assms l s rows none
      by (cases q) (auto simp: prepare_destination_def seq_def lift_inst_def fail_def ok_def same_def free_dir_def Let_def
          split: option.splits if_splits)
  qed
qed

lemma read_manifest_same: "read_manifest env a st = (r, st') \<Longrightarrow> st' = st"
  by (auto simp: read_manifest_def seq_def open_archive_def ok_def fail_def
      split: option.splits node.splits sum.splits doc.splits)

text \<open>How a restore can end.\<close>

lemma restore_into_cases:
  assumes "env_ok env" and "classes_ok (classes (reg st))" and "io_resolve (s_io env) (path_str d) = d"
    and "dict_get (irows (s_io env) st) name = None" and "restore_into env a name d mf st = (r, st')"
  obtains (no_dir) "r = Inl (Failed DiskError)" "st' = st"
  | (refused) re where "r = Inl (Failed (RegistryErr re))" "kept (s_io env) d st st'" "\<not> is_collision re"
  | (undone) e where "r = Inl e" "kept (s_io env) d st st'"
      "\<not> exists_at d (tree st) \<Longrightarrow> \<forall>q. prefix d q \<longrightarrow> dict_get (tree st') q = None"
  | (restored) i st1 where "r = Inr d" "owns (s_io env) (irows (s_io env) st) name d i (classes (reg st)) (tree st) st'"
      "owns (s_io env) (irows (s_io env) st) name d i (classes (reg st)) (tree st) st1"
      "mkdir_parents d (tree st) = Some (tree st1)"
      "restore_body env a name d mf i st1 = (Inr (), st')"
      "i = lowest_free_index (map index (dict_values (irows (s_io env) st)))"
proof (cases "mkdir_parents d (tree st)")
  case None
  then show ?thesis using assms(5) no_dir by (simp add: restore_into_def Let_def seq_def on_tree_def)
next
  case (Some t)
  let ?io = "s_io env" and ?st = "st\<lparr>tree := t\<rparr>"
  let ?f = "irows ?io st"
  let ?add = "add_allocating (io_pyd ?io) name None (Some (Redroid (path_str d) [])) (io_now ?io)"
  have io: "io_ok ?io" using assms(1) by (simp add: env_ok_def)
  have ex: "exists_at d t" using mkdir_makes [OF Some] by (auto simp: exists_at_def)
  have tt: "touches d (tree st) t" by (rule mkdir_touches [OF Some])
  obtain q st1 where a: "with_registry ?io ?add ?st = (q, st1)" by fastforce
  then show ?thesis
  proof (cases rule: with_registry_cases)
    case (err e)
    have "kept ?io d st st1"
      using err add_allocating_failed [OF err(1)] tt
        add_allocating_classes [of "io_pyd ?io" name "Redroid (path_str d) []" "io_now ?io" "view ?io ?st"]
      by (simp add: kept_def)
    moreover have "\<not> is_collision e" by (rule allocation_errors, subst err(1)) simp
    ultimately show ?thesis
      using refused [of e] a err assms(5) Some by (simp add: restore_into_def Let_def seq_def on_tree_def lift_inst_def)
  next
    case (ok i)
    have row: "irows ?io st1 = ?f @ [(name, \<lparr>backend = Redroid (path_str d) [], index = i, created_at = io_now ?io\<rparr>)]"
      "i = lowest_free_index (map index (dict_values ?f))"
      using add_allocating_row [OF _ _ _ _ ok(1)] io assms(2) by (simp_all add: io_ok_def in_tree_def)
    have own: "owns ?io ?f name d i (classes (reg st)) (tree st) st1"
      using row ok(1,3) tt ex add_allocating_classes [of "io_pyd ?io" name "Redroid (path_str d) []" "io_now ?io" "view ?io ?st"]
      by (simp add: owns_def)
    have rs: "restoring env ?f name d (classes (reg st))" using assms(1-4) by (simp add: restoring_def)
    obtain s st2 where b: "restore_body env a name d mf i st1 = (s, st2)" by fastforce
    have own2: "owns ?io ?f name d i (classes (reg st)) (tree st) st2"
      using hoareD [OF restore_body_owns [OF rs] own b] by blast
    show ?thesis
    proof (cases s)
      case (Inr u)
      then have "r = Inr d \<and> st' = st2"
        using assms(5) Some a ok(2) b by (simp add: restore_into_def Let_def seq_def on_tree_def lift_inst_def on_error_def Files.ok_def)
      then show ?thesis using restored [OF _ _ own _ _ row(2)] own2 b Inr ok(3) Some by simp
    next
      case (Inl e)
      obtain v st3 where rb: "rollback_partial_create ?io name d (\<not> exists_at d (tree st)) st2 = (v, st3)" by fastforce
      from own2 obtain sp where r2: "classes (reg st2) = classes (reg st)" "touches d (tree st) (tree st2)" "exists_at d (tree st2)"
          "irows ?io st2 = ?f @ [(name, \<lparr>backend = Redroid (path_str d) sp, index = i, created_at = io_now ?io\<rparr>)]"
        by (auto simp: owns_def)
      have rbs: "v = Inr ()" "kept ?io d st st3"
        "\<not> exists_at d (tree st) \<Longrightarrow> \<forall>q. prefix d q \<longrightarrow> dict_get (tree st3) q = None"
        using rollback_spec [OF _ _ _ rb] io assms(2,4) r2 dict_pop_snoc [OF assms(4)] touches_trans [OF r2(2)]
        by (auto simp: io_ok_def kept_def)
      have "r = Inl e \<and> st' = st3"
        using assms(5) Some a ok(2) b Inl rb rbs(1) by (simp add: restore_into_def Let_def seq_def on_tree_def lift_inst_def on_error_def)
      then show ?thesis using undone [of e] rbs by simp
    qed
  qed
qed

text \<open>How a restore can end.\<close>

lemma restore_cases:
  assumes "env_ok env" and "classes_ok (classes (reg st))" and "io_resolve (s_io env) (path_str d) = d"
    and "restore env a name d force st = (r, st')"
  obtains (guarded) e where "r = Inl e" "same (s_io env) st st'"
  | (proceeded) st2 mf where "free_dir (s_io env) d st" "dict_get (irows (s_io env) st) name = None"
      "fst (read_manifest env a st) = Inr mf" "irows (s_io env) st2 = irows (s_io env) st" "classes (reg st2) = classes (reg st)"
      "tree st2 = tree st \<and> \<not> occupied d (tree st) \<or> tree st2 = rmtree d (tree st) \<and> force"
      "restore_into env a name d mf st2 = (r, st')"
proof -
  let ?io = "s_io env"
  obtain g st1 where g: "with_registry ?io (get (io_pyd ?io) name) st = (g, st1)" by fastforce
  obtain m st1' where m: "read_manifest env a st1 = (m, st1')" by fastforce
  have m1: "st1' = st1" using read_manifest_same [OF m] .
  obtain v st2 where v: "prepare_destination env d force st1 = (v, st2)" by fastforce
  have s1: "same ?io st st1" using get_same [OF g] .
  have open_eq: "fst (read_manifest env a st) = m"
    using m s1 by (auto simp: read_manifest_def seq_def open_archive_def same_def ok_def fail_def
        split: option.splits node.splits sum.splits doc.splits)
  show ?thesis
  proof (cases "valid_instance_name name \<and> g = Inr None \<and> is_ok m \<and> v = Inr ()")
    case False
    then have "\<not> is_ok r \<and> (st' = st \<or> st' = st1 \<or> st' = st2 \<and> v \<noteq> Inr ())"
      using assms(4) g m v m1
      by (auto simp: restore_def seq_def fail_def lift_inst_def is_ok_iff split: if_splits sum.splits option.splits backend.splits)
    moreover have "v \<noteq> Inr () \<Longrightarrow> same ?io st st2"
      using destination_prepared [OF v] s1 by (simp add: same_def)
    ultimately show ?thesis using guarded s1 by (cases r) auto
  next
    case True
    then obtain mf where mf: "m = Inr mf" by (auto simp: is_ok_iff)
    have r: "restore_into env a name d mf st2 = (r, st')"
      using assms(4) True g m v m1 mf by (simp add: restore_def seq_def lift_inst_def)
    have "dict_get (irows ?io st) name = None" using get_result g True by fastforce
    then show ?thesis
      using proceeded [OF _ _ _ _ _ _ r] destination_prepared [OF v] True s1 open_eq mf by (auto simp: same_def free_dir_def)
  qed
qed

lemma prepared_touches: "t' = t \<and> P \<or> t' = rmtree d t \<and> Q \<Longrightarrow> touches d t t'"
  by (auto intro: rmtree_touches)

lemma restore_registers:
  assumes "env_ok env" and "classes_ok (classes (reg st))" and "io_resolve (s_io env) (path_str d) = d"
    and "restore env a name d force st = (r, st')"
  shows "registers (s_io env) name d st (is_ok r) st'"
  using assms
proof (cases rule: restore_cases)
  case (guarded e)
  then show ?thesis by (simp add: registers_def)
next
  case (proceeded st2 mf)
  have t: "touches d (tree st) (tree st2)" using prepared_touches [OF proceeded(6)] .
  have c2: "classes_ok (classes (reg st2))" and n2: "dict_get (irows (s_io env) st2) name = None"
    using proceeded(2,4,5) assms(2) by simp_all
  from assms(1) c2 assms(3) n2 proceeded(7) show ?thesis
    by (cases rule: restore_into_cases)
      (use proceeded t touches_trans [OF t] in \<open>auto simp: registers_def kept_def owns_def dir_of_def\<close>)
qed

end
