(* ===== verification/Lifecycle.thy ===== *)
theory Lifecycle
  imports Snapshot_Props Config_Props
begin

text \<open>
  The life of instances as a step relation. Failed creations are rolled back, registered
  directories never overlap, and so an operation on one instance leaves the rows and the
  files of every other instance alone.
\<close>

section \<open>Isolation\<close>

text \<open>
  One operation on the instance \<open>name\<close>: a creation, adoption or restoration at a path that
  \<open>Path.resolve\<close> returned, or the destruction of a registered instance at its directory.
\<close>

inductive life_step :: "pyd \<Rightarrow> (string \<Rightarrow> path) \<Rightarrow> string \<Rightarrow> istate \<Rightarrow> istate \<Rightarrow> bool" for p R where
  creation: "io_ok io \<Longrightarrow> io_pyd io = p \<Longrightarrow> io_resolve io = R \<Longrightarrow> create io name (R s) cfg life st = (r, st')
    \<Longrightarrow> life_step p R name st st'"
| adoption: "io_ok io \<Longrightarrow> io_pyd io = p \<Longrightarrow> io_resolve io = R \<Longrightarrow> register io (R s) name_arg st = (r, st')
    \<Longrightarrow> name = (case name_arg of Some n \<Rightarrow> n | None \<Rightarrow> last (R s)) \<Longrightarrow> life_step p R name st st'"
| destruction: "io_ok io \<Longrightarrow> io_pyd io = p \<Longrightarrow> io_resolve io = R \<Longrightarrow> dict_get (rows_of p (reg st)) name = Some m
    \<Longrightarrow> dir_of (backend m) = Some ap \<Longrightarrow> destroy io name (R ap) down_ok confirmed st = (r, st')
    \<Longrightarrow> life_step p R name st st'"
| restoration: "env_ok env \<Longrightarrow> io_pyd (s_io env) = p \<Longrightarrow> io_resolve (s_io env) = R
    \<Longrightarrow> restore env a name (R s) force st = (r', st') \<Longrightarrow> life_step p R name st st'"

inductive_cases life_stepE: "life_step p R name st st'"

text \<open>Between operations the user and the devices may change any file.\<close>

inductive life_reachable :: "pyd \<Rightarrow> (string \<Rightarrow> path) \<Rightarrow> istate \<Rightarrow> bool" for p R where
  fresh: "registry_json (reg st) = None \<Longrightarrow> classes_ok (classes (reg st)) \<Longrightarrow> life_reachable p R st"
| step: "life_reachable p R st \<Longrightarrow> life_step p R name st st' \<Longrightarrow> life_reachable p R st'"
| files: "life_reachable p R st \<Longrightarrow> life_reachable p R (st\<lparr>tree := t\<rparr>)"

text \<open>Registered names are distinct and registered directories lie apart.\<close>

definition dirs_apart :: "(string \<Rightarrow> path) \<Rightarrow> registry_file \<Rightarrow> bool" where
  "dirs_apart R f \<longleftrightarrow> distinct (map fst f) \<and> (\<forall>a m b n ap bp. (a, m) \<in> set f \<longrightarrow> (b, n) \<in> set f \<longrightarrow>
     a \<noteq> b \<longrightarrow> dir_of (backend m) = Some ap \<longrightarrow> dir_of (backend n) = Some bp \<longrightarrow> \<not> overlaps (R ap) (R bp))"

definition life_inv :: "pyd \<Rightarrow> (string \<Rightarrow> path) \<Rightarrow> istate \<Rightarrow> bool" where
  "life_inv p R st \<longleftrightarrow> classes_ok (classes (reg st)) \<and> dirs_apart R (rows_of p (reg st))"

text \<open>What one step does: the rows grow by the named one, lose it, or stay, and the tree
  changes only along a directory apart from those of the other instances.\<close>

lemma overlaps_sym: "overlaps a b \<longleftrightarrow> overlaps b a"
  by (auto simp: overlaps_iff)

lemma dirs_apart_pop: "dirs_apart R f \<Longrightarrow> dirs_apart R (dict_pop n f)"
  unfolding dirs_apart_def set_dict_pop by (fastforce simp: dict_pop_def distinct_map_filter)

lemma dirs_apart_snoc:
  assumes "dirs_apart R f" and "dict_get f name = None"
    and "\<forall>(n, m) \<in> set f. \<forall>ap. dir_of (backend m) = Some ap \<longrightarrow> \<not> overlaps (R ap) d"
    and "dir_of (backend m) = Some ap" and "R ap = d"
  shows "dirs_apart R (f @ [(name, m)])"
  using assms overlaps_sym
  by (fastforce simp: dirs_apart_def map_of_eq_None_iff split: prod.splits)

lemma life_step_effect:
  assumes "life_step p R name st st'" and "pyd_laws p" and "\<And>s. R (path_str (R s)) = R s" and "life_inv p R st"
  obtains d where "touches d (tree st) (tree st')"
    "\<And>n m ap. n \<noteq> name \<Longrightarrow> dict_get (rows_of p (reg st)) n = Some m \<Longrightarrow> dir_of (backend m) = Some ap \<Longrightarrow>
       tree st' = tree st \<or> \<not> overlaps (R ap) d"
    "life_inv p R st'"
    "rows_of p (reg st') = rows_of p (reg st) \<or> rows_of p (reg st') = dict_pop name (rows_of p (reg st))
     \<or> (\<exists>m. rows_of p (reg st') = rows_of p (reg st) @ [(name, m)] \<and> dict_get (rows_of p (reg st)) name = None)"
proof -
  note result = that
  let ?f = "rows_of p (reg st)"
  have c: "classes_ok (classes (reg st))" and apart: "dirs_apart R ?f" using assms(4) by (simp_all add: life_inv_def)
  have registered: thesis if io: "io_pyd io = p" "io_resolve io = R" and r: "registers io name (R s) st added st'" for io s added
  proof -
    from r io consider (same) "same io st st'" | (failed) "free_dir io (R s) st" "classes (reg st') = classes (reg st)"
        "touches (R s) (tree st) (tree st')" "rows_of p (reg st') = ?f"
      | (added) m where "free_dir io (R s) st" "dict_get ?f name = None" "classes (reg st') = classes (reg st)"
        "touches (R s) (tree st) (tree st')" "rows_of p (reg st') = ?f @ [(name, m)]"
        "dir_of (backend m) = Some (path_str (R s))"
      by (auto simp: registers_def split: if_splits)
    then show thesis
    proof cases
      case same
      then show thesis using result [of "R s"] assms(4) io by (simp add: same_def life_inv_def)
    next
      case failed
      then show thesis
        using result [of "R s"] assms(4) io by (fastforce simp: life_inv_def free_dir_def dest: map_of_SomeD)
    next
      case (added m)
      have "dirs_apart R (?f @ [(name, m)])"
        using dirs_apart_snoc [OF apart added(2) _ added(6) assms(3)] added(1) io by (simp add: free_dir_def)
      then show thesis
        using result [of "R s"] added io c by (fastforce simp: life_inv_def free_dir_def dest: map_of_SomeD)
    qed
  qed
  from assms(1) show thesis
  proof (cases rule: life_step.cases)
    case (creation io s cfg life r)
    then show thesis using registered create_registers [OF _ c] by blast
  next
    case (adoption io s name_arg r)
    then show thesis using registered register_registers [OF _ c] by blast
  next
    case (restoration env s a force r')
    then show thesis using registered restore_registers [OF _ c] assms(3) by blast
  next
    case (destruction io m ap down_ok confirmed r)
    then have d: "classes (reg st') = classes (reg st)" "touches (R ap) (tree st) (tree st')"
        "rows_of p (reg st') = ?f \<or> rows_of p (reg st') = dict_pop name ?f"
      using destroy_spec [OF _ c _ destruction(6)] assms(2) by auto
    moreover have "\<not> overlaps (R bp) (R ap)"
      if "n \<noteq> name" "dict_get ?f n = Some k" "dir_of (backend k) = Some bp" for n k bp
      using that apart destruction map_of_SomeD [OF that(2)] map_of_SomeD [of ?f name m]
      unfolding dirs_apart_def by blast
    ultimately show thesis
      using result [of "R ap"] assms(4) dirs_apart_pop [OF apart] by (auto simp: life_inv_def)
  qed
qed

lemma life_reachable_inv:
  assumes "pyd_laws p" and "\<And>s. R (path_str (R s)) = R s" and "life_reachable p R st"
  shows "life_inv p R st"
  using assms(3)
proof (induction rule: life_reachable.induct)
  case (fresh st)
  then show ?case by (simp add: life_inv_def rows_of_missing dirs_apart_def)
next
  case (step st name st')
  then show ?case using life_step_effect [OF step.hyps(2) assms(1,2)] by blast
next
  case (files st t)
  then show ?case by (simp add: life_inv_def)
qed

lemma apart_files:
  assumes "\<not> overlaps d' d" and "touches d t t'" and "prefix d' q"
  shows "dict_get t' q = dict_get t q"
  using assms prefix_same_cases prefix_order.trans unfolding touches_def overlaps_iff by metis

text \<open>
  C2: operations on one instance never reach another. In every state that creations, adoptions,
  restorations and destructions can produce, whatever the user does to the files in between, an operation on
  the instance \<open>name\<close> keeps the registry row of every other instance and every file at or below
  that instance's directory, whether the operation succeeds or fails.
\<close>

theorem operations_isolated:
  assumes "pyd_laws p" and "\<And>s. R (path_str (R s)) = R s" and "life_reachable p R st"
    and "life_step p R name st st'" and "other \<noteq> name"
    and "dict_get (rows_of p (reg st)) other = Some m" and "dir_of (backend m) = Some ap"
  shows "dict_get (rows_of p (reg st')) other = Some m
     \<and> (\<forall>q. prefix (R ap) q \<longrightarrow> dict_get (tree st') q = dict_get (tree st) q)"
proof -
  obtain d where d: "touches d (tree st) (tree st')" "tree st' = tree st \<or> \<not> overlaps (R ap) d"
      "rows_of p (reg st') = rows_of p (reg st) \<or> rows_of p (reg st') = dict_pop name (rows_of p (reg st))
       \<or> (\<exists>m. rows_of p (reg st') = rows_of p (reg st) @ [(name, m)] \<and> dict_get (rows_of p (reg st)) name = None)"
    using life_step_effect [OF assms(4,1,2) life_reachable_inv [OF assms(1-3)]] assms(5-7) by metis
  have "dict_get (rows_of p (reg st')) other = Some m" using d(3) assms(5,6) by (auto simp: map_add_def)
  then show ?thesis using d(2) apart_files [OF _ d(1)] by auto
qed

section \<open>A concrete environment\<close>

text \<open>Path resolution without symbolic links, and an empty host.\<close>

definition split_path :: "string \<Rightarrow> path" where
  "split_path s = filter (\<lambda>x. x \<noteq> []) (split_on (CHR ''/'') s)"

lemma split_segments: "list_all (\<lambda>x. CHR ''/'' \<notin> set x) p \<Longrightarrow> CHR ''/'' \<notin> set a \<Longrightarrow>
    split_on (CHR ''/'') (a @ concat (map (\<lambda>s. CHR ''/'' # s) p)) = a # p"
  by (induction p arbitrary: a) (auto simp: split_on_no_sep split_on_append_sep)

lemma split_path_idem: "split_path (path_str (split_path s)) = split_path s"
proof -
  let ?p = "split_path s"
  have "list_all (\<lambda>x. CHR ''/'' \<notin> set x) ?p"
    using split_on_parts_no_sep by (fastforce simp: split_path_def list_all_iff)
  moreover have "filter (\<lambda>x. x \<noteq> []) ?p = ?p" by (simp add: split_path_def)
  ultimately show ?thesis
    using split_segments [of ?p "[]"]
    by (auto simp: path_str_def split_path_def [of "concat _"] split_path_def [of "''/''"])
qed

definition host_io :: io where
  "host_io = \<lparr>io_pyd = strict_pyd, io_resolve = split_path, io_dump = (\<lambda>_. ''{}''), io_float = (\<lambda>_. ''0''),
     io_render_node = False, io_now = ''t'', io_mkdir_ok = True, io_yaml_ok = True, io_fails_at = None\<rparr>"

definition empty_host :: istate where
  "empty_host = \<lparr>reg = live_world\<lparr>yaml := example_env PNone\<rparr>, tree = []\<rparr>"

lemma host_io_ok: "io_ok host_io" "io_pyd host_io = strict_pyd" "io_resolve host_io = split_path"
  using strict_pyd_laws by (simp_all add: io_ok_def host_io_def iso_time_def) (simp add: strict_pyd_def)

lemma empty_host_classes: "classes_ok (classes (reg empty_host))"
  by (simp add: empty_host_def live_world_def example_world_def in_tree_classes_ok)

text \<open>A host with one instance.\<close>

definition one_instance :: istate where
  "one_instance = snd (create host_io ''alpha'' (split_path ''/srv/a'') None None empty_host)"

lemma one_instance_rows: "rows_of strict_pyd (reg one_instance) =
  [(''alpha'', \<lparr>backend = Redroid ''/srv/a'' [], index = 0, created_at = ''t''\<rparr>)]"
  by code_simp

lemma create_step: "life_step strict_pyd split_path name st (snd (create host_io name (split_path s) None None st))"
  using life_step.creation [of host_io strict_pyd split_path name s None None st] host_io_ok by (metis prod.collapse)

lemma one_instance_reachable: "life_reachable strict_pyd split_path one_instance"
proof -
  have "life_reachable strict_pyd split_path empty_host"
    using empty_host_classes by (rule life_reachable.fresh [rotated]) (simp add: empty_host_def live_world_def)
  then show ?thesis unfolding one_instance_def using create_step by (blast intro: life_reachable.step)
qed

lemma one_instance_classes: "classes_ok (classes (reg one_instance))"
  using life_reachable_inv [OF strict_pyd_laws split_path_idem one_instance_reachable] by (simp add: life_inv_def)

text \<open>A second one is created beside it and leaves the first one alone.\<close>

theorem operations_isolated_witness:
  "\<exists>st'. create host_io ''beta'' (split_path ''/srv/b'') None None one_instance = (Inr 1, st')
     \<and> dict_get (rows_of strict_pyd (reg st')) ''alpha'' = Some \<lparr>backend = Redroid ''/srv/a'' [], index = 0, created_at = ''t''\<rparr>
     \<and> (\<forall>q. prefix (split_path ''/srv/a'') q \<longrightarrow> dict_get (tree st') q = dict_get (tree one_instance) q)"
proof -
  let ?r = "create host_io ''beta'' (split_path ''/srv/b'') None None one_instance"
  have "fst ?r = Inr 1" by code_simp
  then obtain st' where r: "?r = (Inr 1, st')" by (cases ?r) auto
  have "life_step strict_pyd split_path ''beta'' one_instance st'"
    using create_step [of "''beta''" one_instance "''/srv/b''"] r by simp
  from operations_isolated [OF strict_pyd_laws split_path_idem one_instance_reachable this, of "''alpha''"
      "\<lparr>backend = Redroid ''/srv/a'' [], index = 0, created_at = ''t''\<rparr>" "''/srv/a''"] r
  show ?thesis by (simp add: one_instance_rows dir_of_def)
qed

section \<open>Failed creations\<close>



text \<open>
  A creation can leave its directory behind all the same. When writing the configuration
  fails (the disk is full), the directory the call just made stays, although the registry has
  no row for it: the rollback covers only what follows the registration.
\<close>

theorem create_leaves_directory:
  "let (r, st') = create (host_io\<lparr>io_yaml_ok := False\<rparr>) ''alpha'' (split_path ''/srv/a'') None None empty_host
   in r = Inl DiskError \<and> rows_of strict_pyd (reg st') = [] \<and> tree empty_host = []
     \<and> dict_get (tree st') (split_path ''/srv/a'') = Some Dir"
  by code_simp

section \<open>Adoption and destruction\<close>

text \<open>
  Adopting a directory destroys nothing in it. Whether the adoption succeeds or is rolled
  back, every file and directory that existed still exists, and all but the three generated
  files (\<open>.env\<close>, \<open>compose.override.yaml\<close> and \<open>frida-server\<close>) are unchanged.
\<close>

theorem register_preserves_files:
  assumes "io_ok io" and "classes_ok (classes (reg st))" and "register io d name_arg st = (r, st')"
  shows "preserves d (tree st) (tree st')"
  using assms(3)
proof (cases rule: register_cases)
  case (guarded e)
  then show ?thesis by (simp add: same_def preserves_def)
next
  case (committing name st2 cfg)
  have s: "classes_ok (classes (reg st2))" "tree st2 = tree st" using committing(1) assms(2) by (simp_all add: same_def)
  have "False \<longrightarrow> exists_at d (tree st2)" by simp
  from assms(1) s(1) this committing(6) show ?thesis
    by (cases rule: commit_cases) (use s in \<open>auto simp: same_def preserves_def edits_def\<close>)
qed

definition adoptable :: istate where
  "adoptable = empty_host\<lparr>tree := [([''old''], Dir), ([''old'', ''beetroot.yaml''], File ''ports: []''),
     ([''old'', ''data''], Dir), ([''old'', ''data'', ''user.db''], File ''x'')]\<rparr>"

theorem register_preserves_files_witness:
  "\<exists>st'. register host_io (split_path ''/old'') None adoptable = (Inr 0, st')
     \<and> preserves (split_path ''/old'') (tree adoptable) (tree st')"
proof -
  let ?r = "register host_io (split_path ''/old'') None adoptable"
  have "fst ?r = Inr 0" by code_simp
  then obtain st' where r: "?r = (Inr 0, st')" by (cases ?r) auto
  have "classes_ok (classes (reg adoptable))" using empty_host_classes by (simp add: adoptable_def)
  from register_preserves_files [OF host_io_ok(1) this r] r show ?thesis by blast
qed



end
