(* ===== verification/Snapshot_Roundtrip.thy ===== *)
theory Snapshot_Roundtrip
  imports Lifecycle
begin

text \<open>
  What a snapshot holds and what restoring it brings back, the size cap, the rollback of a
  failed restore, and two ways a restore loses or leaves files.
\<close>

section \<open>The manifest\<close>

lemma str_dict_strings: "pyd_laws p \<Longrightarrow> str_dict p (PDict (map (\<lambda>(k, v). (PStr k, PStr v)) d)) = Some d"
  by (induction d) (auto simp: str_dict_def pyd_laws_def)

text \<open>
  The manifest of a snapshot is read back as it was written: name, index, time, release
  and lifecycle unchanged, and the path layout with the same entries in the order of their keys.
\<close>

theorem manifest_roundtrip:
  assumes "pyd_laws p"
  shows "Manifest_model_validate p (manifest_to_json mf) = Some (mf\<lparr>path_layout := sort_key fst (path_layout mf)\<rparr>)"
  using assms str_dict_strings [OF assms, of "sort_key fst (path_layout mf)"]
  by (cases mf; cases "mf_lifecycle mf")
    (simp_all add: Manifest_model_validate_def manifest_to_json_def MANIFEST_FIELDS_def only_keys_def field_or_def
      literal_def str_field_def pyd_laws_def parse_lifecycle_def lifecycle_text_def)

theorem manifest_roundtrip_witness:
  "Manifest_model_validate strict_pyd (manifest_to_json \<lparr>mf_name = ''alpha'', source_index = 3, mf_created_at = ''t'',
     beetroot_version = ''0.9'', path_layout = [(''b'', ''1''), (''a'', ''2'')], mf_lifecycle = Ephemeral\<rparr>)
   = Some \<lparr>mf_name = ''alpha'', source_index = 3, mf_created_at = ''t'', beetroot_version = ''0.9'',
       path_layout = [(''a'', ''2''), (''b'', ''1'')], mf_lifecycle = Ephemeral\<rparr>"
proof -
  have "sort_key fst [(''b'', ''1''), (''a'', ''2'')] = [(''a'', ''2''), (''b'', ''1'' :: string)]" by code_simp
  then show ?thesis by (simp add: manifest_roundtrip [OF strict_pyd_laws])
qed

section \<open>The walk\<close>

lemma mkdir_wf:
  assumes "mkdir_parents p t = Some t'" and "dict_wf t"
  shows "dict_wf t'"
proof -
  have "dict_wf (fold (\<lambda>q t. if dict_get t q = None then dict_set q Dir t else t) ds u)" if "dict_wf u" for ds u
    using that by (induction ds arbitrary: u) (auto simp: dict_wf_set)
  with assms show ?thesis
    by (auto simp only: mkdir_parents_def Let_def option.inject option.distinct split: if_split_asm)
qed

lemma write_wf: "write_text p c t = Some t' \<Longrightarrow> dict_wf t \<Longrightarrow> dict_wf t'"
  by (auto simp: write_text_def split: if_splits)

lemma touch_lock_cases:
  assumes "touch_lock d t = Some t'"
  obtains t1 where "mkdir_parents d t = Some t1" "t' = t1 \<or> t' = dict_set (lock_file d) (File []) t1"
proof (cases "mkdir_parents d t")
  case None
  then show ?thesis using assms by (simp add: touch_lock_def)
next
  case (Some t1)
  then show ?thesis
    using assms that by (cases "dict_get t1 (lock_file d)") (auto simp: touch_lock_def split: node.splits)
qed

lemma touch_lock_wf:
  assumes "touch_lock d t = Some t'" and "dict_wf t"
  shows "dict_wf t'"
  using assms(1) by (rule touch_lock_cases) (use assms(2) mkdir_wf in auto)

lemma packed_nodes_iff:
  assumes "dict_wf t"
  shows "(rel, n) \<in> set (packed_nodes rdir dest t) \<longleftrightarrow> rel \<noteq> [] \<and> dict_get t (rdir @ rel) = Some n
     \<and> hd rel \<notin> set EXCLUDED_TOP_LEVEL \<and> rdir @ rel \<noteq> dest"
proof
  assume "(rel, n) \<in> set (packed_nodes rdir dest t)"
  then obtain q where "(q, n) \<in> set t" "prefix rdir q" "q \<noteq> rdir" "q ! length rdir \<notin> set EXCLUDED_TOP_LEVEL" "q \<noteq> dest"
      "rel = drop (length rdir) q"
    by (auto simp: packed_nodes_def)
  moreover from this obtain r where "q = rdir @ r" "r \<noteq> []" by (auto simp: prefix_def)
  ultimately show "rel \<noteq> [] \<and> dict_get t (rdir @ rel) = Some n \<and> hd rel \<notin> set EXCLUDED_TOP_LEVEL \<and> rdir @ rel \<noteq> dest"
    using dict_get_wf [OF assms] by (auto simp: nth_append hd_conv_nth)
next
  assume r: "rel \<noteq> [] \<and> dict_get t (rdir @ rel) = Some n \<and> hd rel \<notin> set EXCLUDED_TOP_LEVEL \<and> rdir @ rel \<noteq> dest"
  then have "(rdir @ rel, n) \<in> set t" using dict_get_wf [OF assms] by simp
  then show "(rel, n) \<in> set (packed_nodes rdir dest t)"
    using r by (force simp: packed_nodes_def nth_append hd_conv_nth)
qed

lemma packed_nodes_distinct:
  assumes "dict_wf t"
  shows "distinct (map fst (packed_nodes rdir dest t))"
proof -
  have "inj_on (drop (length rdir)) {q. prefix rdir q}" by (auto simp: inj_on_def prefix_def)
  moreover have "distinct (map fst (filter P t))" for P :: "path \<times> node \<Rightarrow> bool"
    using assms by (simp add: dict_wf_def distinct_map_filter)
  ultimately have "distinct (map (drop (length rdir)) (map fst (filter (\<lambda>(q, n). prefix rdir q \<and> q \<noteq> rdir
      \<and> q ! length rdir \<notin> set EXCLUDED_TOP_LEVEL \<and> q \<noteq> dest) t)))"
    by (subst distinct_map) (auto elim!: inj_on_subset)
  then have "distinct (map fst (map (\<lambda>(q, n). (drop (length rdir) q, n)) (filter (\<lambda>(q, n). prefix rdir q \<and> q \<noteq> rdir
      \<and> q ! length rdir \<notin> set EXCLUDED_TOP_LEVEL \<and> q \<noteq> dest) t)))"
    by (simp add: comp_def case_prod_beta)
  moreover have "distinct (map fst (sort_key fst xs)) = distinct (map fst xs)" for xs :: "(path \<times> node) list"
    by (simp add: distinct_map)
  ultimately show ?thesis unfolding packed_nodes_def by simp
qed

section \<open>Unpacking what was packed\<close>

definition seg_ok :: "string \<Rightarrow> bool" where
  "seg_ok s \<longleftrightarrow> s \<notin> {[], ''.'', ''..''} \<and> CHR ''/'' \<notin> set s"

definition kind_of_node :: "node \<Rightarrow> tar_kind" where
  "kind_of_node n = (case n of Dir \<Rightarrow> TarDir | File c \<Rightarrow> TarFile c)"

text \<open>Extracting a file or directory member puts that node in its place and keeps the others.\<close>

definition places_plain :: "senv \<Rightarrow> bool" where
  "places_plain env \<longleftrightarrow> (\<forall>rel n d t t'. rel \<noteq> [] \<longrightarrow> list_all seg_ok rel \<longrightarrow>
     place env (Tar_Member (arc_path rel) (kind_of_node n)) d t = Some t' \<longrightarrow>
     dict_get t' (d @ rel) = Some n \<and> (\<forall>q. q \<noteq> d @ rel \<longrightarrow> dict_get t q \<noteq> None \<longrightarrow> dict_get t' q = dict_get t q))"

lemma extract_members_places:
  assumes "places_plain env"
    and "extract_members env d cap n es t = (Inr k, t')"
    and "map fst es = map (\<lambda>(rel, x). Tar_Member (arc_path rel) (kind_of_node x)) nodes"
    and "distinct (map fst nodes)" and "\<forall>(rel, x) \<in> set nodes. rel \<noteq> [] \<and> list_all seg_ok rel"
  shows "(\<forall>(rel, x) \<in> set nodes. dict_get t' (d @ rel) = Some x)
     \<and> (\<forall>q. (\<forall>(rel, x) \<in> set nodes. q \<noteq> d @ rel) \<longrightarrow> dict_get t q \<noteq> None \<longrightarrow> dict_get t' q = dict_get t q)"
  using assms(2-5)
proof (induction es arbitrary: n t nodes)
  case (Cons e es)
  obtain m hdr body where e: "e = (m, hdr, body)" by (cases e)
  from Cons.prems(2) obtain rel x ns where ns: "nodes = (rel, x) # ns" "m = Tar_Member (arc_path rel) (kind_of_node x)"
      "map fst es = map (\<lambda>(rel, x). Tar_Member (arc_path rel) (kind_of_node x)) ns"
    by (cases nodes) (auto simp: e)
  from Cons.prems(1) obtain j t1 where t1: "place env m d t = Some t1" "extract_members env d cap j es t1 = (Inr k, t')"
    by (auto simp: e split: option.splits)
  have here: "dict_get t1 (d @ rel) = Some x" "\<And>q. q \<noteq> d @ rel \<Longrightarrow> dict_get t q \<noteq> None \<Longrightarrow> dict_get t1 q = dict_get t q"
    using assms(1) t1(1) ns Cons.prems(4) unfolding places_plain_def by auto
  have rest: "\<forall>(r, y) \<in> set ns. dict_get t' (d @ r) = Some y"
    "\<And>q. (\<forall>(r, y) \<in> set ns. q \<noteq> d @ r) \<Longrightarrow> dict_get t1 q \<noteq> None \<Longrightarrow> dict_get t' q = dict_get t1 q"
    using Cons.IH [OF t1(2) ns(3)] Cons.prems(3,4) ns(1) by auto
  have "\<forall>(r, y) \<in> set ns. d @ rel \<noteq> d @ r" using Cons.prems(3) ns(1) by force
  then have "dict_get t' (d @ rel) = Some x" using rest(2) [of "d @ rel"] here(1) by simp
  then show ?case using rest here(2) ns(1) by auto
qed auto

text \<open>What a successful snapshot wrote.\<close>

lemma on_tree_Inr: "on_tree e f st = (Inr u, st') \<longleftrightarrow> (\<exists>t. f (tree st) = Some t \<and> st' = st\<lparr>tree := t\<rparr>)"
  by (auto simp: on_tree_def split: option.splits)

lemma seq_Inr: "seq c k s = (Inr b, s') \<longleftrightarrow> (\<exists>a s1. c s = (Inr a, s1) \<and> k a s1 = (Inr b, s'))"
  by (auto simp: seq_def split: prod.splits sum.splits)

lemma read_lifecycle_tree: "read_lifecycle env rdir st = (r, st') \<Longrightarrow> tree st' = tree st"
  by (auto simp: read_lifecycle_def load_config_def split: prod.splits sum.splits)

lemma find_registry_entry_tree:
  assumes "find_registry_entry env rdir st = (r, st')"
  shows "same (s_io env) st st'"
proof -
  obtain q st1 where l: "with_registry (s_io env) (list_instances (io_pyd (s_io env))) st = (q, st1)" by fastforce
  have "st' = st1"
    using assms l by (cases q) (auto simp: find_registry_entry_def seq_def lift_inst_def fail_def ok_def split: sum.splits)
  then show ?thesis using list_same [OF l] by simp
qed

lemma snapshot_wrote:
  assumes "snapshot env rdir dest st = (Inr final, st')"
  obtains t1 t2 t3 mf where "final = ensure_suffix dest" "mkdir_parents (butlast final) (tree st) = Some t1"
    "touch_lock rdir t1 = Some t2" "write_text final [] t2 = Some t3"
    "tree st' = dict_set final (File (pack env (add_manifest env mf # add_instance_tree rdir final t3))) t3"
proof -
  have yes: "is_file_node (dict_get (tree st) (yaml_path rdir))" using assms by (auto simp: snapshot_def split: if_splits)
  have dest: "dest \<noteq> []" using assms yes by (auto simp: snapshot_def seq_Inr fail_def)
  define final' where "final' = ensure_suffix dest"
  define k where "k = (\<lambda>(name :: string, m :: instance_meta, sp). seq (on_tree (Failed DiskError) (mkdir_parents (butlast final'))) (\<lambda>_.
          seq (read_lifecycle env rdir) (\<lambda>lc.
          seq (on_tree (Failed DiskError) (touch_lock rdir)) (\<lambda>_.
          seq (on_tree (Failed DiskError) (write_text final' [])) (\<lambda>_.
          seq (write_archive env rdir final' (build_manifest env name (index m) sp lc)) (\<lambda>_.
          ok final'))))))"
  have "seq (find_registry_entry env rdir) k st = (Inr final, st')"
    using assms yes dest by (simp add: snapshot_def Let_def final'_def k_def)
  then obtain name m sp s1 where f: "find_registry_entry env rdir st = (Inr (name, m, sp), s1)"
    and rest: "k (name, m, sp) s1 = (Inr final, st')"
    by (auto simp: seq_Inr)
  from rest obtain t1 s2 lc t2 t3 t4 where
      t: "mkdir_parents (butlast final') (tree s1) = Some t1" "read_lifecycle env rdir (s1\<lparr>tree := t1\<rparr>) = (Inr lc, s2)"
      "touch_lock rdir (tree s2) = Some t2" "write_text final' [] t2 = Some t3"
      "write_text final' (pack env (add_manifest env (build_manifest env name (index m) sp lc)
         # add_instance_tree rdir final' t3)) t3 = Some t4"
      "tree st' = t4" "final = final'"
    by (auto simp: k_def ok_def seq_Inr on_tree_Inr write_archive_def)
  have "tree s1 = tree st" "tree s2 = t1"
    using find_registry_entry_tree [OF f] read_lifecycle_tree [OF t(2)] by (simp_all add: same_def)
  moreover have "t4 = dict_set final' (File (pack env (add_manifest env (build_manifest env name (index m) sp lc)
         # add_instance_tree rdir final' t3))) t3"
    using t(5) by (simp add: write_text_def split: if_splits)
  ultimately show ?thesis using that [of t1 t2 t3] t by (auto simp: final'_def)
qed

lemma mkdir_keeps: "mkdir_parents p t = Some t' \<Longrightarrow> dict_get t q = Some n \<Longrightarrow> dict_get t' q = Some n"
  using mkdir_preserves [of p t t' q] by (fastforce simp: preserves_def generated_files_def)

lemma snapshot_keeps_node:
  assumes "mkdir_parents (butlast final) t = Some t1" "touch_lock rdir t1 = Some t2" "write_text final [] t2 = Some t3"
    and "dict_get t q = Some n" and "q \<noteq> final" and "q \<noteq> lock_file rdir"
  shows "dict_get t3 q = Some n"
proof -
  have "dict_get t1 q = Some n" using mkdir_keeps assms(1,4) by blast
  moreover obtain u where "mkdir_parents rdir t1 = Some u" "t2 = u \<or> t2 = dict_set (lock_file rdir) (File []) u"
    using assms(2) by (rule touch_lock_cases)
  ultimately have "dict_get t2 q = Some n" using mkdir_keeps [of rdir t1 u q n] assms(6) by auto
  then show ?thesis using assms(3,5) by (auto simp: write_text_def split: if_splits)
qed

text \<open>Statements between the extraction and the staging leave the tree alone.\<close>

abbreviation disk :: "tree \<Rightarrow> istate \<Rightarrow> bool" where
  "disk t st \<equiv> tree st = t"

lemma with_registry_disk: "hoare (disk t) (with_registry io f) (\<lambda>_. True)"
  by (rule hoareI) (auto elim: with_registry_cases)

lemma load_config_disk: "hoare (disk t) (load_config io d) (\<lambda>_. True)"
  by (rule hoareI) (auto simp: same_def dest: load_config_same)

lemma resolve_noting_disk: "hoare (disk t) (resolve_noting i ms) (\<lambda>_. True)"
  by (rule hoareI) (auto simp: resolve_noting_def split: sum.splits)

lemmas disk_seqs = hoare_seq [OF hoare_lift [OF with_registry_disk]] hoare_seq [OF hoare_lift [OF load_config_disk]]
  hoare_seq [OF resolve_noting_disk]

lemma check_ports_disk: "hoare (disk t) (check_restored_port_collision env n j d) (\<lambda>_. True)"
  unfolding check_restored_port_collision_def
  by (intro disk_seqs) (auto split: option.splits intro: hoare_ok hoare_fail)

lemma load_instance_disk: "hoare (disk t) (load_instance env name) (\<lambda>_. True)"
  unfolding load_instance_def
  by (intro disk_seqs) (auto split: option.splits backend.splits intro!: disk_seqs hoare_ok hoare_fail)

text \<open>What a successful restore read and extracted.\<close>

lemma restore_body_extracted:
  assumes "restoring env f name d cs" and "owns (s_io env) f name d i cs t st"
    and "restore_body env a name d mf j st = (Inr (), st')"
  obtains b k t1 where "dict_get (tree st) a = Some (File b)"
    "extract_members env d MAX_EXTRACT_BYTES 0 (entries (unpack env b)) (tree st) = (Inr k, t1)"
    "preserves d t1 (tree st')"
    "capped_reads MAX_EXTRACT_BYTES k (trailer (unpack env b)) \<noteq> None"
proof -
  from assms(3) obtain s1 s2 s3 s4 s5 cfg u rd ld where
      x: "extract_archive_into env a d st = (Inr (), s1)" and l: "lift_inst (load_config (s_io env) d) s1 = (Inr cfg, s2)"
      and sp: "(if path_layout mf = [] then ok () else lift_inst (with_registry (s_io env)
                 (set_stealth_paths (io_pyd (s_io env)) name (path_layout mf)))) s2 = (Inr u, s3)"
      and p: "check_restored_port_collision env name j d s3 = (Inr (), s4)"
      and li: "load_instance env name s4 = (Inr (rd, ld), s5)"
      and sg: "lift_inst (stage_local (s_io env) name rd ld) s5 = (Inr (), st')"
    by (auto simp: restore_body_def seq_Inr fail_def split: if_splits)
  let ?I = "owns (s_io env) f name d i cs t"
  have st: "hoare I (if path_layout mf = [] then ok () else lift_inst (with_registry (s_io env)
      (set_stealth_paths (io_pyd (s_io env)) name (path_layout mf)))) (\<lambda>_. True)"
    if "hoare I (with_registry (s_io env) (set_stealth_paths (io_pyd (s_io env)) name (path_layout mf))) (\<lambda>_. True)" for I
    using that by (auto intro: hoare_intros)
  have lo: "hoare ?I (load_config (s_io env) d) (\<lambda>_. True)"
    by (rule hoare_same) (auto dest: load_config_same)
  have "?I s1" using hoareD [OF extract_owns [OF assms(1)] assms(2) x] by blast
  then have "?I s2" using hoareD [OF hoare_lift [OF lo] _ l] by blast
  then have "?I s3" using hoareD [OF st [OF stealth_owns [OF assms(1)]] _ sp] by blast
  then have "?I s4" using hoareD [OF check_ports_owns _ p] by blast
  then have rd: "rd = d" using hoareD [OF load_instance_owns [OF assms(1)] _ li] by simp
  have "tree s2 = tree s1" using hoareD [OF hoare_lift [OF load_config_disk] _ l] by blast
  moreover have "tree s3 = tree s2" using hoareD [OF st [OF with_registry_disk] _ sp] by blast
  moreover have "tree s4 = tree s3" using hoareD [OF check_ports_disk _ p] by blast
  moreover have "tree s5 = tree s4" using hoareD [OF load_instance_disk _ li] by blast
  ultimately have tr: "tree s5 = tree s1" by simp
  have "stage_local (s_io env) name d ld s5 = (Inr (), st')"
    using sg rd by (auto simp: lift_inst_def split: prod.splits sum.splits)
  then have pres: "preserves d (tree s1) (tree st')"
    using stage_local_staged tr unfolding staged_def edits_def by metis
  from x obtain b k where "dict_get (tree st) a = Some (File b)"
      "extract_members env d MAX_EXTRACT_BYTES 0 (entries (unpack env b)) (tree st) = (Inr k, tree s1)"
      "capped_reads MAX_EXTRACT_BYTES k (trailer (unpack env b)) \<noteq> None"
    by (auto simp: extract_archive_into_def seq_Inr open_archive_def fail_def
        split: option.splits node.splits if_splits prod.splits)
  then show ?thesis using that pres by blast
qed

lemma mkdir_file:
  assumes "mkdir_parents p t = Some t'" and "dict_get t' q = Some (File c)"
  shows "dict_get t q = Some (File c)"
proof -
  have fold_file: "dict_get (fold (\<lambda>q t. if dict_get t q = None then dict_set q Dir t else t) ds u) q = Some (File c) \<Longrightarrow>
      dict_get u q = Some (File c)" for ds u
  proof (induction ds arbitrary: u)
    case (Cons p ds)
    have "dict_get (if dict_get u p = None then dict_set p Dir u else u) q = Some (File c)"
      by (rule Cons.IH) (use Cons.prems in simp)
    then show ?case by (simp split: if_splits)
  qed simp
  obtain ds where "t' = fold (\<lambda>q t. if dict_get t q = None then dict_set q Dir t else t) ds t"
    using assms(1) by (auto simp only: mkdir_parents_def Let_def option.inject option.distinct split: if_split_asm)
  then show ?thesis using fold_file assms(2) by simp
qed

lemma restore_extracted:
  assumes "env_ok env" and "classes_ok (classes (reg st))" and "io_resolve (s_io env) (path_str d) = d"
    and "restore env a name d force st = (Inr x, st')"
  obtains b k t t1 where "dict_get (tree st) a = Some (File b)"
    "extract_members env d MAX_EXTRACT_BYTES 0 (entries (unpack env b)) t = (Inr k, t1)"
    "preserves d t1 (tree st')" "capped_reads MAX_EXTRACT_BYTES k (trailer (unpack env b)) \<noteq> None"
  using assms
proof (cases rule: restore_cases)
  case (proceeded s2 mf)
  have c2: "classes_ok (classes (reg s2))" and n2: "dict_get (irows (s_io env) s2) name = None"
    using proceeded(2,4,5) assms(2) by simp_all
  from assms(1) c2 assms(3) n2 proceeded(7) show ?thesis
  proof (cases rule: restore_into_cases)
    case (restored i s3)
    have rs: "restoring env (irows (s_io env) s2) name d (classes (reg s2))"
      using assms(1,3) c2 n2 by (simp add: restoring_def)
    obtain b k t1 where b: "dict_get (tree s3) a = Some (File b)"
        "extract_members env d MAX_EXTRACT_BYTES 0 (entries (unpack env b)) (tree s3) = (Inr k, t1)"
        "preserves d t1 (tree st')" "capped_reads MAX_EXTRACT_BYTES k (trailer (unpack env b)) \<noteq> None"
      using restore_body_extracted [OF rs restored(3,5)] by blast
    have "dict_get (tree s2) a = Some (File b)" using mkdir_file [OF restored(4) b(1)] .
    then have "dict_get (tree st) a = Some (File b)" using proceeded(6) by (auto simp: rmtree_get split: if_splits)
    then show ?thesis using that b(2-4) by blast
  qed simp_all
qed simp

text \<open>A tree whose paths have proper segments, each path once.\<close>

definition plain_tree :: "tree \<Rightarrow> bool" where
  "plain_tree t \<longleftrightarrow> dict_wf t \<and> (\<forall>q. dict_get t q \<noteq> None \<longrightarrow> list_all seg_ok q)"

lemma mkdir_plain:
  assumes "plain_tree t" and "list_all seg_ok p" and "mkdir_parents p t = Some t'"
  shows "plain_tree t'"
proof -
  have "list_all seg_ok q" if "dict_get t' q \<noteq> None" for q
    using that assms mkdir_other [OF assms(3), of q]
    by (cases "prefix q p") (auto simp: plain_tree_def prefix_def)
  then show ?thesis using assms mkdir_wf by (simp add: plain_tree_def)
qed

lemma set_plain: "plain_tree t \<Longrightarrow> list_all seg_ok p \<Longrightarrow> plain_tree (dict_set p n t)"
  by (auto simp: plain_tree_def)

lemma write_plain: "plain_tree t \<Longrightarrow> list_all seg_ok p \<Longrightarrow> write_text p c t = Some t' \<Longrightarrow> plain_tree t'"
  by (auto simp: write_text_def set_plain split: if_splits)

lemma lock_plain:
  assumes "plain_tree t" and "list_all seg_ok d" and "touch_lock d t = Some t'"
  shows "plain_tree t'"
proof -
  have l: "list_all seg_ok (lock_file d)" using assms(2) by (simp add: lock_file_def seg_ok_def)
  from assms(3) show ?thesis
    by (rule touch_lock_cases) (use mkdir_plain [OF assms(1,2)] set_plain l in auto)
qed

lemma ensure_suffix_plain: "list_all seg_ok dest \<Longrightarrow> dest \<noteq> [] \<Longrightarrow> list_all seg_ok (ensure_suffix dest)"
  by (cases dest rule: rev_cases) (auto simp: ensure_suffix_def seg_ok_def ARCHIVE_SUFFIX_def)

lemma written_plain:
  assumes "plain_tree t" and "list_all seg_ok rdir" and "list_all seg_ok final" and "mkdir_parents (butlast final) t = Some t1"
    and "touch_lock rdir t1 = Some t2" and "write_text final [] t2 = Some t3"
  shows "plain_tree t3"
proof -
  have "list_all seg_ok (butlast final)" using assms(3) by (auto simp: list_all_iff dest: in_set_butlastD)
  then show ?thesis using assms mkdir_plain lock_plain write_plain by blast
qed

text \<open>The archive codec is faithful on what it packs.\<close>

definition archiver :: "senv \<Rightarrow> bool" where
  "archiver env \<longleftrightarrow> env_ok env \<and> places_plain env \<and> (\<forall>ms. map fst (entries (unpack env (pack env ms))) = ms)"


section \<open>A concrete archive format\<close>

fun enc :: "string \<Rightarrow> string" where
  "enc [] = ''|''"
| "enc (c # s) = CHR ''.'' # c # enc s"

fun dec :: "string \<Rightarrow> string \<times> string" where
  "dec (a # b # s) = (if a = CHR ''.'' then (case dec s of (x, r) \<Rightarrow> (b # x, r)) else ([], b # s))"
| "dec s = ([], [])"

lemma dec_enc: "dec (enc s @ r) = (s, r)"
  by (induction s) (cases r; simp)+

definition enc_member :: "tar_member \<Rightarrow> string" where
  "enc_member m = enc (arcname m) @ (case tkind m of
     TarFile c \<Rightarrow> CHR ''f'' # enc c | TarDir \<Rightarrow> ''d'' | TarOther \<Rightarrow> ''o'')"

fun dec_members :: "nat \<Rightarrow> string \<Rightarrow> tar_member list" where
  "dec_members 0 s = []"
| "dec_members (Suc n) s = (if s = [] then [] else (case dec s of
     (name, k # r) \<Rightarrow>
       if k = CHR ''f'' then (case dec r of (c, r') \<Rightarrow> Tar_Member name (TarFile c) # dec_members n r')
       else Tar_Member name (if k = CHR ''d'' then TarDir else TarOther) # dec_members n r
   | (name, []) \<Rightarrow> []))"

lemma dec_enc_members: "length ms \<le> n \<Longrightarrow> dec_members n (concat (map enc_member ms)) = ms"
proof (induction ms arbitrary: n)
  case Nil
  then show ?case by (cases n) auto
next
  case (Cons m ms)
  obtain k where n: "n = Suc k" using Cons.prems by (cases n) auto
  have "enc_member m @ concat (map enc_member ms) \<noteq> []" by (cases "arcname m") (simp_all add: enc_member_def)
  then show ?case
    using Cons n by (cases m; cases "tkind m") (auto simp: enc_member_def dec_enc)
qed

lemma enc_members_length: "length ms \<le> length (concat (map enc_member ms))"
proof (induction ms)
  case (Cons m ms)
  have "1 \<le> length (enc_member m)" by (cases "arcname m") (simp_all add: enc_member_def)
  with Cons have "Suc (length ms) \<le> length (enc_member m) + length (concat (map enc_member ms))" by linarith
  then show ?case by simp
qed simp

text \<open>Extraction of file and directory members with safe names; anything else is refused.\<close>

definition place_member :: "tar_member \<Rightarrow> path \<Rightarrow> tree \<Rightarrow> tree option" where
  "place_member m d t = (let rel = split_on (CHR ''/'') (drop 2 (arcname m)) in
     if take 2 (arcname m) = ''./'' \<and> list_all seg_ok rel then
       Option.bind (mkdir_parents (d @ butlast rel) t) (\<lambda>t. case tkind m of
         TarDir \<Rightarrow> mkdir_parents (d @ rel) t | TarFile c \<Rightarrow> write_text (d @ rel) c t | TarOther \<Rightarrow> None)
     else None)"

lemma mkdir_fills:
  assumes "mkdir_parents (d @ r) t = Some t'"
  shows "fills d t t'"
proof -
  have "exists_at d t \<Longrightarrow> exists_at d t'" using mkdir_keeps [OF assms] by (fastforce simp: exists_at_def)
  moreover have "touches d t t'"
    unfolding touches_def using mkdir_other [OF assms] by (metis prefixI prefix_append)
  ultimately show ?thesis by (simp add: fills_def)
qed

lemma write_fills: "write_text (d @ r) c t = Some t' \<Longrightarrow> fills d t t'"
  by (auto simp: fills_def exists_at_def intro: write_touches simp: write_text_def split: if_splits)

lemma place_member_fills:
  assumes "place_member m d t = Some t'"
  shows "fills d t t'"
proof -
  define rel where "rel = split_on (CHR ''/'') (drop 2 (arcname m))"
  obtain t1 where t1: "mkdir_parents (d @ butlast rel) t = Some t1"
      "(case tkind m of TarDir \<Rightarrow> mkdir_parents (d @ rel) t1 | TarFile c \<Rightarrow> write_text (d @ rel) c t1 | TarOther \<Rightarrow> None) = Some t'"
    using assms unfolding place_member_def Let_def rel_def [symmetric]
    by (auto simp: bind_eq_Some_conv split: if_splits)
  have "fills d t1 t'" using t1(2) mkdir_fills write_fills by (auto split: tar_kind.splits)
  then show ?thesis using fills_trans mkdir_fills [OF t1(1)] by blast
qed

definition tar_env :: "pyval \<Rightarrow> senv" where
  "tar_env mf = \<lparr>s_io = host_io, json_loads = (\<lambda>_. Json mf), json_dumps = (\<lambda>_. ''{}''),
     pack = (\<lambda>ms. concat (map enc_member ms)),
     unpack = (\<lambda>s. \<lparr>entries = map (\<lambda>m. (m, [512], [])) (dec_members (length s) s), trailer = [1024], ending = StreamEnd\<rparr>),
     place = place_member, torn = (\<lambda>m d t. t), release = ''0.9''\<rparr>"

lemma arc_path_split:
  assumes "rel \<noteq> []" and "list_all seg_ok rel"
  shows "split_on (CHR ''/'') (drop 2 (arc_path rel)) = rel"
  using split_join [of rel "CHR ''/''"] assms by (auto simp: arc_path_def list_all_iff seg_ok_def)

lemma tar_env_archiver: "archiver (tar_env mf)"
proof -
  have "env_ok (tar_env mf)"
    using host_io_ok(1) place_member_fills by (auto simp: env_ok_def tar_env_def)
  moreover have "map fst (entries (unpack (tar_env mf) (pack (tar_env mf) ms))) = ms" for ms
    using dec_enc_members [OF enc_members_length] by (simp add: tar_env_def comp_def)
  moreover have "places_plain (tar_env mf)"
    unfolding places_plain_def
  proof (intro allI impI)
    fix rel n d t t'
    assume r: "rel \<noteq> []" "list_all seg_ok rel"
      and "place (tar_env mf) (Tar_Member (arc_path rel) (kind_of_node n)) d t = Some t'"
    then obtain t1 where t1: "mkdir_parents (d @ butlast rel) t = Some t1"
        "(case n of Dir \<Rightarrow> mkdir_parents (d @ rel) t1 | File c \<Rightarrow> write_text (d @ rel) c t1) = Some t'"
      using arc_path_split [OF r]
      by (cases n) (auto simp: tar_env_def place_member_def kind_of_node_def bind_eq_Some_conv split: if_splits)
    have "dict_get t' (d @ rel) = Some n"
      using t1(2) r(1) mkdir_makes [of "d @ rel" t1 t'] by (auto simp: write_text_def split: node.splits if_splits)
    moreover have "dict_get t' q = dict_get t q" if "q \<noteq> d @ rel" "dict_get t q \<noteq> None" for q
      using that t1 mkdir_keeps [OF t1(1)] mkdir_keeps [of "d @ rel" t1 t' q]
      by (fastforce simp: write_text_def split: node.splits if_splits)
    ultimately show "dict_get t' (d @ rel) = Some n \<and> (\<forall>q. q \<noteq> d @ rel \<longrightarrow> dict_get t q \<noteq> None \<longrightarrow> dict_get t' q = dict_get t q)"
      by blast
  qed
  ultimately show ?thesis by (simp add: archiver_def)
qed

definition old_manifest :: pyval where
  "old_manifest = manifest_to_json \<lparr>mf_name = ''old'', source_index = 0, mf_created_at = ''t'', beetroot_version = ''0.9'',
     path_layout = [], mf_lifecycle = Durable\<rparr>"

definition adopted :: istate where
  "adopted = snd (register host_io (split_path ''/old'') None adoptable)"

definition archived :: "(snap_error + path) \<times> istate" where
  "archived = snapshot (tar_env old_manifest) (split_path ''/old'') (split_path ''/old/backup'') adopted"

definition copied :: "(snap_error + path) \<times> istate" where
  "copied = restore (tar_env old_manifest) (split_path ''/old/backup.tar.zst'') ''copy'' (split_path ''/new'') False (snd archived)"


section \<open>The size cap and failed restores\<close>

definition stream_size :: "archive \<Rightarrow> int" where
  "stream_size arch = sum_list (map (\<lambda>(m, hdr, body). sum_list hdr + sum_list body) (entries arch)) + sum_list (trailer arch)"

lemma capped_reads_Some: "capped_reads cap n cs = Some k \<Longrightarrow> k = n + sum_list cs \<and> (n \<le> cap \<longrightarrow> k \<le> cap)"
  by (induction cap n cs rule: capped_reads.induct) (auto split: if_splits)

lemma extract_members_size:
  "extract_members env d cap n es t = (Inr k, t') \<Longrightarrow> n \<le> cap \<Longrightarrow>
   k = n + sum_list (map (\<lambda>(m, hdr, body). sum_list hdr + sum_list body) es) \<and> k \<le> cap"
proof (induction env d cap n es t rule: extract_members.induct)
  case (2 env d cap n m hdr body es t)
  from 2(2) obtain a b t1 where s: "capped_reads cap n hdr = Some a" "capped_reads cap a body = Some b"
      "place env m d t = Some t1" "extract_members env d cap b es t1 = (Inr k, t')"
    by (auto split: option.splits)
  then show ?case using 2(1) [OF s] 2(3) capped_reads_Some [OF s(1)] capped_reads_Some [OF s(2)] by simp
qed auto

text \<open>
  C34: no archive inflates past the cap. A restore only succeeds when the bytes its stream
  delivered, headers and trailer included, are at most 64 GiB, whatever sizes the members
  claim to have.
\<close>

theorem restore_within_cap:
  assumes "env_ok env" and "classes_ok (classes (reg st))" and "io_resolve (s_io env) (path_str d) = d"
    and "restore env a name d force st = (Inr x, st')"
  shows "\<exists>b. dict_get (tree st) a = Some (File b) \<and> stream_size (unpack env b) \<le> MAX_EXTRACT_BYTES"
proof -
  obtain b k t t1 where b: "dict_get (tree st) a = Some (File b)"
      "extract_members env d MAX_EXTRACT_BYTES 0 (entries (unpack env b)) t = (Inr k, t1)" "preserves d t1 (tree st')"
      "capped_reads MAX_EXTRACT_BYTES k (trailer (unpack env b)) \<noteq> None"
    by (rule restore_extracted [OF assms])
  then obtain k' where k': "capped_reads MAX_EXTRACT_BYTES k (trailer (unpack env b)) = Some k'" by auto
  have "(0 :: int) \<le> MAX_EXTRACT_BYTES" by (simp add: MAX_EXTRACT_BYTES_def)
  then show ?thesis
    using extract_members_size [OF b(2)] capped_reads_Some [OF k'] b(1) by (auto simp: stream_size_def)
qed

text \<open>An empty host with a small archive and a file beside it.\<close>

definition archive_bytes :: string where
  "archive_bytes = concat (map enc_member [Tar_Member ''./.beetroot-snapshot.json'' (TarFile ''{}''),
     Tar_Member ''./beetroot.yaml'' (TarFile ''x'')])"

definition archive_host :: istate where
  "archive_host = empty_host\<lparr>tree := [([''srv''], Dir), ([''srv'', ''notes''], File ''n''), ([''srv'', ''a''], File archive_bytes)]\<rparr>"

theorem restore_within_cap_witness:
  "is_ok (fst (restore (tar_env old_manifest) [''srv'', ''a''] ''copy'' [''new''] False archive_host))
   \<and> (\<exists>b. dict_get (tree archive_host) [''srv'', ''a''] = Some (File b)
       \<and> stream_size (unpack (tar_env old_manifest) b) \<le> MAX_EXTRACT_BYTES)"
proof -
  let ?r = "restore (tar_env old_manifest) [''srv'', ''a''] ''copy'' [''new''] False archive_host"
  have ok: "is_ok (fst ?r)" by code_simp
  then obtain x st' where r: "?r = (Inr x, st')" by (cases ?r) (auto simp: is_ok_iff)
  have c: "classes_ok (classes (reg archive_host))" using empty_host_classes by (simp add: archive_host_def)
  have e: "env_ok (tar_env old_manifest)" using tar_env_archiver by (simp add: archiver_def)
  have p: "io_resolve (s_io (tar_env old_manifest)) (path_str [''new'']) = [''new'']" by code_simp
  show ?thesis using ok restore_within_cap [OF e c p r] by blast
qed



text \<open>
  A forced restore can destroy its own archive. When the archive lies in the destination
  directory, the manifest is read, the directory is removed with the archive in it, and the
  restore fails because the archive is gone; nothing of the directory or the archive is left.
\<close>

theorem forced_restore_loses_archive:
  "let (r, st') = restore (tar_env old_manifest) [''srv'', ''a''] ''copy'' [''srv''] True archive_host
   in r = Inl ArchiveUnreadable \<and> dict_get (tree archive_host) [''srv'', ''a''] = Some (File archive_bytes)
     \<and> tree st' = [] \<and> rows_of strict_pyd (reg st') = []"
  by code_simp

text \<open>
  A restore into a directory that exists and is empty leaves what it extracted there when it
  fails later: the rollback only removes a directory the restore made.
\<close>

lemma restore_leaves_tree:
  "let st = archive_host\<lparr>tree := ([''new''], Dir) # tree archive_host\<rparr>;
       env = (tar_env old_manifest)\<lparr>s_io := host_io\<lparr>io_fails_at := Some 0\<rparr>\<rparr>;
       (r, st') = restore env [''srv'', ''a''] ''copy'' [''new''] False st
   in r = Inl (Failed DiskError) \<and> rows_of strict_pyd (reg st') = []
     \<and> dict_get (tree st') [''new'', ''beetroot.yaml''] = Some (File ''x'')"
  by code_simp

end
