(* ===== verification/Downloads.thy ===== *)
theory Downloads
  imports Files Pystrings
begin

text \<open>
  Fetching prebuilt artefacts: \<open>kernel_download.py\<close> and \<open>rootfs_download.py\<close>. What the network
  answers, the SHA-256 function, UTF-8 decoding, the zstd reader, the random names \<open>tempfile\<close> draws and
  whether the disk has room are arguments (\<open>denv\<close>); streaming, the truncation check, the checksum,
  the size ceiling and the staging through a temporary file are modelled. Progress bars and
  messages are left out; the bytes a hash object has been fed stand for the object.
\<close>

section \<open>Network and disk\<close>

text \<open>What a statement inside a download can raise.\<close>

datatype raised = HttpError int | TimeoutErr | UrlErr | OsErr | ValueErr | OtherErr

text \<open>
  \<open>urlopen\<close> raises, or gives the raw \<open>Content-Length\<close> header, the chunks successive reads return
  and what ends them: a clean end of file or an exception.
\<close>

datatype response = Refused raised | Opened "string option" "string list" "raised option"

record denv =
  d_net :: "string \<Rightarrow> response"
  d_sha256 :: "string \<Rightarrow> string"
  d_decode :: "string \<Rightarrow> string option"
  d_zstd :: "string \<Rightarrow> string list \<times> bool"
  d_names :: "path \<Rightarrow> string list"
  d_room :: "path \<Rightarrow> string \<Rightarrow> bool"

datatype fetch_error =
    HTTP_status int
  | Timed_out
  | Cannot_reach
  | Malformed_sidecar
  | Sha_mismatch string string
  | Truncated int int
  | Over_ceiling
  | Bad_payload
  | Mid_stream
  | Bad_scheme
  | Bad_version string
  | Path_escapes path
  | Path_missing path
  | Raised raised

text \<open>The \<open>except\<close> clauses for \<open>HTTPError\<close>, \<open>TimeoutError\<close> and \<open>URLError\<close>; anything else passes.\<close>

definition map_fault :: "raised \<Rightarrow> fetch_error" where
  "map_fault e = (case e of
     HttpError c \<Rightarrow> HTTP_status c | TimeoutErr \<Rightarrow> Timed_out | UrlErr \<Rightarrow> Cannot_reach | _ \<Rightarrow> Raised e)"

type_synonym 'a fetch = "tree \<Rightarrow> (fetch_error + 'a) \<times> tree"

definition os_step :: "(tree \<Rightarrow> tree option) \<Rightarrow> unit fetch" where
  "os_step f = attempt (Raised OsErr) f"

text \<open>
  \<open>tempfile.mkstemp(dir=d, ...)\<close> and \<open>mkdtemp\<close> try names until one is not in use and give up when
  they run out of names.
\<close>

definition unused :: "path \<Rightarrow> tree \<Rightarrow> bool" where
  "unused p t = list_all (\<lambda>(q, _). \<not> prefix p q) t"

definition temp_name :: "denv \<Rightarrow> path \<Rightarrow> tree \<Rightarrow> path option" where
  "temp_name env d t = map_option (\<lambda>n. d @ [n]) (find (\<lambda>n. unused (d @ [n]) t) (d_names env d))"

definition mkstemp :: "denv \<Rightarrow> path \<Rightarrow> path fetch" where
  "mkstemp env d t = (case temp_name env d t of
     Some tmp \<Rightarrow> if d_room env tmp [] then (Inr tmp, dict_set tmp (File []) t) else (Inl (Raised OsErr), t)
   | None \<Rightarrow> (Inl (Raised OsErr), t))"

definition mkdtemp :: "denv \<Rightarrow> path \<Rightarrow> path fetch" where
  "mkdtemp env d t = (case temp_name env d t of
     Some tmp \<Rightarrow> (Inr tmp, dict_set tmp Dir t) | None \<Rightarrow> (Inl (Raised OsErr), t))"

text \<open>The staging idiom: make a temporary file, run the body, remove the file when the body raises.\<close>

definition through_temp :: "denv \<Rightarrow> path \<Rightarrow> (path \<Rightarrow> 'a fetch) \<Rightarrow> 'a fetch" where
  "through_temp env d body = seq (mkstemp env d) (\<lambda>tmp. on_error (body tmp) (os_step (unlink_missing_ok tmp)))"

definition append_file :: "denv \<Rightarrow> path \<Rightarrow> string \<Rightarrow> tree \<Rightarrow> tree option" where
  "append_file env p c t = (case dict_get t p of
     Some (File old) \<Rightarrow> if d_room env p (old @ c) then Some (dict_set p (File (old @ c)) t) else None
   | _ \<Rightarrow> None)"

section \<open>The \<open>Content-Length\<close> header\<close>

definition digit_part :: "string \<Rightarrow> bool" where
  "digit_part s \<longleftrightarrow> list_all (\<lambda>w. w \<noteq> [] \<and> list_all is_digit w) (split_on (CHR ''_'') s)"

definition drop_sign :: "string \<Rightarrow> string" where
  "drop_sign s = (case s of c # r \<Rightarrow> if c = CHR ''+'' \<or> c = CHR ''-'' then r else s | [] \<Rightarrow> [])"

definition mantissa :: "string \<Rightarrow> bool" where
  "mantissa s = (case str_partition (CHR ''.'') s of (a, _, b) \<Rightarrow>
     (a \<noteq> [] \<or> b \<noteq> []) \<and> (a = [] \<or> digit_part a) \<and> (b = [] \<or> digit_part b))"

text \<open>Whether \<open>float(s)\<close> returns.\<close>

definition float_ok :: "string \<Rightarrow> bool" where
  "float_ok s = (let u = lower (drop_sign (strip s)) in
     u \<in> {''inf'', ''infinity'', ''nan''}
     \<or> (case str_partition (CHR ''e'') u of (m, e, x) \<Rightarrow> mantissa m \<and> (\<not> e \<or> digit_part (drop_sign x))))"

definition total_raises :: "string option \<Rightarrow> bool" where
  "total_raises raw = (case raw of None \<Rightarrow> False | Some s \<Rightarrow> s \<noteq> [] \<and> \<not> float_ok s)"

definition expected_bytes :: "string option \<Rightarrow> int option" where
  "expected_bytes raw = (case raw of
     Some s \<Rightarrow> if s \<noteq> [] \<and> list_all is_digit s then Some (int_of_str s) else None | None \<Rightarrow> None)"

section \<open>Reading a response\<close>

text \<open>\<open>while True: chunk = resp.read(n); if not chunk: break\<close>, into memory.\<close>

fun read_chunks_into :: "string \<Rightarrow> string list \<Rightarrow> raised option \<Rightarrow> raised + string" where
  "read_chunks_into got [] stop = (case stop of None \<Rightarrow> Inr got | Some e \<Rightarrow> Inl e)"
| "read_chunks_into got (c # cs) stop = (if c = [] then Inr got else read_chunks_into (got @ c) cs stop)"

text \<open>The same loop, writing each chunk to the open file \<open>p\<close>; \<open>got\<close> is what was written so far.\<close>

fun write_chunks :: "denv \<Rightarrow> path \<Rightarrow> string \<Rightarrow> string list \<Rightarrow> raised option \<Rightarrow> tree \<Rightarrow> (raised + string) \<times> tree" where
  "write_chunks env p got [] stop t = (case stop of None \<Rightarrow> (Inr got, t) | Some e \<Rightarrow> (Inl e, t))"
| "write_chunks env p got (c # cs) stop t =
     (if c = [] then (Inr got, t)
      else case append_file env p c t of
        None \<Rightarrow> (Inl OsErr, t)
      | Some t' \<Rightarrow> write_chunks env p (got @ c) cs stop t')"

definition fetch_bytes :: "denv \<Rightarrow> string \<Rightarrow> fetch_error + string" where
  "fetch_bytes env url = (case d_net env url of
     Refused e \<Rightarrow> Inl (map_fault e)
   | Opened raw cs stop \<Rightarrow>
       if total_raises raw then Inl (Raised ValueErr)
       else (case read_chunks_into [] cs stop of Inl e \<Rightarrow> Inl (map_fault e) | Inr b \<Rightarrow> Inr b))"

text \<open>\<open>sidecar.decode().split()[0].strip()\<close>\<close>

definition sidecar_digest :: "denv \<Rightarrow> string \<Rightarrow> string option" where
  "sidecar_digest env b = Option.bind (d_decode env b) (\<lambda>s. case split_ws s of [] \<Rightarrow> None | w # _ \<Rightarrow> Some (strip w))"

definition REPO :: string where "REPO = ''Xiddoc/Beetroot''"

section \<open>Guest kernels\<close>

definition KERNEL_TAG_PREFIX :: string where "KERNEL_TAG_PREFIX = ''vm-kernel''"

definition config_fingerprint :: "denv \<Rightarrow> string \<Rightarrow> string" where
  "config_fingerprint env c = take 12 (d_sha256 env c)"

definition kernel_asset_name :: "string \<Rightarrow> string \<Rightarrow> string" where
  "kernel_asset_name version fp = ''bzImage-'' @ version @ ''-'' @ fp"

definition kernel_release_tag :: "string \<Rightarrow> string \<Rightarrow> string" where
  "kernel_release_tag version fp = KERNEL_TAG_PREFIX @ ''-'' @ version @ ''-'' @ fp"

definition kernel_release_url :: "string \<Rightarrow> string \<Rightarrow> string" where
  "kernel_release_url version fp = ''https://github.com/'' @ REPO @ ''/releases/download/''
     @ kernel_release_tag version fp @ ''/'' @ kernel_asset_name version fp"

definition stream_to_handle :: "denv \<Rightarrow> string \<Rightarrow> path \<Rightarrow> string fetch" where
  "stream_to_handle env url handle t = (case d_net env url of
     Refused e \<Rightarrow> (Inl (map_fault e), t)
   | Opened raw cs stop \<Rightarrow>
       if total_raises raw then (Inl (Raised ValueErr), t)
       else (case write_chunks env handle [] cs stop t of
           (Inl e, t') \<Rightarrow> (Inl (map_fault e), t')
         | (Inr got, t') \<Rightarrow> (Inr (d_sha256 env got), t')))"

definition verify_sidecar :: "denv \<Rightarrow> string \<Rightarrow> string \<Rightarrow> unit fetch" where
  "verify_sidecar env actual sidecar = (case sidecar_digest env sidecar of
     None \<Rightarrow> fail Malformed_sidecar
   | Some expected \<Rightarrow>
       if lower actual \<noteq> lower expected then fail (Sha_mismatch (lower expected) (lower actual)) else ok ())"

definition kernel_fetch_prebuilt :: "denv \<Rightarrow> string \<Rightarrow> string \<Rightarrow> path \<Rightarrow> path fetch" where
  "kernel_fetch_prebuilt env version fp out_path =
     (let url = kernel_release_url version fp in
      seq (os_step (mkdir_parents (butlast out_path))) (\<lambda>_.
      seq (through_temp env (butlast out_path) (\<lambda>tmp.
             seq (stream_to_handle env url tmp) (\<lambda>actual.
             seq (give (fetch_bytes env (url @ ''.sha256''))) (\<lambda>sidecar.
             seq (verify_sidecar env actual sidecar) (\<lambda>_.
             os_step (replace_file tmp out_path)))))) (\<lambda>_.
      ok out_path)))"

section \<open>Guest root file systems\<close>

definition ROOTFS_TAG_PREFIX :: string where "ROOTFS_TAG_PREFIX = ''vm-rootfs''"
definition MAX_DECOMPRESSED_BYTES :: int where "MAX_DECOMPRESSED_BYTES = 64 * 1024 * 1024 * 1024"
definition ROOTFS_VERSION_MARKER_SUFFIX :: string where "ROOTFS_VERSION_MARKER_SUFFIX = ''.android-version''"

definition fingerprint_preimage :: "int \<Rightarrow> string \<Rightarrow> string \<Rightarrow> string" where
  "fingerprint_preimage android_version docker_version guest_init_hash =
     ''android='' @ str_of_int android_version @ NL @ ''docker='' @ docker_version @ NL
       @ ''guest-init='' @ guest_init_hash @ NL"

definition composite_fingerprint :: "denv \<Rightarrow> int \<Rightarrow> string \<Rightarrow> string \<Rightarrow> string" where
  "composite_fingerprint env android_version docker_version guest_init =
     take 12 (d_sha256 env (fingerprint_preimage android_version docker_version (d_sha256 env guest_init)))"

definition rootfs_asset_name :: "string \<Rightarrow> string \<Rightarrow> string" where
  "rootfs_asset_name version fp = ''rootfs-'' @ version @ ''-'' @ fp @ ''.img.zst''"

definition rootfs_release_tag :: "string \<Rightarrow> string \<Rightarrow> string" where
  "rootfs_release_tag version fp = ROOTFS_TAG_PREFIX @ ''-'' @ version @ ''-'' @ fp"

definition rootfs_release_url :: "string \<Rightarrow> string \<Rightarrow> string" where
  "rootfs_release_url version fp = ''https://github.com/'' @ REPO @ ''/releases/download/''
     @ rootfs_release_tag version fp @ ''/'' @ rootfs_asset_name version fp"

text \<open>The module has its own copy of \<open>_fetch_bytes\<close>, with the same text.\<close>

definition rootfs_fetch_bytes :: "denv \<Rightarrow> string \<Rightarrow> fetch_error + string" where
  "rootfs_fetch_bytes env url = fetch_bytes env url"

definition open_for_writing :: "denv \<Rightarrow> path \<Rightarrow> tree \<Rightarrow> tree option" where
  "open_for_writing env p t = (if d_room env p [] then write_text p [] t else None)"

text \<open>The read loop with the check against the advertised length.\<close>

definition receive :: "denv \<Rightarrow> path \<Rightarrow> string option \<Rightarrow> string list \<Rightarrow> raised option \<Rightarrow> string fetch" where
  "receive env dest raw cs stop t = (case write_chunks env dest [] cs stop t of
     (Inl e, t') \<Rightarrow> (Inl (map_fault e), t')
   | (Inr got, t') \<Rightarrow> (case expected_bytes raw of
       Some n \<Rightarrow> if int (length got) \<noteq> n then (Inl (Truncated (int (length got)) n), t') else (Inr got, t')
     | None \<Rightarrow> (Inr got, t')))"

definition download_to_file :: "denv \<Rightarrow> string \<Rightarrow> path \<Rightarrow> string fetch" where
  "download_to_file env url dest t = (case d_net env url of
     Refused e \<Rightarrow> (Inl (map_fault e), t)
   | Opened raw cs stop \<Rightarrow>
       seq (os_step (open_for_writing env dest)) (\<lambda>_.
       seq (receive env dest raw cs stop) (\<lambda>got.
       ok (d_sha256 env got))) t)"

fun decompress_loop :: "denv \<Rightarrow> path \<Rightarrow> int \<Rightarrow> string list \<Rightarrow> bool \<Rightarrow> unit fetch" where
  "decompress_loop env dst written [] broken t = (if broken then (Inl Bad_payload, t) else (Inr (), t))"
| "decompress_loop env dst written (c # cs) broken t =
     (if c = [] then (Inr (), t)
      else let written' = written + int (length c) in
        if written' > MAX_DECOMPRESSED_BYTES then (Inl Over_ceiling, t)
        else case append_file env dst c t of
          None \<Rightarrow> (Inl (Raised OsErr), t)
        | Some t' \<Rightarrow> decompress_loop env dst written' cs broken t')"

definition decompress_to_file :: "denv \<Rightarrow> path \<Rightarrow> path \<Rightarrow> unit fetch" where
  "decompress_to_file env src dst t = (case read_bytes src t of
     None \<Rightarrow> (Inl (Raised OsErr), t)
   | Some b \<Rightarrow> seq (os_step (open_for_writing env dst))
       (\<lambda>_. decompress_loop env dst 0 (fst (d_zstd env b)) (snd (d_zstd env b))) t)"

definition marker_of :: "path \<Rightarrow> path" where
  "marker_of out_image = butlast out_image @ [last out_image @ ROOTFS_VERSION_MARKER_SUFFIX]"

definition write_marker :: "denv \<Rightarrow> path \<Rightarrow> string \<Rightarrow> tree \<Rightarrow> tree option" where
  "write_marker env p c t = (if d_room env p c then write_text p c t else None)"

definition fetch_image :: "denv \<Rightarrow> string \<Rightarrow> int \<Rightarrow> path \<Rightarrow> path \<Rightarrow> unit fetch" where
  "fetch_image env url android_version out_image staging =
     (let compressed = staging @ [''image.img.zst'']; tmp = staging @ [''image.img''] in
      seq (download_to_file env url compressed) (\<lambda>actual.
      seq (give (rootfs_fetch_bytes env (url @ ''.sha256''))) (\<lambda>sidecar.
      seq (verify_sidecar env actual sidecar) (\<lambda>_.
      seq (decompress_to_file env compressed tmp) (\<lambda>_.
      seq (os_step (write_marker env (marker_of out_image) (str_of_int android_version @ NL))) (\<lambda>_.
      os_step (replace_file tmp out_image)))))))"

definition rootfs_fetch_prebuilt :: "denv \<Rightarrow> int \<Rightarrow> string \<Rightarrow> path \<Rightarrow> path fetch" where
  "rootfs_fetch_prebuilt env android_version fp out_image =
     (let url = rootfs_release_url (str_of_int android_version) fp in
      seq (os_step (mkdir_parents (butlast out_image))) (\<lambda>_.
      seq (mkdtemp env (butlast out_image)) (\<lambda>staging.
      seq (finally_do (fetch_image env url android_version out_image staging) (rmtree staging)) (\<lambda>_.
      ok out_image))))"

end
