(* ===== verification/Downloads_Props.thy ===== *)
theory Downloads_Props
  imports Downloads
begin

text \<open>
  What a download promises: the interface \<open>fetcher\<close> of an operation that publishes one file
  through a temporary one, its laws for the kernel and the root file system, and what they give
  the caller.
\<close>

section \<open>What changes in the tree\<close>

text \<open>Only the paths of \<open>S\<close> change, except that missing parent directories of them are made.\<close>

definition only_changes :: "path set \<Rightarrow> tree \<Rightarrow> tree \<Rightarrow> bool" where
  "only_changes S t t' \<longleftrightarrow> (\<forall>q. q \<notin> S \<longrightarrow> dict_get t' q = dict_get t q
     \<or> dict_get t q = None \<and> dict_get t' q = Some Dir \<and> (\<exists>s\<in>S. strict_prefix q s))"

lemma only_changes_refl [simp]: "only_changes S t t"
  by (simp add: only_changes_def)

lemma only_changes_mono: "only_changes S t t' \<Longrightarrow> S \<subseteq> S' \<Longrightarrow> only_changes S' t t'"
  unfolding only_changes_def by blast

lemma only_changes_trans: "only_changes S t t' \<Longrightarrow> only_changes S t' t'' \<Longrightarrow> only_changes S t t''"
  unfolding only_changes_def by (metis option.distinct(1))

lemma only_changes_existing:
  "only_changes S t t' \<Longrightarrow> q \<notin> S \<Longrightarrow> dict_get t q = Some n \<Longrightarrow> dict_get t' q = Some n"
  unfolding only_changes_def by (metis option.distinct(1))

lemma only_changes_frame: "only_changes S t t' \<Longrightarrow> (\<And>q. q \<notin> S \<Longrightarrow> dict_get t'' q = dict_get t' q)
    \<Longrightarrow> only_changes S t t''"
  by (simp add: only_changes_def)

section \<open>The interface of a download\<close>

locale fetcher =
  fixes run :: "tree \<Rightarrow> ('e + 'a) \<times> tree"
    and dst :: path
    and side :: "path set"
    and good :: "string \<Rightarrow> bool"
  assumes frame: "run t = (r, t') \<Longrightarrow> only_changes (insert dst side) t t'"
    and delivers: "run t = (Inr v, t') \<Longrightarrow> \<exists>c. dict_get t' dst = Some (File c) \<and> good c"
    and withdraws: "run t = (Inl e, t') \<Longrightarrow> dict_get t' dst = dict_get t dst \<or> dict_get t' dst = None"
begin

definition sound :: "tree \<Rightarrow> bool" where
  "sound t \<longleftrightarrow> (\<forall>n. dict_get t dst = Some n \<longrightarrow> (\<exists>c. n = File c \<and> good c))"

abbreviation attempts :: "nat \<Rightarrow> tree \<Rightarrow> tree" where
  "attempts k \<equiv> (\<lambda>t. snd (run t)) ^^ k"

lemma run_sound: "sound t \<Longrightarrow> sound (snd (run t))"
proof (cases "run t")
  case (Pair r t')
  assume "sound t"
  with Pair show ?thesis
    using delivers [of t _ t'] withdraws [of t _ t'] by (cases r) (auto simp: sound_def)
qed

lemma attempts_sound: "sound t \<Longrightarrow> sound (attempts k t)"
  by (induction k) (simp_all add: run_sound)

lemma attempts_keep:
  "q \<notin> insert dst side \<Longrightarrow> dict_get t q = Some n \<Longrightarrow> dict_get (attempts k t) q = Some n"
proof (induction k)
  case (Suc k)
  let ?u = "attempts k t"
  show ?case
    using only_changes_existing [OF frame [of ?u "fst (run ?u)" "snd (run ?u)"] Suc.prems(1)] Suc by simp
qed simp

end

text \<open>A download that never withdraws what was there before it failed.\<close>

locale atomic_fetcher = fetcher +
  assumes aborts: "run t = (Inl e, t') \<Longrightarrow> dict_get t' dst = dict_get t dst"
begin

lemma published_stays:
  assumes "dict_get t dst = Some (File c)" and "good c"
  shows "\<exists>c'. dict_get (attempts k t) dst = Some (File c') \<and> good c'"
proof (induction k)
  case (Suc k)
  let ?u = "attempts k t"
  obtain r t' where r: "run ?u = (r, t')" by fastforce
  have "\<exists>c'. dict_get t' dst = Some (File c') \<and> good c'"
  proof (cases r)
    case (Inl e)
    then show ?thesis using aborts [of ?u e t'] Suc r by auto
  next
    case (Inr v)
    then show ?thesis using delivers [of ?u v t'] r by blast
  qed
  then show ?case using r by simp
qed (use assms in auto)

end

section \<open>Temporary files\<close>

lemma unused_get: "unused p t \<Longrightarrow> prefix p q \<Longrightarrow> dict_get t q = None"
  by (auto simp: unused_def list_all_iff map_of_eq_None_iff)

lemma temp_name_unused: "temp_name env d t = Some tmp \<Longrightarrow> unused tmp t \<and> (\<exists>n. tmp = d @ [n])"
  by (auto simp: temp_name_def find_Some_iff)

lemma mkstemp_spec:
  assumes "mkstemp env d t = (r, t')"
  shows "(\<exists>e. r = Inl e \<and> t' = t) \<or>
    (\<exists>tmp. r = Inr tmp \<and> unused tmp t \<and> t' = dict_set tmp (File []) t)"
  using assms by (auto simp: mkstemp_def dest: temp_name_unused split: option.splits if_splits)

lemma mkdtemp_spec:
  assumes "mkdtemp env d t = (r, t')"
  shows "(\<exists>e. r = Inl e \<and> t' = t) \<or>
    (\<exists>n. r = Inr (d @ [n]) \<and> unused (d @ [n]) t \<and> t' = dict_set (d @ [n]) Dir t)"
  using assms by (auto simp: mkdtemp_def dest: temp_name_unused split: option.splits)

lemma append_file_spec: "append_file env p c t = Some t' \<longleftrightarrow>
    (\<exists>old. dict_get t p = Some (File old) \<and> d_room env p (old @ c) \<and> t' = dict_set p (File (old @ c)) t)"
  by (auto simp: append_file_def split: option.splits node.splits)

text \<open>The loop changes the open file only and, when it ends, the file holds what was read.\<close>

lemma write_chunks_spec:
  assumes "write_chunks env p got cs stop t = (r, t')" and "dict_get t p = Some (File got)"
  shows "(\<forall>q. q \<noteq> p \<longrightarrow> dict_get t' q = dict_get t q) \<and> (\<exists>c. dict_get t' p = Some (File c))
    \<and> (\<forall>g. r = Inr g \<longrightarrow> dict_get t' p = Some (File g) \<and> read_chunks_into got cs stop = Inr g)"
  using assms
proof (induction env p got cs stop t rule: write_chunks.induct)
  case (2 env p got c cs stop t)
  show ?case
  proof (cases "c = [] \<or> append_file env p c t = None")
    case False
    then obtain t1 where t1: "append_file env p c t = Some t1" by auto
    have "write_chunks env p (got @ c) cs stop t1 = (r, t')" using 2(2) False t1 by simp
    moreover have "dict_get t1 p = Some (File (got @ c))" "\<forall>q. q \<noteq> p \<longrightarrow> dict_get t1 q = dict_get t q"
      using t1 2(3) by (auto simp: append_file_spec)
    ultimately show ?thesis using 2(1) [OF _ t1] False by simp
  qed (use 2 in \<open>auto split: if_splits\<close>)
qed (auto split: option.splits)

lemma mkdir_only_changes:
  assumes "mkdir_parents (butlast p) t = Some t'"
  shows "only_changes (insert p S) t t'"
proof -
  have "strict_prefix q p" if "q \<noteq> []" "prefix q (butlast p)" for q
    using that by (cases p rule: rev_cases) (auto simp: strict_prefix_def)
  then show ?thesis by (auto simp: only_changes_def mkdir_parents_get [OF assms])
qed

text \<open>
  A body for \<open>through_temp\<close>: it works in the temporary file and either raises with that file
  still a file, or moves it to its destination with a content that satisfies \<open>P\<close> of the tree
  beside it.
\<close>

definition staged_body :: "(path \<Rightarrow> 'a fetch) \<Rightarrow> path \<Rightarrow> (tree \<Rightarrow> string \<Rightarrow> bool) \<Rightarrow> bool" where
  "staged_body body out P \<longleftrightarrow> (\<forall>tmp t r t'. dict_get t tmp = Some (File []) \<longrightarrow> body tmp t = (r, t') \<longrightarrow>
     (\<exists>e c. r = Inl e \<and> dict_get t' tmp = Some (File c) \<and> (\<forall>q. q \<noteq> tmp \<longrightarrow> dict_get t' q = dict_get t q))
     \<or> (\<exists>v c. r = Inr v \<and> P (dict_pop tmp t) c
          \<and> (\<forall>q. dict_get t' q = (if q = out then Some (File c) else if q = tmp then None else dict_get t q))))"

lemma through_temp_spec:
  assumes "through_temp env d body t = (r, t')" and "staged_body body out P"
  obtains (failed) e where "r = Inl e" "\<And>q. dict_get t' q = dict_get t q"
  | (published) v c tmp where "r = Inr v" "unused tmp t" "P (dict_pop tmp (dict_set tmp (File []) t)) c"
      "\<And>q. dict_get t' q = (if q = out then Some (File c) else dict_get t q)"
proof -
  obtain m t1 where m: "mkstemp env d t = (m, t1)" by fastforce
  show thesis
  proof (cases m)
    case (Inl e)
    then show thesis using assms(1) m mkstemp_spec [OF m] by (intro failed) (auto simp: through_temp_def seq_def)
  next
    case (Inr tmp)
    with mkstemp_spec [OF m] have tmp: "unused tmp t" "t1 = dict_set tmp (File []) t" by auto
    then have none: "dict_get t tmp = None" using unused_get by blast
    obtain b t2 where b: "body tmp t1 = (b, t2)" by fastforce
    have run: "(r, t') = on_error (body tmp) (os_step (unlink_missing_ok tmp)) t1"
      using assms(1) m Inr by (simp add: through_temp_def seq_def)
    have "dict_get t1 tmp = Some (File [])" using tmp by simp
    then consider (err) e c where "b = Inl e" "dict_get t2 tmp = Some (File c)" "\<And>q. q \<noteq> tmp \<Longrightarrow> dict_get t2 q = dict_get t1 q"
      | (moved) v c where "b = Inr v" "P (dict_pop tmp t1) c"
        "\<And>q. dict_get t2 q = (if q = out then Some (File c) else if q = tmp then None else dict_get t1 q)"
      using assms(2) b unfolding staged_body_def by blast
    then show thesis
    proof cases
      case err
      have "t' = dict_pop tmp t2" "r = Inl e"
        using run b err by (auto simp: on_error_def os_step_def attempt_def unlink_missing_ok_def)
      then show thesis using err none tmp by (intro failed [of e]) auto
    next
      case moved
      have "t' = t2" "r = Inr v" using run b moved by (auto simp: on_error_def)
      then show thesis using moved none tmp by (intro published [of v tmp c]) auto
    qed
  qed
qed

lemma mkdir_butlast_get: "mkdir_parents (butlast p) t = Some t' \<Longrightarrow> dict_get t' p = dict_get t p"
  by (cases p rule: rev_cases) (auto simp: mkdir_parents_get dest: prefix_length_le)

section \<open>Kernels\<close>

text \<open>What the network sends for a URL, and that the checksum file beside it names its digest.\<close>

definition served :: "denv \<Rightarrow> string \<Rightarrow> string \<Rightarrow> bool" where
  "served env url c = (case d_net env url of
     Refused _ \<Rightarrow> False | Opened _ cs stop \<Rightarrow> read_chunks_into [] cs stop = Inr c)"

definition attested :: "denv \<Rightarrow> string \<Rightarrow> string \<Rightarrow> bool" where
  "attested env url c = (case fetch_bytes env (url @ ''.sha256'') of
     Inl _ \<Rightarrow> False
   | Inr b \<Rightarrow> (case sidecar_digest env b of None \<Rightarrow> False | Some w \<Rightarrow> lower (d_sha256 env c) = lower w))"

lemma stream_to_handle_spec:
  assumes "stream_to_handle env url p t = (r, t')" and "dict_get t p = Some (File [])"
  shows "(\<forall>q. q \<noteq> p \<longrightarrow> dict_get t' q = dict_get t q) \<and> (\<exists>c. dict_get t' p = Some (File c))
    \<and> (\<forall>d. r = Inr d \<longrightarrow> (\<exists>c. dict_get t' p = Some (File c) \<and> d = d_sha256 env c \<and> served env url c))"
proof (cases "d_net env url")
  case (Refused e)
  then show ?thesis using assms by (auto simp: stream_to_handle_def)
next
  case (Opened raw cs stop)
  obtain q u where w: "write_chunks env p [] cs stop t = (q, u)" by fastforce
  show ?thesis
    using assms write_chunks_spec [OF w assms(2)] Opened w
    by (cases q) (auto simp: stream_to_handle_def served_def split: if_splits)
qed

lemma verify_sidecar_spec:
  assumes "verify_sidecar env (d_sha256 env c) b t = (r, t')" and "fetch_bytes env (url @ ''.sha256'') = Inr b"
  shows "t' = t \<and> (\<forall>u. r = Inr u \<longrightarrow> attested env url c)"
  using assms by (auto simp: verify_sidecar_def attested_def statement_iffs split: option.splits if_splits)

lemma replace_file_spec: "replace_file src dst t = Some t' \<longleftrightarrow>
    (\<exists>c. dict_get t src = Some (File c) \<and> dict_get t dst \<noteq> Some Dir \<and> t' = dict_set dst (File c) (dict_pop src t))"
  by (auto simp: replace_file_def split: option.splits node.splits)

lemma kernel_body_spec:
  assumes "seq (stream_to_handle env url tmp) (\<lambda>actual.
      seq (give (fetch_bytes env (url @ ''.sha256''))) (\<lambda>sidecar.
      seq (verify_sidecar env actual sidecar) (\<lambda>_. os_step (replace_file tmp out)))) t = (r, t')"
    and "dict_get t tmp = Some (File [])"
  shows "(\<exists>e c. r = Inl e \<and> dict_get t' tmp = Some (File c) \<and> (\<forall>q. q \<noteq> tmp \<longrightarrow> dict_get t' q = dict_get t q))
    \<or> (\<exists>c. r = Inr () \<and> served env url c \<and> attested env url c
         \<and> (\<forall>q. dict_get t' q = (if q = out then Some (File c) else if q = tmp then None else dict_get t q)))"
  using assms(1)
proof (cases "stream_to_handle env url tmp t")
  case (Pair d t1)
  note s = stream_to_handle_spec [OF Pair assms(2)]
  show ?thesis
  proof (cases d)
    case (Inl e)
    then show ?thesis using assms(1) Pair s by (auto simp: seq_def)
  next
    case (Inr actual)
    then obtain c where c: "dict_get t1 tmp = Some (File c)" "actual = d_sha256 env c" "served env url c"
      using s by blast
    from assms(1) Pair Inr consider (failed) e where "r = Inl e" "t' = t1"
      | (published) "r = Inr ()" "attested env url c" "t' = dict_set out (File c) (dict_pop tmp t1)"
      by (auto simp: c statement_iffs os_step_def replace_file_spec dest: verify_sidecar_spec)
    then show ?thesis using s c by cases auto
  qed
qed

lemma kernel_fetch_spec:
  assumes "kernel_fetch_prebuilt env version fp out t = (r, t')"
  obtains (mkdir) e where "r = Inl e" "t' = t"
  | (failed) e t1 where "r = Inl e" "mkdir_parents (butlast out) t = Some t1" "\<And>q. dict_get t' q = dict_get t1 q"
  | (published) c t1 where "r = Inr out" "mkdir_parents (butlast out) t = Some t1"
      "served env (kernel_release_url version fp) c" "attested env (kernel_release_url version fp) c"
      "\<And>q. dict_get t' q = (if q = out then Some (File c) else dict_get t1 q)"
proof (cases "mkdir_parents (butlast out) t")
  case None
  then show ?thesis using assms mkdir
    by (auto simp: kernel_fetch_prebuilt_def Let_def os_step_def statement_iffs)
next
  case (Some t1)
  let ?url = "kernel_release_url version fp"
  let ?body = "\<lambda>tmp. seq (stream_to_handle env ?url tmp) (\<lambda>actual.
      seq (give (fetch_bytes env (?url @ ''.sha256''))) (\<lambda>sidecar.
      seq (verify_sidecar env actual sidecar) (\<lambda>_. os_step (replace_file tmp out))))"
  obtain b t2 where b: "through_temp env (butlast out) ?body t1 = (b, t2)" by fastforce
  have t': "t' = t2" "r = (case b of Inl e \<Rightarrow> Inl e | Inr _ \<Rightarrow> Inr out)"
    using assms Some b
    by (auto simp: kernel_fetch_prebuilt_def Let_def os_step_def attempt_def seq_def ok_def split: sum.splits)
  have "staged_body ?body out (\<lambda>_ c. served env ?url c \<and> attested env ?url c)"
    unfolding staged_body_def by (intro allI impI, drule kernel_body_spec, assumption) blast
  from b this show ?thesis
  proof (rule through_temp_spec)
    fix e assume "b = Inl e" "\<And>q. dict_get t2 q = dict_get t1 q"
    then show ?thesis using t' Some by (intro failed [of e t1]) simp_all
  next
    fix v c assume "b = Inr v" "served env ?url c \<and> attested env ?url c"
      "\<And>q. dict_get t2 q = (if q = out then Some (File c) else dict_get t1 q)"
    then show ?thesis using t' Some by (intro published [of t1 c]) simp_all
  qed
qed

interpretation kernel: atomic_fetcher "kernel_fetch_prebuilt env version fp out" out "{}"
    "\<lambda>c. served env (kernel_release_url version fp) c \<and> attested env (kernel_release_url version fp) c"
proof
  fix t r t' assume "kernel_fetch_prebuilt env version fp out t = (r, t')"
  then show "only_changes (insert out {}) t t'"
  proof (rule kernel_fetch_spec)
    fix c t1 assume "mkdir_parents (butlast out) t = Some t1"
      "\<And>q. dict_get t' q = (if q = out then Some (File c) else dict_get t1 q)"
    then show ?thesis by (intro only_changes_frame [OF mkdir_only_changes]) auto
  qed (auto intro: only_changes_frame [OF mkdir_only_changes])
next
  fix t v t' assume "kernel_fetch_prebuilt env version fp out t = (Inr v, t')"
  then show "\<exists>c. dict_get t' out = Some (File c)
      \<and> served env (kernel_release_url version fp) c \<and> attested env (kernel_release_url version fp) c"
    by (rule kernel_fetch_spec) auto
next
  fix t e t' assume "kernel_fetch_prebuilt env version fp out t = (Inl e, t')"
  then show same: "dict_get t' out = dict_get t out"
    by (rule kernel_fetch_spec) (auto simp: mkdir_butlast_get)
  then show "dict_get t' out = dict_get t out \<or> dict_get t' out = None" ..
qed

section \<open>Root file systems\<close>

definition complete :: "denv \<Rightarrow> string \<Rightarrow> string \<Rightarrow> bool" where
  "complete env url z = (case d_net env url of
     Refused _ \<Rightarrow> False
   | Opened raw _ _ \<Rightarrow> (case expected_bytes raw of None \<Rightarrow> True | Some n \<Rightarrow> int (length z) = n))"

definition inflates :: "denv \<Rightarrow> string \<Rightarrow> string \<Rightarrow> bool" where
  "inflates env z c \<longleftrightarrow> read_chunks_into [] (fst (d_zstd env z)) (if snd (d_zstd env z) then Some OtherErr else None) = Inr c
     \<and> int (length c) \<le> MAX_DECOMPRESSED_BYTES"

lemma open_for_writing_spec: "open_for_writing env p t = Some t' \<longleftrightarrow>
    d_room env p [] \<and> dict_get t p \<noteq> Some Dir \<and> t' = dict_set p (File []) t"
  by (auto simp: open_for_writing_def write_text_def)

lemma receive_spec:
  assumes "receive env p raw cs stop t = (r, t')" and "dict_get t p = Some (File [])"
    and "d_net env url = Opened raw cs stop"
  shows "(\<forall>q. q \<noteq> p \<longrightarrow> dict_get t' q = dict_get t q) \<and> (\<exists>c. dict_get t' p = Some (File c))
    \<and> (\<forall>z. r = Inr z \<longrightarrow> dict_get t' p = Some (File z) \<and> served env url z \<and> complete env url z)"
proof -
  obtain q u where w: "write_chunks env p [] cs stop t = (q, u)" by fastforce
  show ?thesis
    using assms write_chunks_spec [OF w assms(2)] w
    by (cases q) (auto simp: receive_def served_def complete_def split: option.splits if_splits)
qed

lemma download_to_file_spec:
  assumes "download_to_file env url p t = (r, t')"
  shows "(\<forall>q. q \<noteq> p \<longrightarrow> dict_get t' q = dict_get t q)
    \<and> (\<forall>d. r = Inr d \<longrightarrow> (\<exists>z. dict_get t' p = Some (File z) \<and> d = d_sha256 env z \<and> served env url z \<and> complete env url z))"
proof (cases "d_net env url")
  case (Refused e)
  then show ?thesis using assms by (auto simp: download_to_file_def)
next
  case (Opened raw cs stop)
  show ?thesis
  proof (cases "open_for_writing env p t")
    case None
    then show ?thesis using assms Opened by (auto simp: download_to_file_def os_step_def statement_iffs)
  next
    case (Some t1)
    then have t1: "t1 = dict_set p (File []) t" by (simp add: open_for_writing_spec)
    then have "dict_get t1 p = Some (File [])" by simp
    moreover obtain q u where w: "receive env p raw cs stop t1 = (q, u)" by fastforce
    ultimately show ?thesis
      using assms receive_spec [OF w _ Opened] Opened w Some t1
      by (cases q) (auto simp: download_to_file_def os_step_def seq_def attempt_def ok_def)
  qed
qed

lemma decompress_loop_spec:
  assumes "decompress_loop env p n cs broken t = (r, t')" and "dict_get t p = Some (File got)"
    and "n = int (length got)" and "n \<le> MAX_DECOMPRESSED_BYTES"
  shows "(\<forall>q. q \<noteq> p \<longrightarrow> dict_get t' q = dict_get t q)
    \<and> (\<forall>u. r = Inr u \<longrightarrow> (\<exists>c. dict_get t' p = Some (File c)
         \<and> read_chunks_into got cs (if broken then Some OtherErr else None) = Inr c
         \<and> int (length c) \<le> MAX_DECOMPRESSED_BYTES))"
  using assms
proof (induction env p n cs broken t arbitrary: got rule: decompress_loop.induct)
  case (2 env p n c cs broken t)
  show ?case
  proof (cases "c = [] \<or> n + int (length c) > MAX_DECOMPRESSED_BYTES \<or> append_file env p c t = None")
    case False
    then obtain t1 where t1: "append_file env p c t = Some t1" by auto
    then have run: "decompress_loop env p (n + int (length c)) cs broken t1 = (r, t')"
      using 2(2) False by (simp add: Let_def)
    have "dict_get t1 p = Some (File (got @ c))" "\<forall>q. q \<noteq> p \<longrightarrow> dict_get t1 q = dict_get t q"
      using t1 2(3) by (auto simp: append_file_spec)
    then show ?thesis using 2(1) [OF _ refl _ t1 run, of "got @ c"] False 2(4) by simp
  qed (use 2 in \<open>auto simp: Let_def split: if_splits\<close>)
qed (auto split: if_splits)

lemma decompress_to_file_spec:
  assumes "decompress_to_file env src p t = (r, t')" and "dict_get t src = Some (File z)"
  shows "(\<forall>q. q \<noteq> p \<longrightarrow> dict_get t' q = dict_get t q)
    \<and> (\<forall>u. r = Inr u \<longrightarrow> (\<exists>c. dict_get t' p = Some (File c) \<and> inflates env z c))"
proof (cases "open_for_writing env p t")
  case None
  then show ?thesis using assms by (auto simp: decompress_to_file_def read_bytes_def os_step_def statement_iffs)
next
  case (Some t1)
  then have t1: "t1 = dict_set p (File []) t" by (simp add: open_for_writing_spec)
  then have "dict_get t1 p = Some (File [])" by simp
  moreover have "decompress_loop env p 0 (fst (d_zstd env z)) (snd (d_zstd env z)) t1 = (r, t')"
    using assms Some by (simp add: decompress_to_file_def read_bytes_def os_step_def seq_def attempt_def)
  ultimately show ?thesis
    using decompress_loop_spec [of env p 0 _ _ t1 r t' "[]"] t1 by (simp add: inflates_def MAX_DECOMPRESSED_BYTES_def)
qed

text \<open>Paths outside the staging directory: only the marker, and on success the image, change.\<close>

definition rootfs_image :: "denv \<Rightarrow> string \<Rightarrow> string \<Rightarrow> bool" where
  "rootfs_image env url c \<longleftrightarrow> (\<exists>z. served env url z \<and> complete env url z \<and> attested env url z \<and> inflates env z c)"

definition outside :: "path \<Rightarrow> tree \<Rightarrow> tree \<Rightarrow> bool" where
  "outside d t t' \<longleftrightarrow> (\<forall>q. \<not> prefix d q \<longrightarrow> dict_get t' q = dict_get t q) \<and> dict_get t' d = Some Dir"

lemma outside_file: "outside d t t' \<Longrightarrow> (\<And>q. q \<noteq> d @ [x] \<Longrightarrow> dict_get t'' q = dict_get t' q) \<Longrightarrow> outside d t t''"
  unfolding outside_def by (metis append_self_conv not_Cons_self2 prefixI)

lemma fetch_image_staged:
  assumes "fetch_image env url v out d t = (r, t')" and "outside d t0 t"
  obtains (early) e where "r = Inl e" "outside d t0 t'"
  | (late) c t1 where "outside d t0 t1" "dict_get t1 (d @ [''image.img'']) = Some (File c)" "rootfs_image env url c"
      "seq (os_step (write_marker env (marker_of out) (str_of_int v @ NL))) (\<lambda>_.
         os_step (replace_file (d @ [''image.img'']) out)) t1 = (r, t')"
proof -
  let ?z = "d @ [''image.img.zst'']" and ?i = "d @ [''image.img'']"
  obtain a t1 where a: "download_to_file env url ?z t = (a, t1)" by fastforce
  note down = download_to_file_spec [OF a]
  have o1: "outside d t0 t1" using outside_file [OF assms(2)] down by blast
  show thesis
  proof (cases "\<exists>h b. a = Inr h \<and> rootfs_fetch_bytes env (url @ ''.sha256'') = Inr b")
    case False
    then have "t' = t1 \<and> (\<exists>e. r = Inl e)"
      using assms(1) a by (cases a; cases "rootfs_fetch_bytes env (url @ ''.sha256'')")
        (auto simp: fetch_image_def Let_def seq_def give_def)
    then show thesis using o1 early by blast
  next
    case True
    then obtain h b where h: "a = Inr h" and b: "fetch_bytes env (url @ ''.sha256'') = Inr b"
      by (auto simp: rootfs_fetch_bytes_def)
    then obtain z where z: "dict_get t1 ?z = Some (File z)" "h = d_sha256 env z" "served env url z" "complete env url z"
      using down by blast
    obtain w t2 where w: "verify_sidecar env h b t1 = (w, t2)" by fastforce
    have t2: "t2 = t1" "\<And>u. w = Inr u \<Longrightarrow> attested env url z"
      using verify_sidecar_spec [of env z b t1 w t2 url] w b z(2) by auto
    obtain x t3 where x: "decompress_to_file env ?z ?i t1 = (x, t3)" by fastforce
    note inf = decompress_to_file_spec [OF x z(1)]
    have o3: "outside d t0 t3" using outside_file [OF o1] inf by blast
    have run: "(r, t') = (case w of Inl e \<Rightarrow> (Inl e, t1) | Inr _ \<Rightarrow> (case x of Inl e \<Rightarrow> (Inl e, t3) | Inr _ \<Rightarrow>
        seq (os_step (write_marker env (marker_of out) (str_of_int v @ NL))) (\<lambda>_. os_step (replace_file ?i out)) t3))"
      using assms(1) a h b w t2 x
      by (auto simp: fetch_image_def Let_def seq_def give_def rootfs_fetch_bytes_def split: sum.splits)
    show thesis
    proof (cases "is_ok w \<and> is_ok x")
      case True
      then obtain u u' where wx: "w = Inr u" "x = Inr u'" by (auto simp: is_ok_iff)
      then obtain c where "dict_get t3 ?i = Some (File c)" "inflates env z c" using inf by blast
      then show thesis
        using run wx z t2 o3 by (intro late [of t3 c]) (auto simp: rootfs_image_def)
    next
      case False
      then have "(t' = t1 \<or> t' = t3) \<and> (\<exists>e. r = Inl e)" using run by (cases w; cases x) auto
      then show thesis using o1 o3 early by blast
    qed
  qed
qed

lemma marker_late:
  assumes "seq (os_step (write_marker env m ver)) (\<lambda>_. os_step (replace_file i out)) t = (r, t')"
    and "dict_get t i = Some (File c)" and "m \<noteq> i"
  obtains (no_marker) e where "r = Inl e" "t' = t"
  | (marked) e where "r = Inl e" "dict_get t m \<noteq> Some Dir" "t' = dict_set m (File ver) t"
  | (published) "r = Inr ()" "dict_get t m \<noteq> Some Dir" "dict_get (dict_set m (File ver) t) out \<noteq> Some Dir"
      "t' = dict_set out (File c) (dict_pop i (dict_set m (File ver) t))"
  using assms
  by (auto simp: os_step_def statement_iffs write_marker_def write_text_def replace_file_def split: if_splits)

lemma marker_not_out: "marker_of out \<noteq> out"
proof (cases out rule: rev_cases)
  case (snoc p n)
  have "n @ ROOTFS_VERSION_MARKER_SUFFIX \<noteq> n" by (simp add: ROOTFS_VERSION_MARKER_SUFFIX_def)
  then show ?thesis using snoc by (simp add: marker_of_def)
qed (simp add: marker_of_def)

lemma staging_siblings:
  assumes "d = butlast out @ [n]"
  shows "prefix d out \<Longrightarrow> d = out" and "prefix d (marker_of out) \<Longrightarrow> d = marker_of out"
  using assms by (cases out rule: rev_cases; force simp: marker_of_def prefix_def)+

lemma rootfs_fetch_spec:
  assumes "rootfs_fetch_prebuilt env v fp out t = (r, t')"
  obtains (mkdir) e where "r = Inl e" "t' = t"
  | (failed) e t1 where "r = Inl e" "mkdir_parents (butlast out) t = Some t1"
      "\<And>q. q \<noteq> marker_of out \<Longrightarrow> dict_get t' q = dict_get t1 q"
  | (published) c t1 where "r = Inr out" "mkdir_parents (butlast out) t = Some t1"
      "rootfs_image env (rootfs_release_url (str_of_int v) fp) c"
      "\<And>q. dict_get t' q = (if q = out then Some (File c)
         else if q = marker_of out then Some (File (str_of_int v @ NL)) else dict_get t1 q)"
proof (cases "mkdir_parents (butlast out) t")
  case None
  then show ?thesis using assms mkdir
    by (auto simp: rootfs_fetch_prebuilt_def Let_def os_step_def statement_iffs)
next
  case (Some t1)
  let ?url = "rootfs_release_url (str_of_int v) fp" and ?ver = "str_of_int v @ NL" and ?m = "marker_of out"
  obtain s t2 where s: "mkdtemp env (butlast out) t1 = (s, t2)" by fastforce
  from mkdtemp_spec [OF s] consider e where "s = Inl e" "t2 = t1"
    | n where "s = Inr (butlast out @ [n])" "unused (butlast out @ [n]) t1" "t2 = dict_set (butlast out @ [n]) Dir t1"
    by blast
  then show ?thesis
  proof cases
    case (1 e)
    then show ?thesis using assms Some s
      by (intro failed [of e t1])
        (auto simp: rootfs_fetch_prebuilt_def Let_def os_step_def seq_def attempt_def)
  next
    case (2 n)
    define d where d: "d = butlast out @ [n]"
    obtain b t3 where b: "fetch_image env ?url v out d t2 = (b, t3)" by fastforce
    have run: "r = (case b of Inl e \<Rightarrow> Inl e | Inr _ \<Rightarrow> Inr out)" "t' = rmtree d t3"
      using assms Some s 2 b
      by (auto simp: rootfs_fetch_prebuilt_def Let_def os_step_def seq_def attempt_def finally_do_def ok_def d
          split: sum.splits)
    have out: "outside d t1 t2" using 2 by (auto simp: outside_def d)
    have none: "prefix d q \<Longrightarrow> dict_get t1 q = None" for q using 2 unused_get by (simp add: d)
    have get: "dict_get t' q = (if prefix d q then None else dict_get t3 q)" for q
      using run rmtree_get by simp
    from b out show ?thesis
    proof (cases rule: fetch_image_staged)
      case (early e)
      then show ?thesis using run Some none get by (intro failed [of e t1]) (auto simp: outside_def)
    next
      case (late c u)
      note sib = staging_siblings [OF d]
      have mi: "?m \<noteq> d @ [''image.img'']"
        using sib(2) by (metis append_self_conv not_Cons_self2 prefixI)
      have dd: "dict_get u d = Some Dir" and same: "\<And>q. \<not> prefix d q \<Longrightarrow> dict_get u q = dict_get t1 q"
        using late(1) by (auto simp: outside_def)
      from late(4) late(2) mi show ?thesis
      proof (cases rule: marker_late)
        case (no_marker e)
        then show ?thesis using run Some none get same by (intro failed [of e t1]) auto
      next
        case (marked e)
        then show ?thesis using run Some none get same by (intro failed [of e t1]) auto
      next
        case published
        have "\<not> prefix d ?m" using sib(2) published(2) dd by auto
        moreover have "\<not> prefix d out" using sib(1) published(3) dd by (auto simp: marker_not_out [symmetric])
        ultimately have "dict_get t' q = (if q = out then Some (File c)
            else if q = ?m then Some (File ?ver) else dict_get t1 q)" for q
          using published(4) none get same by auto
        then show ?thesis using run Some published(1) late(3) by (intro that(3) [of t1 c]) auto
      qed
    qed
  qed
qed

interpretation rootfs: atomic_fetcher "rootfs_fetch_prebuilt env v fp out" out "{marker_of out}"
    "rootfs_image env (rootfs_release_url (str_of_int v) fp)"
proof
  fix t r t' assume "rootfs_fetch_prebuilt env v fp out t = (r, t')"
  then show "only_changes (insert out {marker_of out}) t t'"
  proof (rule rootfs_fetch_spec)
    fix e t1 assume "mkdir_parents (butlast out) t = Some t1"
      "\<And>q. q \<noteq> marker_of out \<Longrightarrow> dict_get t' q = dict_get t1 q"
    then show ?thesis by (intro only_changes_frame [OF mkdir_only_changes]) auto
  next
    fix c t1 assume "mkdir_parents (butlast out) t = Some t1"
      "\<And>q. dict_get t' q = (if q = out then Some (File c)
         else if q = marker_of out then Some (File (str_of_int v @ NL)) else dict_get t1 q)"
    then show ?thesis by (intro only_changes_frame [OF mkdir_only_changes]) auto
  qed auto
next
  fix t u t' assume "rootfs_fetch_prebuilt env v fp out t = (Inr u, t')"
  then show "\<exists>c. dict_get t' out = Some (File c) \<and> rootfs_image env (rootfs_release_url (str_of_int v) fp) c"
    by (rule rootfs_fetch_spec) auto
next
  fix t e t' assume "rootfs_fetch_prebuilt env v fp out t = (Inl e, t')"
  then show same: "dict_get t' out = dict_get t out"
    by (rule rootfs_fetch_spec) (use marker_not_out [of out] mkdir_butlast_get in auto)
  then show "dict_get t' out = dict_get t out \<or> dict_get t' out = None" ..
qed

section \<open>What the builder can rely on\<close>

text \<open>A network that serves \<open>ABC\<close> and a checksum file for it; the digest of a text is the text.\<close>

definition demo_env :: denv where
  "demo_env = \<lparr>d_net = (\<lambda>u. if endswith u ''.sha256'' then Opened None [''abc  asset'', NL] None
       else Opened (Some ''3'') [''AB'', ''C''] None),
     d_sha256 = (\<lambda>s. s), d_decode = Some, d_zstd = (\<lambda>s. ([s, s], False)),
     d_names = (\<lambda>_. [''t1'', ''t2'']), d_room = (\<lambda>_ _. True)\<rparr>"

text \<open>
  Fetching a prebuilt kernel is all or nothing: on success the destination holds exactly what the
  server sent, and the checksum file beside it names its digest; on any failure the destination is as
  it was. Nothing else changes but missing parent directories; no temporary file is left.
\<close>

theorem kernel_fetch_atomic:
  assumes "kernel_fetch_prebuilt env version fp out t = (r, t')"
  shows "only_changes {out} t t' \<and>
    (case r of
       Inl e \<Rightarrow> dict_get t' out = dict_get t out
     | Inr p \<Rightarrow> p = out \<and> (\<exists>c. dict_get t' out = Some (File c)
         \<and> served env (kernel_release_url version fp) c \<and> attested env (kernel_release_url version fp) c))"
proof (cases r)
  case (Inl e)
  then show ?thesis using kernel.frame [OF assms] kernel.aborts assms by simp
next
  case (Inr p)
  have "p = out" using assms unfolding Inr by (rule kernel_fetch_spec) auto
  then show ?thesis using Inr kernel.frame [OF assms] kernel.delivers assms by auto
qed

theorem kernel_fetch_atomic_witness:
  "\<exists>t'. kernel_fetch_prebuilt demo_env ''6.12'' ''f00'' [''vm'', ''bzImage''] [] = (Inr [''vm'', ''bzImage''], t')
     \<and> dict_get t' [''vm'', ''bzImage''] = Some (File ''ABC'') \<and> only_changes {[''vm'', ''bzImage'']} [] t'"
proof -
  have run: "kernel_fetch_prebuilt demo_env ''6.12'' ''f00'' [''vm'', ''bzImage''] []
      = (Inr [''vm'', ''bzImage''], [([''vm''], Dir), ([''vm'', ''bzImage''], File ''ABC'')])" by code_simp
  from kernel_fetch_atomic [OF this] run show ?thesis by simp
qed



text \<open>
  C35: fetching a prebuilt root file system never leaves an image without its version marker: on success
  the image is the decompressed form of a complete, checksummed download, no larger than the
  ceiling, and the marker beside it names the Android version; on failure the image is as it was,
  and only the marker may have been written. The staging directory is gone either way.
\<close>

theorem rootfs_fetch_marked:
  assumes "rootfs_fetch_prebuilt env v fp out t = (r, t')"
  shows "only_changes {out, marker_of out} t t' \<and>
    (case r of
       Inl e \<Rightarrow> dict_get t' out = dict_get t out
     | Inr p \<Rightarrow> p = out \<and> dict_get t' (marker_of out) = Some (File (str_of_int v @ NL))
         \<and> (\<exists>z c. dict_get t' out = Some (File c) \<and> served env (rootfs_release_url (str_of_int v) fp) z
             \<and> complete env (rootfs_release_url (str_of_int v) fp) z \<and> attested env (rootfs_release_url (str_of_int v) fp) z
             \<and> inflates env z c))"
proof (cases r)
  case (Inl e)
  then show ?thesis using rootfs.frame [OF assms] rootfs.aborts assms by simp
next
  case (Inr p)
  have "p = out \<and> dict_get t' (marker_of out) = Some (File (str_of_int v @ NL))"
    using assms unfolding Inr by (rule rootfs_fetch_spec) (auto simp: marker_not_out)
  then show ?thesis using Inr rootfs.frame [OF assms] rootfs.delivers [of env v fp out t p t'] assms
    by (auto simp: rootfs_image_def)
qed

theorem rootfs_fetch_marked_witness:
  "\<exists>t'. rootfs_fetch_prebuilt demo_env 14 ''f00'' [''vm'', ''rootfs''] [] = (Inr [''vm'', ''rootfs''], t')
     \<and> dict_get t' [''vm'', ''rootfs''] = Some (File ''ABCABC'')
     \<and> dict_get t' [''vm'', ''rootfs.android-version''] = Some (File (''14'' @ NL))"
proof -
  have run: "rootfs_fetch_prebuilt demo_env 14 ''f00'' [''vm'', ''rootfs''] [] = (Inr [''vm'', ''rootfs''],
      [([''vm''], Dir), ([''vm'', ''rootfs.android-version''], File (''14'' @ NL)), ([''vm'', ''rootfs''], File ''ABCABC'')])"
    by code_simp
  from rootfs_fetch_marked [OF this] run show ?thesis by simp
qed

text \<open>
  The text the root file system fingerprint hashes is unambiguous: two sets of inputs give the same
  text only when the Android version, the Docker version and the hash of the init script agree.
\<close>

theorem fingerprint_preimage_unambiguous:
  assumes "fingerprint_preimage a d g = fingerprint_preimage a' d' g'"
    and "CHR 0x0A \<notin> set d" and "CHR 0x0A \<notin> set d'"
  shows "a = a' \<and> d = d' \<and> g = g'"
proof -
  have cut: "x = y \<and> u = w" if "x @ CHR 0x0A # u = y @ CHR 0x0A # w" "CHR 0x0A \<notin> set x" "CHR 0x0A \<notin> set y" for x y u w :: string
    using arg_cong [OF that(1), of "str_partition (CHR 0x0A)"] that(2,3) by (simp only: str_partition_append prod.inject simp_thms)
  have "str_of_int a @ CHR 0x0A # ''docker='' @ d @ NL @ ''guest-init='' @ g @ NL
      = str_of_int a' @ CHR 0x0A # ''docker='' @ d' @ NL @ ''guest-init='' @ g' @ NL"
    using assms(1) by (simp add: fingerprint_preimage_def NL_def)
  note first = cut [OF this str_of_int_no_newline str_of_int_no_newline]
  then have "a = a'" by simp
  have "d @ CHR 0x0A # ''guest-init='' @ g @ NL = d' @ CHR 0x0A # ''guest-init='' @ g' @ NL"
    using first by (simp add: NL_def)
  from cut [OF this assms(2,3)] \<open>a = a'\<close> show ?thesis by simp
qed

text \<open>
  A malformed \<open>Content-Length\<close> header escapes the kernel download as a \<open>ValueError\<close>, which is not the
  \<open>KernelFetchError\<close> its caller falls back on.
\<close>

lemma kernel_bad_length_escapes:
  assumes "d_net env (kernel_release_url version fp) = Opened (Some raw) cs stop"
    and "raw \<noteq> []" and "\<not> float_ok raw"
    and "mkdir_parents (butlast out) t = Some t1" and "temp_name env (butlast out) t1 = Some tmp" and "d_room env tmp []"
  shows "fst (kernel_fetch_prebuilt env version fp out t) = Inl (Raised ValueErr)"
  using assms
  by (simp add: kernel_fetch_prebuilt_def Let_def os_step_def attempt_def seq_def through_temp_def mkstemp_def on_error_def
      stream_to_handle_def total_raises_def unlink_missing_ok_def)

end
