(* ===== verification/Paths.thy ===== *)
theory Paths
  imports Downloads_Props
begin

text \<open>
  \<open>paths.py\<close>: where things live. Discovery of the instance directory, the layout of an instance,
  the user directories (what \<open>platformdirs\<close> answers is an argument), the atomic write, and the
  materialisation of bundled resources with its two module-level caches.
\<close>

section \<open>Instance directories\<close>

definition INSTANCE_MARKER :: string where "INSTANCE_MARKER = ''beetroot.yaml''"
definition APP_NAME :: string where "APP_NAME = ''beetroot''"

text \<open>\<open>cur\<close> is the resolved start directory; the search ends at the root.\<close>

definition instance_root :: "path \<Rightarrow> tree \<Rightarrow> path option" where
  "instance_root cur t =
     find (\<lambda>parent. is_file_node (dict_get t (parent @ [INSTANCE_MARKER]))) (cur # rev (parents cur))"

definition instance_env :: "path \<Rightarrow> path" where "instance_env rdir = rdir @ [''.env'']"
definition instance_compose_override :: "path \<Rightarrow> path" where
  "instance_compose_override rdir = rdir @ [''compose.override.yaml'']"
definition instance_data :: "path \<Rightarrow> path" where "instance_data rdir = rdir @ [''data'']"
definition instance_modules :: "path \<Rightarrow> path" where "instance_modules rdir = rdir @ [''modules'']"
definition instance_frida :: "path \<Rightarrow> path" where "instance_frida rdir = rdir @ [''frida-server'']"

section \<open>User directories\<close>

record penv =
  user_cache_path :: string
  user_config_path :: string
  home :: path

definition is_absolute :: "string \<Rightarrow> bool" where
  "is_absolute s = startswith s ''/''"

definition segments :: "string \<Rightarrow> path" where
  "segments s = filter (\<lambda>w. w \<noteq> [] \<and> w \<noteq> ''.'') (split_on (CHR ''/'') s)"

definition user_config_dir :: "penv \<Rightarrow> path" where
  "user_config_dir e = (if is_absolute (user_config_path e) then segments (user_config_path e)
     else home e @ [''.config'', APP_NAME])"

definition user_registry_file :: "penv \<Rightarrow> path" where
  "user_registry_file e = user_config_dir e @ [''instances.json'']"

definition user_cache_dir :: "penv \<Rightarrow> string \<Rightarrow> path" where
  "user_cache_dir e subdir = (if is_absolute (user_cache_path e) then segments (user_cache_path e)
     else home e @ [''.cache'', APP_NAME]) @ [subdir]"

section \<open>Atomic writes\<close>

definition atomic_write_bytes :: "denv \<Rightarrow> path \<Rightarrow> string \<Rightarrow> unit fetch" where
  "atomic_write_bytes env target contents = through_temp env (butlast target) (\<lambda>tmp.
     seq (os_step (append_file env tmp contents)) (\<lambda>_. os_step (replace_file tmp target)))"

section \<open>Bundled resources\<close>

text \<open>
  A package resource is a file of a source install, or an entry of an imported zip. For the
  latter \<open>importlib.resources.as_file\<close> writes a temporary file and removes it on exit.
\<close>

datatype resource = OnDisk path | InZip string

definition resource_bytes :: "resource \<Rightarrow> tree \<Rightarrow> string option" where
  "resource_bytes res t = (case res of OnDisk p \<Rightarrow> read_bytes p t | InZip c \<Rightarrow> Some c)"

definition as_file :: "denv \<Rightarrow> path \<Rightarrow> resource \<Rightarrow> (path \<Rightarrow> 'a fetch) \<Rightarrow> 'a fetch" where
  "as_file env tmpdir res body = (case res of
     OnDisk p \<Rightarrow> body p
   | InZip c \<Rightarrow> seq (mkstemp env tmpdir) (\<lambda>tmp.
       finally_do (seq (os_step (append_file env tmp c)) (\<lambda>_. body tmp)) (dict_pop tmp)))"

definition is_file_at :: "path \<Rightarrow> tree \<Rightarrow> bool" where
  "is_file_at p t = is_file_node (dict_get t p)"

text \<open>Each function also returns the new value of its module-level cache.\<close>

definition compose_from_package :: "denv \<Rightarrow> path \<Rightarrow> resource \<Rightarrow> (path + string) fetch" where
  "compose_from_package env tmpdir res = as_file env tmpdir res (\<lambda>resolved t.
     if is_file_at resolved t then (Inr (Inl resolved), t)
     else (case read_bytes resolved t of
         None \<Rightarrow> (Inl (Raised OsErr), t) | Some contents \<Rightarrow> (Inr (Inr contents), t)))"

definition write_if_stale :: "denv \<Rightarrow> path \<Rightarrow> string \<Rightarrow> unit fetch" where
  "write_if_stale env target contents t =
     (if \<not> exists_at target t then atomic_write_bytes env target contents t
      else (case read_bytes target t of
          None \<Rightarrow> (Inl (Raised OsErr), t)
        | Some old \<Rightarrow> if old \<noteq> contents then atomic_write_bytes env target contents t else (Inr (), t)))"

definition materialise_bundled_compose :: "denv \<Rightarrow> penv \<Rightarrow> path \<Rightarrow> resource \<Rightarrow> path option
    \<Rightarrow> tree \<Rightarrow> (fetch_error + path) \<times> path option \<times> tree" where
  "materialise_bundled_compose env pe tmpdir res cache t =
     (if (case cache of Some p \<Rightarrow> exists_at p t | None \<Rightarrow> False) then (Inr (the cache), cache, t)
      else (case compose_from_package env tmpdir res t of
          (Inl e, t1) \<Rightarrow> (Inl e, cache, t1)
        | (Inr (Inl resolved), t1) \<Rightarrow> (Inr resolved, Some resolved, t1)
        | (Inr (Inr contents), t1) \<Rightarrow>
            let target = user_cache_dir pe ''templates'' @ [''compose.yaml''] in
            (case seq (os_step (mkdir_parents (butlast target))) (\<lambda>_. write_if_stale env target contents) t1 of
               (Inl e, t2) \<Rightarrow> (Inl e, cache, t2)
             | (Inr _, t2) \<Rightarrow> (Inr target, Some target, t2))))"

definition VM_ASSET_NAMES :: "string list" where
  "VM_ASSET_NAMES = [''kernel.config'', ''guest-init.sh'', ''adbprobe.c'']"

fun extract_assets :: "denv \<Rightarrow> (string \<Rightarrow> resource) \<Rightarrow> path \<Rightarrow> string list \<Rightarrow> unit fetch" where
  "extract_assets env pkg target [] = ok ()"
| "extract_assets env pkg target (name # names) = (\<lambda>t. case resource_bytes (pkg name) t of
     None \<Rightarrow> (Inl (Raised OsErr), t)
   | Some contents \<Rightarrow> seq (write_if_stale env (target @ [name]) contents) (\<lambda>_. extract_assets env pkg target names) t)"

definition materialise_bundled_vm_dir :: "denv \<Rightarrow> penv \<Rightarrow> path \<Rightarrow> (string \<Rightarrow> resource) \<Rightarrow> path option
    \<Rightarrow> tree \<Rightarrow> (fetch_error + path) \<times> path option \<times> tree" where
  "materialise_bundled_vm_dir env pe tmpdir pkg cache t =
     (if (case cache of Some p \<Rightarrow> dict_get t p = Some Dir \<or> p = [] | None \<Rightarrow> False) then (Inr (the cache), cache, t)
      else (case as_file env tmpdir (pkg (hd VM_ASSET_NAMES)) (\<lambda>resolved t. (Inr (resolved, is_file_at resolved t), t)) t of
          (Inl e, t1) \<Rightarrow> (Inl e, cache, t1)
        | (Inr (resolved, True), t1) \<Rightarrow> (Inr (butlast resolved), Some (butlast resolved), t1)
        | (Inr (resolved, False), t1) \<Rightarrow>
            let target = user_cache_dir pe ''vm-assets'' in
            (case seq (os_step (mkdir_parents target)) (\<lambda>_. extract_assets env pkg target VM_ASSET_NAMES) t1 of
               (Inl e, t2) \<Rightarrow> (Inl e, cache, t2)
             | (Inr _, t2) \<Rightarrow> (Inr target, Some target, t2))))"

section \<open>Properties\<close>

lemma find_first_rev_parents:
  assumes "find P (p # rev (parents p)) = Some r"
  shows "P r \<and> prefix r p \<and> (\<forall>q. prefix q p \<longrightarrow> strict_prefix r q \<longrightarrow> \<not> P q)"
proof -
  have list: "p # rev (parents p) = map (\<lambda>k. take k p) (rev [0..<Suc (length p)])"
    by (simp add: parents_def rev_map)
  obtain k where k: "k \<le> length p" "r = take k p" "P (take k p)" "\<And>j. k < j \<Longrightarrow> j \<le> length p \<Longrightarrow> \<not> P (take j p)"
  proof -
    have "\<exists>k \<le> n. find P (map (\<lambda>k. take k p) (rev [0..<Suc n])) = Some (take k p) \<and> P (take k p)
        \<and> (\<forall>j. k < j \<longrightarrow> j \<le> n \<longrightarrow> \<not> P (take j p))"
      if "find P (map (\<lambda>k. take k p) (rev [0..<Suc n])) \<noteq> None" for n
      using that
    proof (induction n)
      case (Suc n)
      show ?case
      proof (cases "P (take (Suc n) p)")
        case False
        then have "find P (map (\<lambda>k. take k p) (rev [0..<Suc (Suc n)])) = find P (map (\<lambda>k. take k p) (rev [0..<Suc n]))"
          by simp
        with Suc False show ?thesis by (metis le_SucE le_SucI)
      qed auto
    qed (auto split: if_splits)
    then show thesis using assms that unfolding list by (metis option.distinct(1) option.inject)
  qed
  have "\<not> P q" if q: "prefix q p" "strict_prefix r q" for q
  proof -
    have "q = take (length q) p" "length q \<le> length p" using q(1) by (auto simp: prefix_def)
    moreover have "k < length q" using q(2) k(1,2) by (auto dest: prefix_length_less)
    ultimately show ?thesis using k(4) by metis
  qed
  then show ?thesis using k by (simp add: take_is_prefix)
qed

lemma through_temp_fetcher:
  assumes run: "\<And>t. run t = through_temp env (butlast out) body t" and body: "staged_body body out (\<lambda>_. P)"
  shows "atomic_fetcher run out {} P"
proof
  fix t r t' assume "run t = (r, t')"
  then have "through_temp env (butlast out) body t = (r, t')" by (simp add: run)
  from this body show "only_changes (insert out {}) t t'"
    by (rule through_temp_spec) (auto simp: only_changes_def)
next
  fix t v t' assume "run t = (Inr v, t')"
  then have "through_temp env (butlast out) body t = (Inr v, t')" by (simp add: run)
  from this body show "\<exists>c. dict_get t' out = Some (File c) \<and> P c"
    by (rule through_temp_spec) auto
next
  fix t e t' assume "run t = (Inl e, t')"
  then have "through_temp env (butlast out) body t = (Inl e, t')" by (simp add: run)
  from this body show same: "dict_get t' out = dict_get t out"
    by (rule through_temp_spec) auto
  then show "dict_get t' out = dict_get t out \<or> dict_get t' out = None" ..
qed

interpretation atomic_write: atomic_fetcher "atomic_write_bytes env target contents" target "{}" "\<lambda>c. c = contents"
proof (rule through_temp_fetcher)
  show "atomic_write_bytes env target contents t = through_temp env (butlast target) (\<lambda>tmp.
     seq (os_step (append_file env tmp contents)) (\<lambda>_. os_step (replace_file tmp target))) t" for t
    by (simp add: atomic_write_bytes_def)
  show "staged_body (\<lambda>tmp. seq (os_step (append_file env tmp contents)) (\<lambda>_. os_step (replace_file tmp target)))
     target (\<lambda>_ c. c = contents)"
    unfolding staged_body_def
    by (auto simp: os_step_def statement_iffs append_file_spec replace_file_spec; force)
qed

text \<open>
  \<open>instance_root\<close> returns the nearest directory at or above the start that holds a
  \<open>beetroot.yaml\<close> file, and fails only when no such directory exists.
\<close>

theorem instance_root_nearest:
  "case instance_root cur t of
     Some r \<Rightarrow> prefix r cur \<and> is_file_at (r @ [INSTANCE_MARKER]) t
       \<and> (\<forall>q. prefix q cur \<and> is_file_at (q @ [INSTANCE_MARKER]) t \<longrightarrow> prefix q r)
   | None \<Rightarrow> \<forall>q. prefix q cur \<longrightarrow> \<not> is_file_at (q @ [INSTANCE_MARKER]) t"
proof (cases "instance_root cur t")
  case None
  then show ?thesis
    by (auto simp: instance_root_def is_file_at_def find_None_iff parents_prefix strict_prefix_def split: if_splits)
next
  case (Some r)
  note near = find_first_rev_parents [OF Some [unfolded instance_root_def]]
  have "prefix q r" if "prefix q cur" "is_file_at (q @ [INSTANCE_MARKER]) t" for q
    using near that prefix_same_cases [of q cur r] by (auto simp: is_file_at_def strict_prefix_def)
  then show ?thesis using near Some by (simp add: is_file_at_def)
qed

theorem instance_root_nearest_witness:
  "instance_root [''i'', ''data''] [([''i''], Dir), ([''i'', ''beetroot.yaml''], File []), ([''i'', ''data''], Dir)] = Some [''i'']
   \<and> prefix [''i''] [''i'', ''data''] \<and> is_file_at ([''i''] @ [INSTANCE_MARKER]) [([''i''], Dir), ([''i'', ''beetroot.yaml''], File []), ([''i'', ''data''], Dir)]"
proof -
  have run: "instance_root [''i'', ''data''] [([''i''], Dir), ([''i'', ''beetroot.yaml''], File []), ([''i'', ''data''], Dir)] = Some [''i'']"
    by code_simp
  show ?thesis
    using instance_root_nearest [of "[''i'', ''data'']" "[([''i''], Dir), ([''i'', ''beetroot.yaml''], File []), ([''i'', ''data''], Dir)]"] run
    by simp
qed

lemma as_file_zip:
  assumes "as_file env tmpdir (InZip c) body t = (Inr v, t')"
  obtains n t1 t2 where "dict_get t1 (tmpdir @ [n]) = Some (File c)" "body (tmpdir @ [n]) t1 = (Inr v, t2)"
    "t' = dict_pop (tmpdir @ [n]) t2" "\<And>q. q \<noteq> tmpdir @ [n] \<Longrightarrow> dict_get t1 q = dict_get t q"
proof -
  obtain m u where m: "mkstemp env tmpdir t = (m, u)" by fastforce
  with assms obtain tmp where tmp: "m = Inr tmp" by (auto simp: as_file_def seq_iff)
  then obtain n where n: "tmp = tmpdir @ [n]" "u = dict_set tmp (File []) t"
    using m by (auto simp: mkstemp_def split: option.splits if_splits dest!: temp_name_unused)
  obtain w where "seq (os_step (append_file env tmp c)) (\<lambda>_. body tmp) u = (Inr v, w)" "t' = dict_pop tmp w"
    using assms m tmp by (auto simp: as_file_def statement_iffs)
  then show thesis
    using n by (intro that [of "dict_set tmp (File c) u" n w])
      (auto simp: os_step_def statement_iffs append_file_spec)
qed

text \<open>
  When the package is imported from a zip, the bundled compose file is not usable: the path
  returned is the temporary copy \<open>as_file\<close> removed on the way out, so nothing exists there.
\<close>

theorem zip_compose_dangling:
  assumes "materialise_bundled_compose env pe tmpdir (InZip c) cache t = (Inr p, cache', t')"
    and "\<forall>q. cache = Some q \<longrightarrow> \<not> exists_at q t"
  shows "\<not> exists_at p t'"
proof -
  obtain r t1 where r: "compose_from_package env tmpdir (InZip c) t = (r, t1)" by fastforce
  with assms obtain v where v: "r = Inr v"
    by (cases r) (auto simp: materialise_bundled_compose_def split: option.splits)
  from r [unfolded v compose_from_package_def] obtain n u where
    n: "v = Inl (tmpdir @ [n])" "t1 = dict_pop (tmpdir @ [n]) u"
    by (rule as_file_zip) (auto simp: is_file_at_def is_file_node_def split: if_splits)
  have "p = tmpdir @ [n]" "t' = t1"
    using assms r v n by (auto simp: materialise_bundled_compose_def split: option.splits if_splits)
  then show ?thesis using n by (simp add: exists_at_def)
qed

theorem zip_compose_dangling_witness:
  "\<exists>p t'. materialise_bundled_compose demo_env \<lparr>user_cache_path = ''/c'', user_config_path = ''/d'', home = [''h'']\<rparr>
       [''tmp''] (InZip ''services'') None [([''tmp''], Dir)] = (Inr p, Some p, t') \<and> \<not> exists_at p t'"
proof -
  have run: "materialise_bundled_compose demo_env \<lparr>user_cache_path = ''/c'', user_config_path = ''/d'', home = [''h'']\<rparr>
       [''tmp''] (InZip ''services'') None [([''tmp''], Dir)] = (Inr [''tmp'', ''t1''], Some [''tmp'', ''t1''], [([''tmp''], Dir)])"
    by code_simp
  from zip_compose_dangling [OF this] run show ?thesis by simp
qed

text \<open>
  When the package is imported from a zip, the directory returned for the VM build assets is
  the system's temporary directory, and it stays the cached answer although no asset is there.
\<close>

theorem zip_vm_dir_is_tmpdir:
  assumes "materialise_bundled_vm_dir env pe tmpdir pkg None t = (Inr d, cache', t')"
    and "pkg ''kernel.config'' = InZip c"
    and "\<forall>n. is_file_at (tmpdir @ [n]) t \<longrightarrow> n \<notin> set VM_ASSET_NAMES"
  shows "d = tmpdir \<and> cache' = Some tmpdir \<and> (\<forall>n\<in>set VM_ASSET_NAMES. \<not> is_file_at (tmpdir @ [n]) t')"
proof -
  obtain r t1 where r: "as_file env tmpdir (pkg (hd VM_ASSET_NAMES))
      (\<lambda>resolved t. (Inr (resolved, is_file_at resolved t), t)) t = (r, t1)" by fastforce
  with assms(1) obtain v where v: "r = Inr v"
    by (cases r) (auto simp: materialise_bundled_vm_dir_def)
  have "pkg (hd VM_ASSET_NAMES) = InZip c" using assms(2) by (simp add: VM_ASSET_NAMES_def)
  with r v obtain n u where n: "v = (tmpdir @ [n], True)" "t1 = dict_pop (tmpdir @ [n]) u"
      "\<And>q. q \<noteq> tmpdir @ [n] \<Longrightarrow> dict_get u q = dict_get t q"
    by (auto simp: is_file_at_def is_file_node_def elim!: as_file_zip)
  have "d = tmpdir" "cache' = Some tmpdir" "t' = t1"
    using assms(1) r v n(1) by (auto simp: materialise_bundled_vm_dir_def)
  moreover have "\<not> is_file_at (tmpdir @ [m]) t1" if "m \<in> set VM_ASSET_NAMES" for m
    using assms(3) that n(2,3) by (cases "m = n") (auto simp: is_file_at_def is_file_node_def)
  ultimately show ?thesis by blast
qed

theorem zip_vm_dir_is_tmpdir_witness:
  "\<exists>t'. materialise_bundled_vm_dir demo_env \<lparr>user_cache_path = ''/c'', user_config_path = ''/d'', home = [''h'']\<rparr>
       [''tmp''] (\<lambda>_. InZip ''x'') None [([''tmp''], Dir)] = (Inr [''tmp''], Some [''tmp''], t')
     \<and> \<not> is_file_at [''tmp'', ''kernel.config''] t'"
proof -
  have run: "materialise_bundled_vm_dir demo_env \<lparr>user_cache_path = ''/c'', user_config_path = ''/d'', home = [''h'']\<rparr>
       [''tmp''] (\<lambda>_. InZip ''x'') None [([''tmp''], Dir)] = (Inr [''tmp''], Some [''tmp''], [([''tmp''], Dir)])"
    by code_simp
  from zip_vm_dir_is_tmpdir [OF this] run show ?thesis
    by (auto simp: is_file_at_def is_file_node_def VM_ASSET_NAMES_def)
qed

end
