(* ===== verification/Compose.thy ===== *)
theory Compose
  imports Instances Paths
begin

text \<open>
  \<open>compose.py\<close>: the \<open>docker compose\<close> calls of an instance. The docker command is an argument that
  answers each call in turn; the calls made are kept in the state, so that properties can speak of
  what was asked of docker and when.
\<close>

section \<open>State and environment\<close>

datatype proc = Exited int string string | Expired | SpawnFails

record cenv =
  docker_bin :: string
  docker_found :: bool
  bundled_compose :: string
  docker_run :: "nat \<Rightarrow> string list \<Rightarrow> proc"
  c_json :: "string \<Rightarrow> doc"
  c_str :: "pyval \<Rightarrow> string"

record cstate =
  ctree :: tree
  calls :: "string list list"

datatype compose_error =
    DockerMissing
  | ComposeExit string string int string
  | SubprocessTimeout
  | SubprocessOs

type_synonym 'a compose = "cstate \<Rightarrow> (compose_error + 'a) \<times> cstate"

definition STDERR_TAIL_CHARS :: nat where "STDERR_TAIL_CHARS = 500"

definition DAEMON_UNREACHABLE_MARKERS :: "string list" where
  "DAEMON_UNREACHABLE_MARKERS = [''cannot connect to the docker daemon'', ''failed to connect to the docker'']"

datatype compose_status = CRunning | CExited | CStarting | CCreated | CPaused | CNotCreated | CDockerUnreachable | CUnknown

definition STATE_TO_STATUS :: "(string, compose_status) dict" where
  "STATE_TO_STATUS = [(''running'', CRunning), (''exited'', CExited), (''starting'', CStarting), (''created'', CCreated),
     (''paused'', CPaused), (''restarting'', CStarting), (''dead'', CExited), (''removing'', CExited)]"

section \<open>Running docker\<close>

definition base_cmd :: "cenv \<Rightarrow> string \<Rightarrow> path \<Rightarrow> tree \<Rightarrow> compose_error + string list" where
  "base_cmd env name rdir t =
     (if \<not> docker_found env then Inl DockerMissing
      else Inr ([docker_bin env, ''compose'', ''-p'', name, ''-f'', bundled_compose env]
        @ (if is_file_at (instance_compose_override rdir) t
           then [''-f'', path_str (instance_compose_override rdir)] else [])
        @ [''--project-directory'', path_str rdir, ''--env-file'', path_str (instance_env rdir)]))"

text \<open>The working directory of the subprocess is the instance directory, which has to exist.\<close>

definition compose_run :: "cenv \<Rightarrow> string \<Rightarrow> path \<Rightarrow> string list \<Rightarrow> (int \<times> string \<times> string) compose" where
  "compose_run env name rdir args st = (case base_cmd env name rdir (ctree st) of
     Inl e \<Rightarrow> (Inl e, st)
   | Inr base \<Rightarrow>
       if dict_get (ctree st) rdir \<noteq> Some Dir then (Inl SubprocessOs, st)
       else let cmd = base @ args; st' = st\<lparr>calls := calls st @ [cmd]\<rparr> in
         (case docker_run env (length (calls st)) cmd of
            Exited rc out err \<Rightarrow> (Inr (rc, out, err), st')
          | Expired \<Rightarrow> (Inl SubprocessTimeout, st')
          | SpawnFails \<Rightarrow> (Inl SubprocessOs, st')))"

definition stderr_tail :: "string \<Rightarrow> string" where
  "stderr_tail err = (let s = strip err in drop (length s - STDERR_TAIL_CHARS) s)"

definition lifecycle_error :: "string \<Rightarrow> string \<Rightarrow> int \<Rightarrow> string \<Rightarrow> compose_error" where
  "lifecycle_error verb name rc err = ComposeExit verb name rc (stderr_tail err)"

definition run_lifecycle :: "cenv \<Rightarrow> string \<Rightarrow> path \<Rightarrow> string \<Rightarrow> string list \<Rightarrow> unit compose" where
  "run_lifecycle env name rdir verb args = seq (compose_run env name rdir args) (\<lambda>(rc, out, err).
     if rc \<noteq> 0 then fail (lifecycle_error verb name rc err) else ok ())"

definition compose_up :: "cenv \<Rightarrow> string \<Rightarrow> path \<Rightarrow> unit compose" where
  "compose_up env name rdir = run_lifecycle env name rdir ''up'' [''up'', ''-d'']"

definition compose_down :: "cenv \<Rightarrow> string \<Rightarrow> path \<Rightarrow> bool \<Rightarrow> unit compose" where
  "compose_down env name rdir volumes =
     run_lifecycle env name rdir ''down'' ([''down''] @ (if volumes then [''--volumes''] else []))"

definition compose_logs :: "cenv \<Rightarrow> string \<Rightarrow> path \<Rightarrow> bool \<Rightarrow> unit compose" where
  "compose_logs env name rdir follow =
     (if follow then seq (compose_run env name rdir [''logs'', ''-f'']) (\<lambda>_. ok ())
      else run_lifecycle env name rdir ''logs'' [''logs''])"

definition compose_build :: "cenv \<Rightarrow> string \<Rightarrow> path \<Rightarrow> unit compose" where
  "compose_build env name rdir = seq (compose_run env name rdir [''build'']) (\<lambda>(rc, out, err).
     if rc \<noteq> 0 then fail (ComposeExit ''build'' name rc []) else ok ())"

section \<open>Status\<close>

definition entry_state :: "cenv \<Rightarrow> string \<Rightarrow> string" where
  "entry_state env line = (case c_json env line of
     Json (PDict d) \<Rightarrow> (case dict_get d (PStr ''State'') of
        None \<Rightarrow> [] | Some (PStr s) \<Rightarrow> lower s | Some v \<Rightarrow> lower (c_str env v))
   | _ \<Rightarrow> [])"

fun scan_states :: "cenv \<Rightarrow> string list \<Rightarrow> compose_status" where
  "scan_states env [] = CNotCreated"
| "scan_states env (line # ls) = (let s = entry_state env line in
     if s = [] then scan_states env ls
     else (case dict_get STATE_TO_STATUS s of Some v \<Rightarrow> v | None \<Rightarrow> CUnknown))"

definition ps_status :: "cenv \<Rightarrow> string \<Rightarrow> path \<Rightarrow> compose_status compose" where
  "ps_status env name rdir st = (case compose_run env name rdir [''ps'', ''--format'', ''json''] st of
     (Inl DockerMissing, st') \<Rightarrow> (Inr CDockerUnreachable, st')
   | (Inl SubprocessTimeout, st') \<Rightarrow> (Inr CDockerUnreachable, st')
   | (Inl e, st') \<Rightarrow> (Inl e, st')
   | (Inr (rc, out, err), st') \<Rightarrow>
       (Inr (if rc \<noteq> 0 then
               if list_ex (contains (lower err)) DAEMON_UNREACHABLE_MARKERS then CDockerUnreachable else CNotCreated
             else if strip out = [] then CNotCreated
             else scan_states env (splitlines (strip out))), st'))"

section \<open>Properties\<close>

lemma compose_run_tree: "compose_run env name rdir args st = (r, st') \<Longrightarrow> ctree st' = ctree st"
  by (auto simp: compose_run_def Let_def split: sum.splits if_splits proc.splits)

lemma run_lifecycle_iff: "run_lifecycle env name rdir verb args st = (Inr u, st') \<longleftrightarrow>
    (\<exists>base out err. base_cmd env name rdir (ctree st) = Inr base \<and> dict_get (ctree st) rdir = Some Dir
      \<and> docker_run env (length (calls st)) (base @ args) = Exited 0 out err
      \<and> st' = st\<lparr>calls := calls st @ [base @ args]\<rparr>)"
  by (auto simp: run_lifecycle_def statement_iffs compose_run_def Let_def split: sum.splits if_splits proc.splits)

lemma run_lifecycle_tree: "run_lifecycle env name rdir verb args st = (r, st') \<Longrightarrow> ctree st' = ctree st"
  by (auto simp: run_lifecycle_def seq_iff ok_iff fail_iff split: if_splits dest: compose_run_tree)

lemma scan_states_first: "scan_states env ls = (case find (\<lambda>l. entry_state env l \<noteq> []) ls of
    None \<Rightarrow> CNotCreated
  | Some l \<Rightarrow> (case dict_get STATE_TO_STATUS (entry_state env l) of Some v \<Rightarrow> v | None \<Rightarrow> CUnknown))"
  by (induction ls) (simp_all add: Let_def)

lemma state_running: "(case dict_get STATE_TO_STATUS s of Some v \<Rightarrow> v | None \<Rightarrow> CUnknown) = CRunning \<longleftrightarrow> s = ''running''"
  by (simp add: STATE_TO_STATUS_def)

text \<open>
  An instance is reported as running exactly when docker is there, \<open>compose ps\<close> exits with zero and
  the first line of its output that carries a state carries \<open>running\<close>, in any letter case. Output that
  is malformed, of an unknown vocabulary or missing is never taken for a running container.
\<close>

theorem ps_status_running:
  "fst (ps_status env name rdir st) = Inr CRunning \<longleftrightarrow>
     (\<exists>base out err line. base_cmd env name rdir (ctree st) = Inr base \<and> dict_get (ctree st) rdir = Some Dir
       \<and> docker_run env (length (calls st)) (base @ [''ps'', ''--format'', ''json'']) = Exited 0 out err
       \<and> find (\<lambda>l. entry_state env l \<noteq> []) (splitlines (strip out)) = Some line \<and> entry_state env line = ''running'')"
proof (cases "\<exists>base rc out err. base_cmd env name rdir (ctree st) = Inr base \<and> dict_get (ctree st) rdir = Some Dir
       \<and> docker_run env (length (calls st)) (base @ [''ps'', ''--format'', ''json'']) = Exited rc out err")
  case False
  then show ?thesis
    by (auto simp: ps_status_def compose_run_def Let_def split: sum.splits if_splits proc.splits compose_error.splits)
next
  case True
  then obtain base rc out err where b: "base_cmd env name rdir (ctree st) = Inr base" "dict_get (ctree st) rdir = Some Dir"
    "docker_run env (length (calls st)) (base @ [''ps'', ''--format'', ''json'']) = Exited rc out err" by blast
  have "fst (ps_status env name rdir st) = Inr (if rc \<noteq> 0 then
               if list_ex (contains (lower err)) DAEMON_UNREACHABLE_MARKERS then CDockerUnreachable else CNotCreated
             else if strip out = [] then CNotCreated else scan_states env (splitlines (strip out)))"
    using b by (simp add: ps_status_def compose_run_def Let_def)
  moreover have "splitlines [] = []" by (simp add: splitlines_def)
  ultimately show ?thesis
    using b by (auto simp: scan_states_first state_running split: option.splits)
qed

end
