(* ===== verification/Frida_Download.thy ===== *)
theory Frida_Download
  imports Paths Config
begin

text \<open>
  \<open>frida_download.py\<close>: resolving a frida version and architecture, filling the host cache with the
  decompressed binary, and staging it in an instance. The incremental LZMA decompressor is an
  argument: a state with the flags and the step of \<open>lzma.LZMADecompressor\<close>. The download loop may
  run forever for a decompressor that makes no progress, so it is a partial function.
\<close>

section \<open>Versions and architectures\<close>

record fhost =
  which_frida :: bool
  frida_cli :: "string option"
  machine :: string
  arch_env :: "string option"
  settings_arch :: string
  latest_redirect :: "raised + string"

definition FRIDA_AUTO :: string where "FRIDA_AUTO = ''auto''"
definition FRIDA_LATEST :: string where "FRIDA_LATEST = ''latest''"

definition MACHINE_TO_FRIDA_ARCH :: "(string, string) dict" where
  "MACHINE_TO_FRIDA_ARCH = [(''aarch64'', ''android-arm64''), (''arm64'', ''android-arm64''),
     (''x86_64'', ''android-x86_64''), (''amd64'', ''android-x86_64'')]"

definition VM_FRIDA_ARCH :: string where "VM_FRIDA_ARCH = ''android-x86_64''"

text \<open>An unset or empty \<open>BEETROOT_FRIDA_ARCH\<close> is no choice.\<close>

definition resolve_frida_arch :: "fhost \<Rightarrow> string \<Rightarrow> string" where
  "resolve_frida_arch h binder_mode =
     (if arch_env h \<noteq> None \<and> arch_env h \<noteq> Some [] then settings_arch h
      else if binder_mode = ''vm'' then VM_FRIDA_ARCH
      else (case dict_get MACHINE_TO_FRIDA_ARCH (lower (machine h)) of
          Some a \<Rightarrow> a | None \<Rightarrow> settings_arch h))"

definition frida_release_url :: "fhost \<Rightarrow> string \<Rightarrow> string option \<Rightarrow> string" where
  "frida_release_url h version arch =
     ''https://github.com/frida/frida/releases/download/'' @ version @ ''/frida-server-'' @ version @ ''-''
       @ (case arch of Some a \<Rightarrow> a | None \<Rightarrow> settings_arch h) @ ''.xz''"

definition host_frida_tools_version :: "fhost \<Rightarrow> string option" where
  "host_frida_tools_version h =
     (if \<not> which_frida h then None
      else (case frida_cli h of
          None \<Rightarrow> None
        | Some s \<Rightarrow> let version = strip s in if is_pinned_frida_version version then Some version else None))"

text \<open>\<open>final_url.rstrip("/").rsplit("/", 1)[-1]\<close>\<close>

definition last_segment :: "string \<Rightarrow> string" where
  "last_segment url = last (split_on (CHR ''/'') (rev (dropWhile (\<lambda>c. c = CHR ''/'') (rev url))))"

definition latest_release_tag :: "fhost \<Rightarrow> fetch_error + string" where
  "latest_release_tag h = (case latest_redirect h of
     Inl e \<Rightarrow> Inl (map_fault e)
   | Inr final_url \<Rightarrow> let tag = last_segment final_url in
       if is_pinned_frida_version tag then Inr tag else Inl (Bad_version tag))"

definition resolve_version :: "fhost \<Rightarrow> string \<Rightarrow> string option \<Rightarrow> fetch_error + string" where
  "resolve_version h version host_version =
     (if is_pinned_frida_version version then Inr version
      else if version = FRIDA_AUTO then
        (case (case host_version of Some v \<Rightarrow> Some v | None \<Rightarrow> host_frida_tools_version h) of
           Some v \<Rightarrow> Inr v | None \<Rightarrow> latest_release_tag h)
      else if version = FRIDA_LATEST then latest_release_tag h
      else Inl (Bad_version version))"

definition client_skew :: "fhost \<Rightarrow> string \<Rightarrow> string option \<Rightarrow> bool" where
  "client_skew h server_version host_version =
     (case (case host_version of Some v \<Rightarrow> Some v | None \<Rightarrow> host_frida_tools_version h) of
        None \<Rightarrow> False
      | Some host \<Rightarrow> take 2 (split_on (CHR ''.'') host) \<noteq> take 2 (split_on (CHR ''.'') server_version))"

section \<open>The host cache\<close>

definition frida_cache_dir :: "penv \<Rightarrow> path" where
  "frida_cache_dir pe = user_cache_dir pe ''frida''"

definition cached_binary :: "penv \<Rightarrow> fhost \<Rightarrow> string \<Rightarrow> string option \<Rightarrow> path" where
  "cached_binary pe h version arch = frida_cache_dir pe
     @ [''frida-server-'' @ version @ ''-'' @ (case arch of Some a \<Rightarrow> a | None \<Rightarrow> settings_arch h)]"

definition check_sha256 :: "denv \<Rightarrow> path \<Rightarrow> string option \<Rightarrow> unit fetch" where
  "check_sha256 env p expected t = (case expected of
     None \<Rightarrow> (Inr (), t)
   | Some want \<Rightarrow> (case read_bytes p t of
       None \<Rightarrow> (Inl (Raised OsErr), t)
     | Some c \<Rightarrow> if lower (d_sha256 env c) \<noteq> lower want
         then (Inl (Sha_mismatch (lower want) (lower (d_sha256 env c))), dict_pop p t)
         else (Inr (), t)))"

section \<open>Download\<close>

definition CHUNK_SIZE :: int where "CHUNK_SIZE = 65536"
definition FRIDA_MAX_BYTES :: int where "FRIDA_MAX_BYTES = 512 * 1024 * 1024"

record 'd lzma =
  lz_new :: 'd
  lz_eof :: "'d \<Rightarrow> bool"
  lz_needs_input :: "'d \<Rightarrow> bool"
  lz_decompress :: "'d \<Rightarrow> string \<Rightarrow> int \<Rightarrow> (string \<times> 'd) option"

text \<open>\<open>resp.read\<close>: the next chunk and what is left, or what is raised.\<close>

definition next_chunk :: "string list \<Rightarrow> raised option \<Rightarrow> fetch_error + string \<times> string list" where
  "next_chunk cs stop = (case cs of
     [] \<Rightarrow> (case stop of None \<Rightarrow> Inl Mid_stream | Some e \<Rightarrow> Inl (map_fault e))
   | c # rest \<Rightarrow> if c = [] then Inl Mid_stream else Inr (c, rest))"

partial_function (option) pump :: "denv \<Rightarrow> 'd lzma \<Rightarrow> path \<Rightarrow> raised option \<Rightarrow> 'd \<Rightarrow> string list \<Rightarrow> int \<Rightarrow> tree
    \<Rightarrow> ((fetch_error + unit) \<times> tree) option" where
  "pump env lz tmp stop d cs total_out t =
     (if lz_eof lz d then Some (Inr (), t)
      else (case (if lz_needs_input lz d then next_chunk cs stop else Inr ([], cs)) of
          Inl e \<Rightarrow> Some (Inl e, t)
        | Inr (to_feed, rest) \<Rightarrow> (case lz_decompress lz d to_feed CHUNK_SIZE of
            None \<Rightarrow> Some (Inl Bad_payload, t)
          | Some (piece, d') \<Rightarrow>
              if total_out + int (length piece) > FRIDA_MAX_BYTES then Some (Inl Over_ceiling, t)
              else (case append_file env tmp piece t of
                  None \<Rightarrow> Some (Inl (Raised OsErr), t)
                | Some t' \<Rightarrow> pump env lz tmp stop d' rest (total_out + int (length piece)) t'))))"

definition fetch_frida :: "denv \<Rightarrow> 'd lzma \<Rightarrow> string \<Rightarrow> path \<Rightarrow> tree \<Rightarrow> ((fetch_error + unit) \<times> tree) option" where
  "fetch_frida env lz url tmp t = (case d_net env url of
     Refused e \<Rightarrow> Some (Inl (map_fault e), t)
   | Opened raw cs stop \<Rightarrow>
       if total_raises raw then Some (Inl (Raised ValueErr), t)
       else pump env lz tmp stop (lz_new lz) cs 0 t)"

text \<open>
  \<open>download\<close>; \<open>arch\<close> is the value of the context variable \<open>_active_arch\<close>. \<open>None\<close> is a call that does
  not return.
\<close>

definition frida_publish :: "path \<Rightarrow> path \<Rightarrow> (fetch_error + unit) \<times> tree \<Rightarrow> (fetch_error + unit) \<times> tree" where
  "frida_publish tmp out res = (case res of (r, t) \<Rightarrow>
     on_error (seq (give r) (\<lambda>_. os_step (replace_file tmp out))) (os_step (unlink_missing_ok tmp)) t)"

definition download :: "denv \<Rightarrow> penv \<Rightarrow> fhost \<Rightarrow> 'd lzma \<Rightarrow> string \<Rightarrow> string option \<Rightarrow> string option \<Rightarrow> tree
    \<Rightarrow> ((fetch_error + path) \<times> tree) option" where
  "download env pe h lz version expected arch t =
     (let out = cached_binary pe h version arch; url = frida_release_url h version arch in
      if has_content out t then Some (seq (check_sha256 env out expected) (\<lambda>_. ok out) t)
      else (case seq (os_step (mkdir_parents (butlast out))) (\<lambda>_. mkstemp env (butlast out)) t of
          (Inl e, t1) \<Rightarrow> Some (Inl e, t1)
        | (Inr tmp, t1) \<Rightarrow> (case fetch_frida env lz url tmp t1 of
            None \<Rightarrow> None
          | Some res \<Rightarrow> (case frida_publish tmp out res of
              (Inl e, t2) \<Rightarrow> Some (Inl e, t2)
            | (Inr _, t2) \<Rightarrow> Some (seq (check_sha256 env out expected) (\<lambda>_. ok out) t2)))))"

section \<open>Staging\<close>

definition copy_staged :: "denv \<Rightarrow> path \<Rightarrow> path \<Rightarrow> path fetch" where
  "copy_staged env src dst =
     seq (os_step (mkdir_parents (butlast dst))) (\<lambda>_.
     seq (through_temp env (butlast dst) (\<lambda>tmp.
       seq (os_step (\<lambda>t. if src = tmp then None else Option.bind (read_bytes src t) (\<lambda>c. append_file env tmp c t))) (\<lambda>_.
       os_step (replace_file tmp dst)))) (\<lambda>_. ok dst))"

definition frida_stage_for_instance :: "denv \<Rightarrow> penv \<Rightarrow> fhost \<Rightarrow> 'd lzma \<Rightarrow> path \<Rightarrow> string \<Rightarrow> string option \<Rightarrow> string
    \<Rightarrow> tree \<Rightarrow> ((fetch_error + path) \<times> tree) option" where
  "frida_stage_for_instance env pe h lz rdir version expected binder_mode t =
     (let host_version = host_frida_tools_version h in
      (case resolve_version h version host_version of
         Inl e \<Rightarrow> Some (Inl e, t)
       | Inr resolved \<Rightarrow> (case download env pe h lz resolved expected (Some (resolve_frida_arch h binder_mode)) t of
           None \<Rightarrow> None
         | Some (Inl e, t1) \<Rightarrow> Some (Inl e, t1)
         | Some (Inr src, t1) \<Rightarrow> Some (copy_staged env src (instance_frida rdir) t1))))"

definition stage_empty :: "denv \<Rightarrow> path \<Rightarrow> path fetch" where
  "stage_empty env rdir = seq (os_step (mkdir_parents rdir)) (\<lambda>_.
     seq (os_step (open_for_writing env (instance_frida rdir))) (\<lambda>_. ok (instance_frida rdir)))"

end
