(* ===== verification/Modules_Download.thy ===== *)
theory Modules_Download
  imports Paths Config_Schema
begin

text \<open>
  \<open>modules_download.py\<close>: resolving the Magisk modules of a configuration, each from a URL through the
  host cache or from a file, and staging them in the instance's \<open>modules/\<close> directory. Resolution of
  symbolic links and the authorities \<open>urlsplit\<close> accepts are arguments.
\<close>

record menv =
  m_denv :: denv
  m_paths :: penv
  m_resolve :: "path \<Rightarrow> path"
  m_netloc_ok :: "string \<Rightarrow> bool"

section \<open>URLs\<close>

definition ALLOWED_URL_SCHEMES :: "string list" where
  "ALLOWED_URL_SCHEMES = [''http://'', ''https://'']"

definition allowed_scheme :: "string \<Rightarrow> bool" where
  "allowed_scheme url = list_ex (startswith url) ALLOWED_URL_SCHEMES"

text \<open>
  \<open>urlsplit(url).path\<close> of a URL with one of these schemes; \<open>urlsplit\<close> drops tabs and line breaks
  first. \<open>None\<close> is a \<open>ValueError\<close>.
\<close>

definition after_scheme :: "string \<Rightarrow> string" where
  "after_scheme u = drop (if startswith u ''https://'' then 8 else 7) u"

definition urlsplit_path :: "menv \<Rightarrow> string \<Rightarrow> string option" where
  "urlsplit_path env url =
     (let rest = after_scheme (filter (\<lambda>c. c \<notin> {CHR 0x09, CHR 0x0A, CHR 0x0D}) url);
          ends = (\<lambda>c. c \<in> {CHR ''/'', CHR ''?'', CHR ''#''})
      in if m_netloc_ok env (takeWhile (\<lambda>c. \<not> ends c) rest)
         then Some (takeWhile (\<lambda>c. c \<notin> {CHR ''?'', CHR ''#''}) (dropWhile (\<lambda>c. \<not> ends c) rest))
         else None)"

definition filename_from_url :: "menv \<Rightarrow> string \<Rightarrow> string option" where
  "filename_from_url env url = map_option
     (\<lambda>p. let name = last (split_on (CHR ''/'') p) in if name = [] then ''module.zip'' else name)
     (urlsplit_path env url)"

definition module_cache_dir :: "menv \<Rightarrow> path" where
  "module_cache_dir env = user_cache_dir (m_paths env) ''modules''"

text \<open>
  The cache path and its \<open>parent\<close>. \<open>pathlib\<close> drops a segment \<open>.\<close> and keeps \<open>..\<close>, which the system
  resolves to the directory above, so such a basename names a directory.
\<close>

definition cache_path_for_url :: "menv \<Rightarrow> string \<Rightarrow> (path \<times> path) option" where
  "cache_path_for_url env url = map_option (\<lambda>name.
     let base = module_cache_dir env; d = base @ [take 12 (d_sha256 (m_denv env) url)]
     in if name = ''.'' then (d, base) else if name = ''..'' then (base, d) else (d @ [name], d))
     (filename_from_url env url)"

section \<open>Fetching\<close>

definition is_cached :: "path \<Rightarrow> path \<Rightarrow> tree \<Rightarrow> bool" where
  "is_cached cache parent t \<longleftrightarrow> (if prefix cache parent then exists_at parent t else has_content cache t)"

definition fetch_url :: "menv \<Rightarrow> string \<Rightarrow> path fetch" where
  "fetch_url env url t =
     (if \<not> allowed_scheme url then (Inl Bad_scheme, t)
      else (case cache_path_for_url env url of
          None \<Rightarrow> (Inl (Raised ValueErr), t)
        | Some (cache, parent) \<Rightarrow>
            if is_cached cache parent t then (Inr cache, t)
            else seq (os_step (mkdir_parents parent)) (\<lambda>_.
              seq (through_temp (m_denv env) parent (\<lambda>tmp t.
                (case d_net (m_denv env) url of
                   Refused e \<Rightarrow> (Inl (map_fault e), t)
                 | Opened raw cs stop \<Rightarrow>
                     seq (receive (m_denv env) tmp raw cs stop) (\<lambda>_. os_step (replace_file tmp cache)) t))) (\<lambda>_.
              ok cache)) t))"

definition verify_sha256 :: "denv \<Rightarrow> path \<Rightarrow> string \<Rightarrow> unit fetch" where
  "verify_sha256 env p expected t = (case read_bytes p t of
     None \<Rightarrow> (Inl (Raised OsErr), t)
   | Some c \<Rightarrow> if lower (d_sha256 env c) \<noteq> lower expected
       then (Inl (Sha_mismatch expected (d_sha256 env c)), t) else (Inr (), t))"

section \<open>Resolving one module\<close>

definition is_within :: "path \<Rightarrow> path \<Rightarrow> bool" where
  "is_within p base = prefix base p"

definition truthy :: "string option \<Rightarrow> bool" where
  "truthy s \<longleftrightarrow> s \<noteq> None \<and> s \<noteq> Some []"

definition resolve_path :: "menv \<Rightarrow> path \<Rightarrow> string \<Rightarrow> path fetch" where
  "resolve_path env rdir p t =
     (let local = m_resolve env (if is_absolute p then segments p else rdir @ segments p) in
      if \<not> is_absolute p \<and> \<not> is_within local (m_resolve env rdir) then (Inl (Path_escapes local), t)
      else if \<not> exists_at local t then (Inl (Path_missing local), t)
      else (Inr local, t))"

definition locate :: "menv \<Rightarrow> module \<Rightarrow> path \<Rightarrow> path fetch" where
  "locate env m rdir = (if truthy (module_url m) then fetch_url env (the (module_url m))
     else (case module_path m of None \<Rightarrow> fail (Raised ValueErr) | Some p \<Rightarrow> resolve_path env rdir p))"

text \<open>Only a mismatch (a \<open>ValueError\<close>) evicts, and only a download.\<close>

definition check_module :: "menv \<Rightarrow> module \<Rightarrow> path \<Rightarrow> unit fetch" where
  "check_module env m local t =
     (if \<not> truthy (module_sha256 m) then (Inr (), t)
      else (case verify_sha256 (m_denv env) local (the (module_sha256 m)) t of
          (Inl (Sha_mismatch a b), t1) \<Rightarrow>
            if truthy (module_url m)
            then seq (os_step (unlink_missing_ok local)) (\<lambda>_. fail (Sha_mismatch a b)) t1
            else (Inl (Sha_mismatch a b), t1)
        | res \<Rightarrow> res))"

definition resolve_module :: "menv \<Rightarrow> module \<Rightarrow> path \<Rightarrow> path fetch" where
  "resolve_module env m rdir =
     seq (locate env m rdir) (\<lambda>local. seq (check_module env m local) (\<lambda>_. ok local))"

section \<open>Staging\<close>

text \<open>\<open>_unique_dest_name\<close>: the name grows with every collision.\<close>

function unique_dest_name :: "string \<Rightarrow> string list \<Rightarrow> nat \<Rightarrow> string" where
  "unique_dest_name name used i =
     (if name \<notin> set used then name else unique_dest_name (str_of_int (int i) @ ''_'' @ name) used i)"
  by pat_completeness auto
termination
proof (relation "measure (\<lambda>(name, used, i). length (filter (\<lambda>u. length name \<le> length u) used))")
  fix name :: string and used and i :: nat assume "\<not> name \<notin> set used"
  then have in_used: "name \<in> set used" by simp
  let ?name = "str_of_int (int i) @ ''_'' @ name"
  have "filter (\<lambda>u. length ?name \<le> length u) used
      = filter (\<lambda>u. length ?name \<le> length u) (filter (\<lambda>u. length name \<le> length u) used)"
    by (simp, rule filter_cong) auto
  moreover have "length (filter (\<lambda>u. length ?name \<le> length u) (filter (\<lambda>u. length name \<le> length u) used))
      < length (filter (\<lambda>u. length name \<le> length u) used)"
    using in_used by (intro length_filter_less [of name]) auto
  ultimately show "((?name, used, i), (name, used, i))
      \<in> measure (\<lambda>(name, used, i). length (filter (\<lambda>u. length name \<le> length u) used))"
    by simp
qed simp

declare unique_dest_name.simps [simp del]

definition stale_zips :: "path \<Rightarrow> tree \<Rightarrow> path list" where
  "stale_zips target t = filter (\<lambda>q. q \<noteq> [] \<and> butlast q = target \<and> endswith (last q) ''.zip'') (dict_keys t)"

fun unlink_all :: "path list \<Rightarrow> unit fetch" where
  "unlink_all [] = ok ()"
| "unlink_all (p # ps) = seq (os_step (unlink_missing_ok p)) (\<lambda>_. unlink_all ps)"

definition copy_module :: "denv \<Rightarrow> path \<Rightarrow> path \<Rightarrow> tree \<Rightarrow> tree option" where
  "copy_module env src dst t = (if src = dst then None
     else Option.bind (read_bytes src t) (\<lambda>c. if d_room env dst c then write_text dst c t else None))"

fun stage_modules :: "menv \<Rightarrow> path \<Rightarrow> nat \<Rightarrow> string list \<Rightarrow> module list \<Rightarrow> path list fetch" where
  "stage_modules env rdir i used [] = ok []"
| "stage_modules env rdir i used (m # ms) =
     seq (resolve_module env m rdir) (\<lambda>src.
       let name = unique_dest_name (if src = [] then [] else last src) used i;
           dst = instance_modules rdir @ [name]
       in seq (os_step (copy_module (m_denv env) src dst)) (\<lambda>_.
          seq (stage_modules env rdir (Suc i) (used @ [name]) ms) (\<lambda>staged. ok (dst # staged))))"

definition modules_stage_for_instance :: "menv \<Rightarrow> path \<Rightarrow> module list \<Rightarrow> path list fetch" where
  "modules_stage_for_instance env rdir ms =
     seq (os_step (mkdir_parents (instance_modules rdir))) (\<lambda>_.
     seq (\<lambda>t. unlink_all (stale_zips (instance_modules rdir) t) t) (\<lambda>_.
     stage_modules env rdir 0 [] ms))"

end
