(* ===== verification/Operations.thy ===== *)
theory Operations
  imports Compose Frida_Download Modules_Download Snapshot
begin

text \<open>
  The operations of an \<open>Instance\<close> object after it exists (\<open>api.py\<close>): starting, stopping, applying an
  edited configuration, resetting its data, adding a module, staging downloads. The state is that of
  \<open>Instances\<close> with the docker calls made and the object itself: its configuration and its memoised
  index. A download that does not return is the outcome \<open>OpHangs\<close>.
\<close>

section \<open>State\<close>

record device =
  dev_name :: string
  dev_root :: path
  dev_cfg :: instance_config
  dev_index :: "int option"

record ostate =
  inst :: istate
  ocalls :: "string list list"
  obj :: device

record 'd oenv =
  o_io :: io
  o_cenv :: cenv
  o_menv :: menv
  o_host :: fhost
  o_lz :: "'d lzma"

datatype op_error =
    OpInst inst_error
  | OpCompose compose_error
  | OpFetch fetch_error
  | OpValue
  | OpHangs

type_synonym 'a op = "ostate \<Rightarrow> (op_error + 'a) \<times> ostate"

definition on_inst :: "(istate \<Rightarrow> (inst_error + 'a) \<times> istate) \<Rightarrow> 'a op" where
  "on_inst c st = (case c (inst st) of
     (Inl e, i) \<Rightarrow> (Inl (OpInst e), st\<lparr>inst := i\<rparr>) | (Inr a, i) \<Rightarrow> (Inr a, st\<lparr>inst := i\<rparr>))"

definition with_tree :: "ostate \<Rightarrow> tree \<Rightarrow> ostate" where
  "with_tree st t = st\<lparr>inst := (inst st)\<lparr>tree := t\<rparr>\<rparr>"

definition on_files :: "'a fetch \<Rightarrow> 'a op" where
  "on_files c st = (case c (tree (inst st)) of
     (Inl e, t) \<Rightarrow> (Inl (OpFetch e), with_tree st t) | (Inr a, t) \<Rightarrow> (Inr a, with_tree st t))"

definition on_download :: "(tree \<Rightarrow> ((fetch_error + 'a) \<times> tree) option) \<Rightarrow> 'a op" where
  "on_download c st = (case c (tree (inst st)) of
     None \<Rightarrow> (Inl OpHangs, st) | Some res \<Rightarrow> on_files (\<lambda>_. res) st)"

definition on_compose :: "'a compose \<Rightarrow> 'a op" where
  "on_compose c st = (case c \<lparr>ctree = tree (inst st), calls = ocalls st\<rparr> of
     (Inl e, cs) \<Rightarrow> (Inl (OpCompose e), st\<lparr>ocalls := calls cs\<rparr>) | (Inr a, cs) \<Rightarrow> (Inr a, st\<lparr>ocalls := calls cs\<rparr>))"

text \<open>A method reads its object first; the body of a later statement reads it again.\<close>

definition on_self :: "(device \<Rightarrow> 'a op) \<Rightarrow> 'a op" where
  "on_self k st = k (obj st) st"

section \<open>Rows and ports\<close>

definition meta_of :: "'d oenv \<Rightarrow> instance_meta op" where
  "meta_of env = on_self (\<lambda>self.
     seq (on_inst (with_registry (o_io env) (get (io_pyd (o_io env)) (dev_name self)))) (\<lambda>row.
     case row of None \<Rightarrow> fail (OpInst (NotFound (dev_name self))) | Some m \<Rightarrow> ok m))"

definition memo_index :: "int \<Rightarrow> int op" where
  "memo_index i st = (Inr i, st\<lparr>obj := (obj st)\<lparr>dev_index := Some i\<rparr>\<rparr>)"

text \<open>A \<open>cached_property\<close>: an exception is not remembered.\<close>

definition index_of :: "'d oenv \<Rightarrow> int op" where
  "index_of env = on_self (\<lambda>self. case dev_index self of
     Some i \<Rightarrow> ok i | None \<Rightarrow> seq (meta_of env) (\<lambda>m. memo_index (index m)))"

definition resolve_all :: "int \<Rightarrow> instance_config \<Rightarrow> resolved_port list op" where
  "resolve_all i cfg st = (case resolve_ports i (ports cfg) False of
     Inl e \<Rightarrow> (Inl (OpInst (PortsErr e)), st)
   | Inr (ps, notes) \<Rightarrow> (Inr ps, st\<lparr>inst := (inst st)\<lparr>reg := fold note_world notes (reg (inst st))\<rparr>\<rparr>))"

definition check_port_collisions :: "'d oenv \<Rightarrow> string \<Rightarrow> resolved_port list \<Rightarrow> unit op" where
  "check_port_collisions env name new_ports =
     on_inst (with_registry (o_io env) (assert_no_port_collision (io_pyd (o_io env)) name new_ports))"

section \<open>Staging\<close>

definition stage_local_op :: "'d oenv \<Rightarrow> unit op" where
  "stage_local_op env = on_self (\<lambda>self. on_inst (stage_local (o_io env) (dev_name self) (dev_root self) (dev_cfg self)))"

definition binder_text :: "binder_mode \<Rightarrow> string" where
  "binder_text b = (case b of BinderAuto \<Rightarrow> ''auto'' | BinderHost \<Rightarrow> ''host'' | BinderVm \<Rightarrow> ''vm'')"

definition stage_frida :: "'d oenv \<Rightarrow> path \<Rightarrow> string \<Rightarrow> string option \<Rightarrow> binder_mode \<Rightarrow> path op" where
  "stage_frida env rdir ver sha b = on_download
     (frida_stage_for_instance (m_denv (o_menv env)) (m_paths (o_menv env)) (o_host env) (o_lz env) rdir ver sha (binder_text b))"

definition stage_network :: "'d oenv \<Rightarrow> unit op" where
  "stage_network env = on_self (\<lambda>self.
     seq (case frida (dev_cfg self) of
            None \<Rightarrow> ok ()
          | Some f \<Rightarrow> seq (stage_frida env (dev_root self) (frida_version f) (frida_sha256 f) (binder_mode (dev_cfg self)))
              (\<lambda>_. ok ())) (\<lambda>_.
     seq (on_files (modules_stage_for_instance (o_menv env) (dev_root self) (modules (dev_cfg self)))) (\<lambda>_. ok ())))"

definition stage_network_soft :: "'d oenv \<Rightarrow> unit op" where
  "stage_network_soft env st = (case stage_network env st of
     (Inl OpHangs, st') \<Rightarrow> (Inl OpHangs, st') | (_, st') \<Rightarrow> (Inr (), st'))"

definition install_frida :: "'d oenv \<Rightarrow> string option \<Rightarrow> unit op" where
  "install_frida env ver = on_self (\<lambda>self.
     case (case ver of Some v \<Rightarrow> Some v | None \<Rightarrow> map_option frida_version (frida (dev_cfg self))) of
       None \<Rightarrow> fail OpValue
     | Some v \<Rightarrow> seq (stage_frida env (dev_root self) v None (binder_mode (dev_cfg self))) (\<lambda>_. ok ()))"

section \<open>Lifecycle\<close>

definition needs_restage :: "path \<Rightarrow> tree \<Rightarrow> bool" where
  "needs_restage rdir t \<longleftrightarrow> \<not> is_file_at (instance_compose_override rdir) t \<or> \<not> is_file_at (instance_env rdir) t"

definition self_heal :: "'d oenv \<Rightarrow> unit op" where
  "self_heal env = on_self (\<lambda>self st.
     if needs_restage (dev_root self) (tree (inst st))
     then seq (index_of env) (\<lambda>i.
          seq (resolve_all i (dev_cfg self)) (\<lambda>new_ports.
          seq (check_port_collisions env (dev_name self) new_ports) (\<lambda>_.
          stage_local_op env))) st
     else (Inr (), st))"

definition up :: "'d oenv \<Rightarrow> unit op" where
  "up env = seq (self_heal env) (\<lambda>_.
     on_self (\<lambda>self. on_compose (compose_up (o_cenv env) (dev_name self) (dev_root self))))"

definition down :: "'d oenv \<Rightarrow> unit op" where
  "down env = on_self (\<lambda>self. on_compose (compose_down (o_cenv env) (dev_name self) (dev_root self) False))"

definition restart :: "'d oenv \<Rightarrow> unit op" where
  "restart env = seq (down env) (\<lambda>_. up env)"

definition set_cfg :: "instance_config \<Rightarrow> unit op" where
  "set_cfg cfg st = (Inr (), st\<lparr>obj := (obj st)\<lparr>dev_cfg := cfg\<rparr>\<rparr>)"

definition reconcile_op :: "'d oenv \<Rightarrow> bool op" where
  "reconcile_op env = on_self (\<lambda>self. on_inst (with_registry (o_io env)
     (reconcile_backend_kind (io_pyd (o_io env)) (dev_name self) (binder_mode (dev_cfg self)))))"

definition warn_inert_op :: "unit op" where
  "warn_inert_op st = (Inr (), st\<lparr>inst := (inst st)\<lparr>reg := (reg (inst st))\<lparr>loads :=
     warn_inert_fields (dev_cfg (obj st)) (dev_name (obj st)) (loads (reg (inst st)))\<rparr>\<rparr>\<rparr>)"

text \<open>\<open>apply\<close> up to the collision check, up to the network stage, and the whole.\<close>

definition reload :: "'d oenv \<Rightarrow> unit op" where
  "reload env = on_self (\<lambda>self.
     seq (on_inst (load_config (o_io env) (dev_root self))) (\<lambda>cfg.
     seq (set_cfg cfg) (\<lambda>_.
     seq (index_of env) (\<lambda>i.
     seq (resolve_all i cfg) (\<lambda>new_ports.
     check_port_collisions env (dev_name self) new_ports)))))"

definition apply_local :: "'d oenv \<Rightarrow> unit op" where
  "apply_local env = seq (reload env) (\<lambda>_. seq (stage_local_op env) (\<lambda>_. seq (reconcile_op env) (\<lambda>_. ok ())))"

definition apply_op :: "'d oenv \<Rightarrow> unit op" where
  "apply_op env = seq (apply_local env) (\<lambda>_. seq (stage_network env) (\<lambda>_. warn_inert_op))"

text \<open>\<open>shutil.rmtree\<close> of a file raises.\<close>

definition wipe_data :: "path \<Rightarrow> tree \<Rightarrow> tree option" where
  "wipe_data data t =
     (if is_file_at data t then None
      else mkdir_parents data (if exists_at data t then rmtree data t else t))"

definition reset :: "'d oenv \<Rightarrow> bool \<Rightarrow> unit op" where
  "reset env yes = (if \<not> yes then fail OpValue else on_self (\<lambda>self.
     seq (on_files (os_step (touch_lock (dev_root self)))) (\<lambda>_.
     seq (down env) (\<lambda>_.
     on_files (os_step (wipe_data (instance_data (dev_root self))))))))"

section \<open>Modules\<close>

definition module_for :: "string \<Rightarrow> string option \<Rightarrow> module" where
  "module_for source sha =
     (if allowed_scheme source then \<lparr>module_url = Some source, module_path = None, module_sha256 = sha\<rparr>
      else \<lparr>module_url = None, module_path = Some source, module_sha256 = sha\<rparr>)"

definition save_yaml :: "'d oenv \<Rightarrow> unit op" where
  "save_yaml env = on_self (\<lambda>self. on_files (
     seq (os_step (mkdir_parents (dev_root self))) (\<lambda>_.
     os_step (write_text (yaml_path (dev_root self)) (io_dump (o_io env) (PDict (dump_config_fields (dev_cfg self))))))))"

definition with_module :: "string \<Rightarrow> string option \<Rightarrow> instance_config \<Rightarrow> instance_config" where
  "with_module source sha cfg = cfg\<lparr>modules := modules cfg @ [module_for source sha]\<rparr>"

definition add_module :: "'d oenv \<Rightarrow> string \<Rightarrow> string option \<Rightarrow> unit op" where
  "add_module env source sha =
     (if \<not> module_ok (module_for source sha) then fail OpValue
      else on_self (\<lambda>self. let transient = with_module source sha (dev_cfg self) in
        seq (on_files (modules_stage_for_instance (o_menv env) (dev_root self) (modules transient))) (\<lambda>_.
        seq (set_cfg transient) (\<lambda>_.
        save_yaml env))))"

end
