(* ===== verification/Frida_Props.thy ===== *)
theory Frida_Props
  imports Frida_Download
begin

text \<open>
  The frida cache and the staged binary: the download loop ends, what it writes is what the
  decompressor made of the response, checksums are enforced, and a failure never costs a binary
  that works.
\<close>

section \<open>The loop\<close>

text \<open>What a decompressor makes of a sequence of chunks, without disk and ceiling.\<close>

inductive decodes :: "'d lzma \<Rightarrow> 'd \<Rightarrow> string list \<Rightarrow> string \<Rightarrow> bool" where
  decodes_eof: "lz_eof lz d \<Longrightarrow> decodes lz d cs []"
| decodes_feed: "\<not> lz_eof lz d \<Longrightarrow> lz_needs_input lz d \<Longrightarrow> c \<noteq> []
    \<Longrightarrow> lz_decompress lz d c CHUNK_SIZE = Some (piece, d') \<Longrightarrow> decodes lz d' cs out \<Longrightarrow> decodes lz d (c # cs) (piece @ out)"
| decodes_drain: "\<not> lz_eof lz d \<Longrightarrow> \<not> lz_needs_input lz d
    \<Longrightarrow> lz_decompress lz d [] CHUNK_SIZE = Some (piece, d') \<Longrightarrow> decodes lz d' cs out \<Longrightarrow> decodes lz d cs (piece @ out)"

text \<open>\<open>needs_input\<close> is false only while the decompressor can give more output without new input.\<close>

definition lz_progress :: "'d lzma \<Rightarrow> bool" where
  "lz_progress lz \<longleftrightarrow> (\<forall>d piece d'. \<not> lz_eof lz d \<longrightarrow> \<not> lz_needs_input lz d
     \<longrightarrow> lz_decompress lz d [] CHUNK_SIZE = Some (piece, d') \<longrightarrow> piece \<noteq> [] \<or> lz_needs_input lz d' \<or> lz_eof lz d')"

lemma next_chunk_Inr: "next_chunk cs stop = Inr (c, rest) \<longleftrightarrow> c \<noteq> [] \<and> cs = c # rest"
  by (auto simp: next_chunk_def split: list.splits option.splits if_splits)

definition pump_measure :: "'d lzma \<Rightarrow> (('d \<times> string list \<times> int) \<times> 'd \<times> string list \<times> int) set" where
  "pump_measure lz = measures [\<lambda>(d, cs, n). length cs, \<lambda>(d, cs, n). nat (FRIDA_MAX_BYTES - n),
     \<lambda>(d, cs, n). if lz_needs_input lz d \<or> lz_eof lz d then 0 else 1]"

lemma pump_decreases:
  assumes "lz_progress lz" and "\<not> lz_eof lz d"
    and "(if lz_needs_input lz d then next_chunk cs stop else Inr ([], cs)) = Inr (c, rest)"
    and "lz_decompress lz d c CHUNK_SIZE = Some (piece, d')"
    and "\<not> n + int (length piece) > FRIDA_MAX_BYTES"
  shows "((d', rest, n + int (length piece)), (d, cs, n)) \<in> pump_measure lz"
  using assms
  by (cases "lz_needs_input lz d"; cases piece) (auto simp: pump_measure_def next_chunk_Inr lz_progress_def)

lemma pump_returns:
  fixes lz :: "'d lzma"
  assumes "lz_progress lz"
  shows "\<exists>res. pump env lz tmp stop d cs n t = Some res"
proof -
  have "wf (pump_measure lz)" by (simp add: pump_measure_def)
  then have "\<exists>res. (case x of (d, cs, n) \<Rightarrow> pump env lz tmp stop d cs n t) = Some res" for x
  proof (induction x arbitrary: t rule: wf_induct_rule)
    case (less x)
    obtain d cs n where x: "x = (d, cs, n)" by (cases x)
    note IH = less.IH [unfolded x, of "(d', cs', n')" for d' cs' n', simplified]
    show ?case
    proof (cases "lz_eof lz d")
      case False
      show ?thesis
      proof (cases "if lz_needs_input lz d then next_chunk cs stop else Inr ([], cs)")
        case (Inr fr)
        obtain c rest where fr: "fr = (c, rest)" by (cases fr)
        show ?thesis
        proof (cases "lz_decompress lz d c CHUNK_SIZE")
          case (Some pd)
          obtain piece d' where pd: "pd = (piece, d')" by (cases pd)
          show ?thesis
            using False Inr fr Some pd IH [OF pump_decreases [OF assms False Inr [unfolded fr] Some [unfolded pd]]]
            by (simp add: x pump.simps [of env lz tmp stop d] split: option.split)
        qed (use False Inr fr in \<open>simp add: x pump.simps [of env lz tmp stop d]\<close>)
      qed (use False in \<open>simp add: x pump.simps [of env lz tmp stop d]\<close>)
    qed (simp add: x pump.simps)
  qed
  from this [of "(d, cs, n)"] show ?thesis by simp
qed

lemma pump_step:
  assumes "(if lz_eof lz d then Some (Inr (), t)
      else (case (if lz_needs_input lz d then next_chunk cs stop else Inr ([], cs)) of
          Inl e \<Rightarrow> Some (Inl e, t)
        | Inr (to_feed, rest) \<Rightarrow> (case lz_decompress lz d to_feed CHUNK_SIZE of
            None \<Rightarrow> Some (Inl Bad_payload, t)
          | Some (piece, d') \<Rightarrow>
              if n + int (length piece) > FRIDA_MAX_BYTES then Some (Inl Over_ceiling, t)
              else (case append_file env tmp piece t of
                  None \<Rightarrow> Some (Inl (Raised OsErr), t)
                | Some t' \<Rightarrow> again d' rest (n + int (length piece)) t')))) = Some y"
  obtains (eof) "lz_eof lz d" "y = (Inr (), t)"
  | (raised) e where "y = (Inl e, t)"
  | (again) c rest piece d' t1 where "\<not> lz_eof lz d"
      "if lz_needs_input lz d then c \<noteq> [] \<and> cs = c # rest else c = [] \<and> rest = cs"
      "lz_decompress lz d c CHUNK_SIZE = Some (piece, d')" "n + int (length piece) \<le> FRIDA_MAX_BYTES"
      "append_file env tmp piece t = Some t1" "again d' rest (n + int (length piece)) t1 = Some y"
  using assms
  by (cases "lz_needs_input lz d")
    (auto simp: next_chunk_Inr split: if_splits sum.splits option.splits prod.splits)

definition pumped :: "'d lzma \<Rightarrow> path \<Rightarrow> 'd \<Rightarrow> string list \<Rightarrow> int \<Rightarrow> tree \<Rightarrow> (fetch_error + unit) \<times> tree \<Rightarrow> bool" where
  "pumped lz tmp d cs n t y \<longleftrightarrow> (\<forall>got. dict_get t tmp = Some (File got) \<longrightarrow> n = int (length got) \<longrightarrow> n \<le> FRIDA_MAX_BYTES \<longrightarrow>
     (\<forall>q. q \<noteq> tmp \<longrightarrow> dict_get (snd y) q = dict_get t q) \<and> (\<exists>c. dict_get (snd y) tmp = Some (File c))
     \<and> (\<forall>u. fst y = Inr u \<longrightarrow> (\<exists>out. dict_get (snd y) tmp = Some (File (got @ out)) \<and> decodes lz d cs out
          \<and> int (length (got @ out)) \<le> FRIDA_MAX_BYTES)))"

lemma pumped_again:
  assumes "\<not> lz_eof lz d" "if lz_needs_input lz d then c \<noteq> [] \<and> cs = c # rest else c = [] \<and> rest = cs"
    and "lz_decompress lz d c CHUNK_SIZE = Some (piece, d')" "n + int (length piece) \<le> FRIDA_MAX_BYTES"
    and "append_file env tmp piece t = Some t1" "pumped lz tmp d' rest (n + int (length piece)) t1 y"
  shows "pumped lz tmp d cs n t y"
  unfolding pumped_def
proof (intro allI impI)
  fix got assume got: "dict_get t tmp = Some (File got)" "n = int (length got)" "n \<le> FRIDA_MAX_BYTES"
  then have t1: "dict_get t1 tmp = Some (File (got @ piece))" "\<forall>q. q \<noteq> tmp \<longrightarrow> dict_get t1 q = dict_get t q"
    using assms(5) by (auto simp: append_file_spec)
  have dec: "decodes lz d cs (piece @ out)" if "decodes lz d' rest out" for out
    using that assms(1,2,3) by (auto intro: decodes_feed decodes_drain split: if_splits)
  have IH: "\<forall>q. q \<noteq> tmp \<longrightarrow> dict_get (snd y) q = dict_get t1 q" "\<exists>c. dict_get (snd y) tmp = Some (File c)"
    "\<forall>u. fst y = Inr u \<longrightarrow> (\<exists>out. dict_get (snd y) tmp = Some (File ((got @ piece) @ out)) \<and> decodes lz d' rest out
          \<and> int (length ((got @ piece) @ out)) \<le> FRIDA_MAX_BYTES)"
    using assms(6) [unfolded pumped_def, rule_format, OF t1(1)] got(2) assms(4) by simp_all
  have "\<exists>out. dict_get (snd y) tmp = Some (File (got @ out)) \<and> decodes lz d cs out
          \<and> int (length (got @ out)) \<le> FRIDA_MAX_BYTES" if u: "fst y = Inr u" for u
  proof -
    obtain out where "dict_get (snd y) tmp = Some (File ((got @ piece) @ out))" "decodes lz d' rest out"
      "int (length ((got @ piece) @ out)) \<le> FRIDA_MAX_BYTES" using IH(3) u by blast
    then show ?thesis using dec by (intro exI [of _ "piece @ out"]) simp
  qed
  then show "(\<forall>q. q \<noteq> tmp \<longrightarrow> dict_get (snd y) q = dict_get t q) \<and> (\<exists>c. dict_get (snd y) tmp = Some (File c))
     \<and> (\<forall>u. fst y = Inr u \<longrightarrow> (\<exists>out. dict_get (snd y) tmp = Some (File (got @ out)) \<and> decodes lz d cs out
          \<and> int (length (got @ out)) \<le> FRIDA_MAX_BYTES))"
    using IH(1,2) t1(2) by simp
qed

lemma pump_pumped:
  assumes "pump env lz tmp stop d cs n t = Some y"
  shows "pumped lz tmp d cs n t y"
  using _ assms
proof (rule pump.raw_induct [where P = "\<lambda>env lz tmp stop d cs n t y. pumped lz tmp d cs n t y"])
  fix again :: "denv \<Rightarrow> 'a lzma \<Rightarrow> path \<Rightarrow> raised option \<Rightarrow> 'a \<Rightarrow> string list \<Rightarrow> int \<Rightarrow> tree
    \<Rightarrow> ((fetch_error + unit) \<times> tree) option"
    and env and lz :: "'a lzma" and tmp stop d cs n t y
  assume IH: "\<And>env lz tmp stop d cs n t y. again env lz tmp stop d cs n t = Some y \<Longrightarrow> pumped lz tmp d cs n t y"
  assume "(if lz_eof lz d then Some (Inr (), t)
      else (case (if lz_needs_input lz d then next_chunk cs stop else Inr ([], cs)) of
          Inl e \<Rightarrow> Some (Inl e, t)
        | Inr (to_feed, rest) \<Rightarrow> (case lz_decompress lz d to_feed CHUNK_SIZE of
            None \<Rightarrow> Some (Inl Bad_payload, t)
          | Some (piece, d') \<Rightarrow>
              if n + int (length piece) > FRIDA_MAX_BYTES then Some (Inl Over_ceiling, t)
              else (case append_file env tmp piece t of
                  None \<Rightarrow> Some (Inl (Raised OsErr), t)
                | Some t' \<Rightarrow> again env lz tmp stop d' rest (n + int (length piece)) t')))) = Some y"
  then show "pumped lz tmp d cs n t y"
  proof (cases rule: pump_step)
    case (again c rest piece d' t1)
    show ?thesis by (rule pumped_again [OF again(1-5)], rule IH, rule again(6))
  qed (auto simp: pumped_def intro: decodes_eof)
qed

declare pump.simps [code]

section \<open>The cache\<close>

definition frida_payload :: "denv \<Rightarrow> 'd lzma \<Rightarrow> string \<Rightarrow> string \<Rightarrow> bool" where
  "frida_payload env lz url c \<longleftrightarrow> int (length c) \<le> FRIDA_MAX_BYTES \<and> (case d_net env url of
     Refused _ \<Rightarrow> False | Opened _ cs _ \<Rightarrow> decodes lz (lz_new lz) cs c)"

lemma fetch_frida_spec:
  assumes "fetch_frida env lz url tmp t = Some (r, t')" and "dict_get t tmp = Some (File [])"
  shows "(\<forall>q. q \<noteq> tmp \<longrightarrow> dict_get t' q = dict_get t q) \<and> (\<exists>c. dict_get t' tmp = Some (File c))
    \<and> (\<forall>u. r = Inr u \<longrightarrow> (\<exists>c. dict_get t' tmp = Some (File c) \<and> frida_payload env lz url c))"
proof (cases "d_net env url")
  case (Opened raw cs stop)
  show ?thesis
  proof (cases "total_raises raw")
    case False
    then have "pump env lz tmp stop (lz_new lz) cs 0 t = Some (r, t')"
      using assms(1) Opened by (simp add: fetch_frida_def)
    from pump_pumped [OF this] show ?thesis
      using assms(2) Opened by (auto simp: pumped_def frida_payload_def FRIDA_MAX_BYTES_def)
  qed (use assms Opened in \<open>auto simp: fetch_frida_def\<close>)
qed (use assms in \<open>auto simp: fetch_frida_def\<close>)

lemma fetch_frida_returns: "lz_progress lz \<Longrightarrow> \<exists>res. fetch_frida env lz url tmp t = Some res"
  using pump_returns [of lz env tmp] by (simp add: fetch_frida_def split: response.split)

definition frida_body :: "denv \<Rightarrow> 'd lzma \<Rightarrow> string \<Rightarrow> path \<Rightarrow> path \<Rightarrow> unit fetch" where
  "frida_body env lz url out tmp t = (case fetch_frida env lz url tmp t of
     None \<Rightarrow> (Inl Mid_stream, t) | Some (r, t1) \<Rightarrow> seq (give r) (\<lambda>_. os_step (replace_file tmp out)) t1)"

lemma frida_body_staged: "staged_body (frida_body env lz url out) out (\<lambda>_. frida_payload env lz url)"
  unfolding staged_body_def
proof (intro allI impI)
  fix tmp t r t' assume t: "dict_get t tmp = Some (File [])" and b: "frida_body env lz url out tmp t = (r, t')"
  show "(\<exists>e c. r = Inl e \<and> dict_get t' tmp = Some (File c) \<and> (\<forall>q. q \<noteq> tmp \<longrightarrow> dict_get t' q = dict_get t q))
     \<or> (\<exists>v c. r = Inr v \<and> frida_payload env lz url c
          \<and> (\<forall>q. dict_get t' q = (if q = out then Some (File c) else if q = tmp then None else dict_get t q)))"
  proof (cases "fetch_frida env lz url tmp t")
    case None
    then show ?thesis using b t by (auto simp: frida_body_def)
  next
    case (Some res)
    obtain r1 t1 where res: "res = (r1, t1)" by (cases res)
    note f = fetch_frida_spec [OF Some [unfolded res] t]
    from b Some res consider e where "r1 = Inl e" "r = Inl e" "t' = t1"
      | u where "r1 = Inr u" "os_step (replace_file tmp out) t1 = (r, t')"
      by (auto simp: frida_body_def statement_iffs)
    then show ?thesis
    proof cases
      case (2 u)
      then obtain c where c: "dict_get t1 tmp = Some (File c)" "frida_payload env lz url c" using f by blast
      then show ?thesis using 2 f by (auto simp: os_step_def attempt_iff replace_file_spec)
    qed (use f in auto)
  qed
qed

lemma download_spec:
  assumes "download env pe h lz version expected arch t = Some (r, t')"
  defines "out \<equiv> cached_binary pe h version arch" and "url \<equiv> frida_release_url h version arch"
  obtains (hit) "has_content out t" "seq (check_sha256 env out expected) (\<lambda>_. ok out) t = (r, t')"
  | (mkdir) e where "\<not> has_content out t" "r = Inl e" "t' = t"
  | (failed) e t1 where "\<not> has_content out t" "mkdir_parents (butlast out) t = Some t1" "r = Inl e"
      "\<And>q. dict_get t' q = dict_get t1 q"
  | (fetched) c t1 t2 where "\<not> has_content out t" "mkdir_parents (butlast out) t = Some t1"
      "frida_payload env lz url c" "\<And>q. dict_get t2 q = (if q = out then Some (File c) else dict_get t1 q)"
      "seq (check_sha256 env out expected) (\<lambda>_. ok out) t2 = (r, t')"
proof (cases "has_content out t")
  case True
  then show ?thesis using assms(1) hit by (simp add: download_def out_def Let_def)
next
  case False
  then have dl: "(case seq (os_step (mkdir_parents (butlast out))) (\<lambda>_. mkstemp env (butlast out)) t of
          (Inl e, t1) \<Rightarrow> Some (Inl e, t1)
        | (Inr tmp, t1) \<Rightarrow> (case fetch_frida env lz url tmp t1 of
            None \<Rightarrow> None
          | Some res \<Rightarrow> (case frida_publish tmp out res of
              (Inl e, t2) \<Rightarrow> Some (Inl e, t2)
            | (Inr _, t2) \<Rightarrow> Some (seq (check_sha256 env out expected) (\<lambda>_. ok out) t2)))) = Some (r, t')"
    using assms(1) unfolding download_def out_def url_def Let_def by simp
  show ?thesis
  proof (cases "mkdir_parents (butlast out) t")
    case None
    then have "(r, t') = (Inl (Raised OsErr), t)" using dl by (simp add: os_step_def seq_def attempt_def)
    then show ?thesis using False by (intro mkdir) simp_all
  next
    case (Some t1)
    obtain m t2 where m: "mkstemp env (butlast out) t1 = (m, t2)" by fastforce
    obtain b t3 where b: "through_temp env (butlast out) (frida_body env lz url out) t1 = (b, t3)" by fastforce
    have first: "seq (os_step (mkdir_parents (butlast out))) (\<lambda>_. mkstemp env (butlast out)) t = (m, t2)"
      using Some m by (simp add: os_step_def seq_def attempt_def)
    have run: "(\<exists>e. b = Inl e \<and> r = Inl e \<and> t' = t3)
        \<or> (\<exists>u. b = Inr u \<and> seq (check_sha256 env out expected) (\<lambda>_. ok out) t3 = (r, t'))"
    proof (cases m)
      case (Inl e)
      then have "b = Inl e" "t3 = t2" using b m by (simp_all add: through_temp_def seq_def)
      then show ?thesis using dl first Inl by simp
    next
      case (Inr tmp)
      with dl first obtain res where res: "fetch_frida env lz url tmp t2 = Some res" by (auto split: option.splits)
      obtain r1 u where ru: "res = (r1, u)" by (cases res)
      have "frida_body env lz url out tmp t2 = seq (give r1) (\<lambda>_. os_step (replace_file tmp out)) u"
        using res ru by (simp add: frida_body_def)
      then have "on_error (frida_body env lz url out tmp) (os_step (unlink_missing_ok tmp)) t2 = frida_publish tmp out res"
        by (simp add: on_error_def frida_publish_def ru)
      then have "frida_publish tmp out res = (b, t3)"
        using b m Inr by (simp add: through_temp_def seq_def)
      then show ?thesis using dl first Inr res by (cases b) simp_all
    qed
    from b frida_body_staged show ?thesis
    proof (rule through_temp_spec)
      fix e assume "b = Inl e" "\<And>q. dict_get t3 q = dict_get t1 q"
      then show ?thesis using run False Some by (intro failed [of t1 e]) simp_all
    next
      fix v c assume "b = Inr v" "frida_payload env lz url c"
        "\<And>q. dict_get t3 q = (if q = out then Some (File c) else dict_get t1 q)"
      then show ?thesis using run False Some by (intro fetched [of t1 c t3]) simp_all
    qed
  qed
qed

lemma check_sha256_iff: "seq (check_sha256 env p expected) (\<lambda>_. ok p) t = (r, t') \<longleftrightarrow>
    (r = Inr p \<and> t' = t \<and> (\<forall>want. expected = Some want \<longrightarrow>
        (\<exists>c. dict_get t p = Some (File c) \<and> lower (d_sha256 env c) = lower want)))
    \<or> (\<exists>want. expected = Some want \<and> ((\<forall>c. dict_get t p \<noteq> Some (File c)) \<and> r = Inl (Raised OsErr) \<and> t' = t
        \<or> (\<exists>c. dict_get t p = Some (File c) \<and> lower (d_sha256 env c) \<noteq> lower want
            \<and> r = Inl (Sha_mismatch (lower want) (lower (d_sha256 env c))) \<and> t' = dict_pop p t)))"
  by (cases expected; cases "dict_get t p"; cases "the (dict_get t p)")
    (auto simp: check_sha256_def read_bytes_def statement_iffs split: node.splits)

lemma no_content: "\<not> has_content p t \<Longrightarrow> dict_get t p = Some (File []) \<or> dict_get t p = None"
  by (auto simp: has_content_def split: option.splits node.splits)

text \<open>A decompressor that passes one chunk through and ends.\<close>

definition plain :: "bool lzma" where
  "plain = \<lparr>lz_new = False, lz_eof = (\<lambda>d. d), lz_needs_input = (\<lambda>_. True),
     lz_decompress = (\<lambda>_ c _. Some (c, True))\<rparr>"

definition demo_host :: fhost where
  "demo_host = \<lparr>which_frida = True, frida_cli = Some (''16.4.10'' @ NL), machine = ''x86_64'', arch_env = None,
     settings_arch = ''android-x86_64'', latest_redirect = Inl UrlErr\<rparr>"

definition demo_paths :: penv where
  "demo_paths = \<lparr>user_cache_path = ''/c'', user_config_path = ''/d'', home = [''h'']\<rparr>"

lemma plain_progress: "lz_progress plain"
  by (simp add: lz_progress_def plain_def)



lemma frida_download_facts:
  assumes "download env pe h lz version expected arch t = Some (r, t')"
  defines "out \<equiv> cached_binary pe h version arch"
  shows "only_changes {out} t t'"
    and "r = Inr p \<Longrightarrow> p = out
      \<and> (\<forall>want. expected = Some want \<longrightarrow> (\<exists>c. dict_get t' out = Some (File c) \<and> lower (d_sha256 env c) = lower want))
      \<and> (if has_content out t then t' = t
         else (\<exists>c. dict_get t' out = Some (File c) \<and> frida_payload env lz (frida_release_url h version arch) c))"
    and "r = Inl e \<Longrightarrow> dict_get t' out = dict_get t out
      \<or> (\<exists>want got. e = Sha_mismatch want got) \<and> dict_get t' out = None"
    and "expected = Some want \<Longrightarrow> dict_get t out = Some (File c) \<Longrightarrow> c \<noteq> []
      \<Longrightarrow> lower (d_sha256 env c) \<noteq> lower want \<Longrightarrow> dict_get t' out = None"
proof -
  have sub: "only_changes {out} t t2"
    if "mkdir_parents (butlast out) t = Some t1" "\<And>q. q \<noteq> out \<Longrightarrow> dict_get t2 q = dict_get t1 q" for t1 t2
    using only_changes_frame [OF mkdir_only_changes [OF that(1), of "{}"]] that(2) by simp
  note spec = download_spec [OF assms(1), folded out_def]
  show "only_changes {out} t t'"
  proof (rule spec)
    assume "seq (check_sha256 env out expected) (\<lambda>_. ok out) t = (r, t')"
    then show ?thesis by (auto simp: check_sha256_iff only_changes_def)
  next
    fix c t1 t2 assume t1: "mkdir_parents (butlast out) t = Some t1"
      and t2: "\<And>q. dict_get t2 q = (if q = out then Some (File c) else dict_get t1 q)"
      and "seq (check_sha256 env out expected) (\<lambda>_. ok out) t2 = (r, t')"
    then have "t' = t2 \<or> t' = dict_pop out t2" by (auto simp: check_sha256_iff)
    then show ?thesis using t2 by (auto intro!: sub [OF t1])
  qed (auto intro: sub)
  show "r = Inr p \<Longrightarrow> p = out
      \<and> (\<forall>want. expected = Some want \<longrightarrow> (\<exists>c. dict_get t' out = Some (File c) \<and> lower (d_sha256 env c) = lower want))
      \<and> (if has_content out t then t' = t
         else (\<exists>c. dict_get t' out = Some (File c) \<and> frida_payload env lz (frida_release_url h version arch) c))"
    by (rule spec) (auto simp: check_sha256_iff)
  show "r = Inl e \<Longrightarrow> dict_get t' out = dict_get t out
      \<or> (\<exists>want got. e = Sha_mismatch want got) \<and> dict_get t' out = None"
    by (rule spec) (auto simp: check_sha256_iff mkdir_butlast_get)
  show "dict_get t' out = None" if "expected = Some want" "dict_get t out = Some (File c)" "c \<noteq> []"
      "lower (d_sha256 env c) \<noteq> lower want"
    by (rule spec) (use that in \<open>auto simp: check_sha256_iff has_content_def\<close>)
qed

text \<open>
  C38: a frida download changes nothing but its cache entry (and missing parent directories). When it
  returns, the entry has the expected digest if one was given, and a freshly fetched entry is what
  the decompressor makes of the response, within the ceiling. When it raises, the entry is as it
  was, or it is gone after a digest mismatch; a cached entry with another digest is always removed,
  so the next call fetches again.
\<close>

theorem frida_download_verified:
  assumes "download env pe h lz version expected arch t = Some (r, t')"
  defines "out \<equiv> cached_binary pe h version arch"
  shows "only_changes {out} t t'
    \<and> (\<forall>p. r = Inr p \<longrightarrow> p = out
      \<and> (\<forall>want. expected = Some want \<longrightarrow> (\<exists>c. dict_get t' out = Some (File c) \<and> lower (d_sha256 env c) = lower want))
      \<and> (if has_content out t then t' = t
         else (\<exists>c. dict_get t' out = Some (File c) \<and> frida_payload env lz (frida_release_url h version arch) c)))
    \<and> (\<forall>e. r = Inl e \<longrightarrow> dict_get t' out = dict_get t out
      \<or> (\<exists>want got. e = Sha_mismatch want got) \<and> dict_get t' out = None)
    \<and> (\<forall>want c. expected = Some want \<and> dict_get t out = Some (File c) \<and> c \<noteq> []
      \<and> lower (d_sha256 env c) \<noteq> lower want \<longrightarrow> dict_get t' out = None)"
  unfolding out_def using frida_download_facts [OF assms(1)] by blast

theorem frida_download_verified_witness:
  "\<exists>t'. download demo_env demo_paths demo_host plain ''16.4.10'' (Some ''aB'') None []
       = Some (Inr [''c'', ''frida'', ''frida-server-16.4.10-android-x86_64''], t')
     \<and> only_changes {cached_binary demo_paths demo_host ''16.4.10'' None} [] t'
     \<and> dict_get t' [''c'', ''frida'', ''frida-server-16.4.10-android-x86_64''] = Some (File ''AB'')"
proof -
  have run: "download demo_env demo_paths demo_host plain ''16.4.10'' (Some ''aB'') None []
       = Some (Inr [''c'', ''frida'', ''frida-server-16.4.10-android-x86_64''],
           [([''c''], Dir), ([''c'', ''frida''], Dir), ([''c'', ''frida'', ''frida-server-16.4.10-android-x86_64''], File ''AB'')])"
    by code_simp
  note frida_download_verified [OF this, THEN conjunct1]
  then show ?thesis by (subst run) simp
qed

section \<open>Staging\<close>

lemma copy_staged_spec:
  assumes "copy_staged env src dst t = (r, t')"
  shows "only_changes {dst} t t' \<and> (\<forall>e. r = Inl e \<longrightarrow> dict_get t' dst = dict_get t dst)
    \<and> (\<forall>p. r = Inr p \<longrightarrow> p = dst \<and> (\<exists>c. dict_get t src = Some (File c) \<and> dict_get t' dst = Some (File c)))"
proof (cases "mkdir_parents (butlast dst) t")
  case None
  then show ?thesis using assms by (auto simp: copy_staged_def os_step_def statement_iffs)
next
  case (Some t1)
  let ?body = "\<lambda>tmp. seq (os_step (\<lambda>t. if src = tmp then None
      else Option.bind (read_bytes src t) (\<lambda>c. append_file env tmp c t))) (\<lambda>_. os_step (replace_file tmp dst))"
  obtain b t2 where b: "through_temp env (butlast dst) ?body t1 = (b, t2)" by fastforce
  have t': "t' = t2" "r = (case b of Inl e \<Rightarrow> Inl e | Inr _ \<Rightarrow> Inr dst)"
    using assms Some b by (auto simp: copy_staged_def os_step_def attempt_def seq_def ok_def split: sum.splits)
  have sub: "only_changes {dst} t t2" if "\<And>q. q \<noteq> dst \<Longrightarrow> dict_get t2 q = dict_get t1 q"
    using only_changes_frame [OF mkdir_only_changes [OF Some, of "{}"]] that by simp
  have "staged_body ?body dst (\<lambda>t c. dict_get t src = Some (File c))"
    unfolding staged_body_def
    by (auto simp: os_step_def statement_iffs append_file_spec replace_file_spec read_bytes_def
        bind_eq_Some_conv split: if_splits option.splits node.splits)
  from b this show ?thesis
  proof (rule through_temp_spec)
    fix e assume "b = Inl e" "\<And>q. dict_get t2 q = dict_get t1 q"
    then show ?thesis using t' sub mkdir_butlast_get [OF Some] by auto
  next
    fix v c tmp assume "b = Inr v" "unused tmp t1" "dict_get (dict_pop tmp (dict_set tmp (File []) t1)) src = Some (File c)"
      "\<And>q. dict_get t2 q = (if q = dst then Some (File c) else dict_get t1 q)"
    then show ?thesis using t' sub mkdir_parents_get [OF Some, of src] by (auto split: if_splits)
  qed
qed

lemma cached_not_staged: "cached_binary pe h version arch \<noteq> instance_frida rdir"
  by (simp add: cached_binary_def instance_frida_def)

text \<open>
  Staging frida never costs an instance a working binary: when any part of it fails, a binary that
  was staged before is still there with its content; when it succeeds, the staged file has the
  expected digest if one was configured.
\<close>

theorem frida_stage_safe:
  assumes "frida_stage_for_instance env pe h lz rdir version expected mode t = Some (r, t')"
  shows "case r of
      Inl e \<Rightarrow> \<forall>c. dict_get t (instance_frida rdir) = Some (File c) \<longrightarrow> dict_get t' (instance_frida rdir) = Some (File c)
    | Inr p \<Rightarrow> p = instance_frida rdir \<and> (\<exists>b. dict_get t' p = Some (File b)
        \<and> (\<forall>want. expected = Some want \<longrightarrow> lower (d_sha256 env b) = lower want))"
proof (cases "resolve_version h version (host_frida_tools_version h)")
  case (Inl e)
  then show ?thesis using assms by (auto simp: frida_stage_for_instance_def Let_def)
next
  case (Inr v)
  let ?arch = "Some (resolve_frida_arch h mode)" and ?dst = "instance_frida rdir"
  obtain r1 t1 where d: "download env pe h lz v expected ?arch t = Some (r1, t1)"
    using assms Inr by (cases "download env pe h lz v expected ?arch t") (auto simp: frida_stage_for_instance_def Let_def)
  note facts = frida_download_facts [OF d]
  have keep: "dict_get t1 ?dst = Some (File c)" if "dict_get t ?dst = Some (File c)" for c
    using only_changes_existing [OF facts(1) _ that] cached_not_staged by (metis singletonD)
  show ?thesis
  proof (cases r1)
    case (Inl e)
    then show ?thesis using assms Inr d keep by (auto simp: frida_stage_for_instance_def Let_def)
  next
    case r1: (Inr src)
    then have copy: "copy_staged env src ?dst t1 = (r, t')"
      using assms Inr d by (simp add: frida_stage_for_instance_def Let_def)
    show ?thesis using copy_staged_spec [OF copy] keep facts(2) [OF r1] by (cases r) auto
  qed
qed

theorem frida_stage_safe_witness:
  "\<exists>t'. frida_stage_for_instance demo_env demo_paths demo_host plain [''i''] ''16.4.10'' (Some ''00'') ''auto''
       [([''i''], Dir), ([''i'', ''frida-server''], File ''old'')] = Some (Inl (Sha_mismatch ''00'' ''ab''), t')
     \<and> dict_get t' [''i'', ''frida-server''] = Some (File ''old'')"
proof -
  have run: "frida_stage_for_instance demo_env demo_paths demo_host plain [''i''] ''16.4.10'' (Some ''00'') ''auto''
       [([''i''], Dir), ([''i'', ''frida-server''], File ''old'')] = Some (Inl (Sha_mismatch ''00'' ''ab''),
         [([''i''], Dir), ([''i'', ''frida-server''], File ''old''), ([''c''], Dir), ([''c'', ''frida''], Dir)])"
    by code_simp
  from frida_stage_safe [OF this] run show ?thesis by (simp add: instance_frida_def)
qed

text \<open>
  Resolving the configured frida version gives a concrete release tag or an error: a pinned
  version is kept, and \<open>auto\<close> on a host with frida-tools gives the client's own version, for which
  no skew warning can follow.
\<close>

theorem resolve_version_concrete:
  assumes "resolve_version h version (host_frida_tools_version h) = Inr v"
  shows "is_pinned_frida_version v
    \<and> (is_pinned_frida_version version \<longrightarrow> v = version)
    \<and> (\<forall>client. version = FRIDA_AUTO \<and> host_frida_tools_version h = Some client
         \<longrightarrow> v = client \<and> \<not> client_skew h v (host_frida_tools_version h))"
proof -
  have host: "host_frida_tools_version h = Some x \<Longrightarrow> is_pinned_frida_version x" for x
    by (auto simp: host_frida_tools_version_def Let_def split: if_splits option.splits)
  have latest: "latest_release_tag h = Inr x \<Longrightarrow> is_pinned_frida_version x" for x
    by (auto simp: latest_release_tag_def Let_def split: sum.splits if_splits)
  have "\<not> is_pinned_frida_version FRIDA_AUTO" by code_simp
  then show ?thesis
    using assms host latest by (auto simp: resolve_version_def client_skew_def split: if_splits option.splits)
qed

theorem resolve_version_concrete_witness:
  "resolve_version demo_host ''auto'' (host_frida_tools_version demo_host) = Inr ''16.4.10''
     \<and> \<not> client_skew demo_host ''16.4.10'' (host_frida_tools_version demo_host)"
proof -
  have run: "resolve_version demo_host ''auto'' (host_frida_tools_version demo_host) = Inr ''16.4.10''"
    and host: "host_frida_tools_version demo_host = Some ''16.4.10''" by code_simp+
  from resolve_version_concrete [OF run] run host show ?thesis by (simp add: FRIDA_AUTO_def)
qed

end
