(* ===== verification/Modules_Props.thy ===== *)
theory Modules_Props
  imports Modules_Download
begin

text \<open>
  Staging of modules: what is cached is complete, what is staged has the configured digest, staged
  files never overwrite each other, removed modules are un-staged, and where a source is lost.
\<close>

section \<open>Names\<close>

lemma unique_dest_name_fresh: "unique_dest_name name used i \<notin> set used"
proof (induction name used i rule: unique_dest_name.induct)
  case (1 name used i)
  then show ?case by (subst unique_dest_name.simps) simp
qed

lemma unique_dest_name_suffix: "\<exists>p. unique_dest_name name used i = p @ name"
proof (induction name used i rule: unique_dest_name.induct)
  case (1 name used i)
  show ?case
  proof (cases "name \<in> set used")
    case True
    then obtain p where "unique_dest_name (str_of_int (int i) @ ''_'' @ name) used i
        = p @ str_of_int (int i) @ ''_'' @ name" using 1 by blast
    then show ?thesis using True by (subst unique_dest_name.simps) simp
  qed (simp add: unique_dest_name.simps)
qed

section \<open>The cache of downloads\<close>

lemma cache_path_below:
  assumes "cache_path_for_url env url = Some (cache, parent)"
  shows "prefix (module_cache_dir env) cache" and "prefix (module_cache_dir env) parent"
    and "\<not> prefix cache parent \<Longrightarrow> parent = butlast cache"
  using assms by (auto simp: cache_path_for_url_def Let_def butlast_append split: if_splits)

lemma touches_below:
  assumes "prefix d p" and "\<And>q. q \<noteq> p \<Longrightarrow> dict_get t' q = dict_get t q"
  shows "touches d t t'"
  using assms by (auto simp: touches_def)

lemma mkdir_below: "mkdir_parents p t = Some t' \<Longrightarrow> prefix d p \<Longrightarrow> touches d t t'"
  unfolding touches_def by (metis mkdir_other prefix_same_cases)

lemma fetch_body_staged:
  "staged_body (\<lambda>tmp t. case d_net env url of
       Refused e \<Rightarrow> (Inl (map_fault e), t)
     | Opened raw cs stop \<Rightarrow> seq (receive env tmp raw cs stop) (\<lambda>_. os_step (replace_file tmp cache)) t)
     cache (\<lambda>_ z. served env url z \<and> complete env url z)"
  unfolding staged_body_def
proof (intro allI impI, goal_cases)
  case (1 tmp t r t')
  show ?case
  proof (cases "d_net env url")
    case (Opened raw cs stop)
    obtain q u where q: "receive env tmp raw cs stop t = (q, u)" by fastforce
    note rec = receive_spec [OF q 1(1) Opened]
    show ?thesis
    proof (cases q)
      case (Inl e)
      then show ?thesis using 1(2) Opened q rec by (auto simp: seq_def)
    next
      case (Inr z)
      then have z: "dict_get u tmp = Some (File z)" "served env url z" "complete env url z" using rec by auto
      have "os_step (replace_file tmp cache) u = (r, t')" using 1(2) Opened q Inr by (simp add: seq_def)
      then show ?thesis using z rec by (auto simp: os_step_def attempt_iff replace_file_spec)
    qed
  qed (use 1 in auto)
qed

lemma fetch_url_spec:
  assumes "fetch_url env url t = (r, t')" and "cache_path_for_url env url = Some (cache, parent)"
  obtains (refused) e where "r = Inl e" "t' = t"
  | (hit) "is_cached cache parent t" "r = Inr cache" "t' = t"
  | (failed) e t1 where "r = Inl e" "mkdir_parents parent t = Some t1" "\<And>q. dict_get t' q = dict_get t1 q"
  | (fetched) z t1 where "\<not> is_cached cache parent t" "r = Inr cache" "mkdir_parents parent t = Some t1"
      "served (m_denv env) url z" "complete (m_denv env) url z"
      "\<And>q. dict_get t' q = (if q = cache then Some (File z) else dict_get t1 q)"
proof (cases "allowed_scheme url \<and> \<not> is_cached cache parent t")
  case False
  then have "(\<exists>e. r = Inl e) \<and> t' = t \<or> is_cached cache parent t \<and> r = Inr cache \<and> t' = t"
    using assms by (auto simp: fetch_url_def split: if_splits)
  then show ?thesis using refused hit by blast
next
  case new: True
  let ?body = "\<lambda>tmp t. case d_net (m_denv env) url of
       Refused e \<Rightarrow> (Inl (map_fault e), t)
     | Opened raw cs stop \<Rightarrow> seq (receive (m_denv env) tmp raw cs stop) (\<lambda>_. os_step (replace_file tmp cache)) t"
  have run: "seq (os_step (mkdir_parents parent)) (\<lambda>_. seq (through_temp (m_denv env) parent ?body) (\<lambda>_. ok cache)) t = (r, t')"
    using assms new by (simp add: fetch_url_def)
  show ?thesis
  proof (cases "mkdir_parents parent t")
    case None
    then have "(r, t') = (Inl (Raised OsErr), t)" using run by (simp add: os_step_def seq_def attempt_def)
    then show ?thesis by (intro refused) simp_all
  next
    case (Some t1)
    obtain b t2 where b: "through_temp (m_denv env) parent ?body t1 = (b, t2)" by fastforce
    then have t': "t' = t2" "r = (case b of Inl e \<Rightarrow> Inl e | Inr _ \<Rightarrow> Inr cache)"
      using run Some by (auto simp: os_step_def attempt_def seq_def ok_def split: sum.splits)
    from b fetch_body_staged show ?thesis
    proof (rule through_temp_spec)
      fix e assume "b = Inl e" "\<And>q. dict_get t2 q = dict_get t1 q"
      then show ?thesis using t' Some by (intro failed [of e t1]) simp_all
    next
      fix v z tmp assume "b = Inr v" "served (m_denv env) url z \<and> complete (m_denv env) url z"
        "\<And>q. dict_get t2 q = (if q = cache then Some (File z) else dict_get t1 q)"
      then show ?thesis using t' Some new by (intro fetched [of t1 z]) simp_all
    qed
  qed
qed

lemma fetch_url_touches:
  assumes "fetch_url env url t = (r, t')"
  shows "touches (module_cache_dir env) t t'"
proof (cases "cache_path_for_url env url")
  case None
  then show ?thesis using assms by (auto simp: fetch_url_def split: if_splits)
next
  case (Some cp)
  obtain cache parent where cp: "cp = (cache, parent)" by (cases cp)
  note below = cache_path_below [OF Some [unfolded cp]]
  from assms Some [unfolded cp] show ?thesis
  proof (cases rule: fetch_url_spec)
    case (failed e t1)
    have "touches (module_cache_dir env) t t1" by (rule mkdir_below [OF failed(2) below(2)])
    then show ?thesis by (simp add: touches_def failed(3))
  next
    case (fetched z t1)
    have "touches (module_cache_dir env) t t1" by (rule mkdir_below [OF fetched(3) below(2)])
    moreover have "touches (module_cache_dir env) t1 t'" by (rule touches_below [OF below(1)]) (simp add: fetched(6))
    ultimately show ?thesis by (rule touches_trans)
  qed simp_all
qed

text \<open>An environment without symbolic links: resolution removes \<open>..\<close> segments.\<close>

definition drop_dots :: "path \<Rightarrow> path" where
  "drop_dots p = foldl (\<lambda>acc w. if w = ''..'' then butlast acc else acc @ [w]) [] p"

definition demo_menv :: menv where
  "demo_menv = \<lparr>m_denv = demo_env, m_paths = \<lparr>user_cache_path = ''/c'', user_config_path = ''/d'', home = [''h'']\<rparr>,
     m_resolve = drop_dots, m_netloc_ok = (\<lambda>_. True)\<rparr>"

definition url_module :: module where
  "url_module = \<lparr>module_url = Some ''https://x/m.zip?v=2'', module_path = None, module_sha256 = Some ''aBc''\<rparr>"

definition path_module :: "string \<Rightarrow> module" where
  "path_module p = \<lparr>module_url = None, module_path = Some p, module_sha256 = None\<rparr>"

text \<open>
  A module URL whose file is not cached yet is cached whole or not at all: on success the cache
  entry is exactly what the server sent, as long as the length it announced; on failure the entry is
  as it was. A cached file is returned without touching the disk, and nothing outside the module
  cache changes.
\<close>

theorem module_fetch_whole:
  assumes "fetch_url env url t = (r, t')" and "cache_path_for_url env url = Some (cache, parent)"
    and "\<not> prefix cache parent"
  shows "touches (module_cache_dir env) t t'
    \<and> (case r of
         Inl e \<Rightarrow> dict_get t' cache = dict_get t cache
       | Inr p \<Rightarrow> p = cache \<and> (if has_content cache t then t' = t
           else (\<exists>z. dict_get t' cache = Some (File z) \<and> served (m_denv env) url z \<and> complete (m_denv env) url z)))"
proof -
  have p: "parent = butlast cache" by (rule cache_path_below(3) [OF assms(2,3)])
  from assms(1,2) show ?thesis
    by (rule fetch_url_spec)
      (use fetch_url_touches [OF assms(1)] assms(3) mkdir_butlast_get p in \<open>auto simp: is_cached_def\<close>)
qed

theorem module_fetch_whole_witness:
  "\<exists>t'. fetch_url demo_menv ''https://x/m.zip?v=2'' [] = (Inr [''c'', ''modules'', ''https://x/m.'', ''m.zip''], t')
     \<and> dict_get t' [''c'', ''modules'', ''https://x/m.'', ''m.zip''] = Some (File ''ABC'')
     \<and> touches (module_cache_dir demo_menv) [] t'"
proof -
  have run: "fetch_url demo_menv ''https://x/m.zip?v=2'' [] = (Inr [''c'', ''modules'', ''https://x/m.'', ''m.zip''],
      [([''c''], Dir), ([''c'', ''modules''], Dir), ([''c'', ''modules'', ''https://x/m.''], Dir),
       ([''c'', ''modules'', ''https://x/m.'', ''m.zip''], File ''ABC'')])"
    and cp: "cache_path_for_url demo_menv ''https://x/m.zip?v=2''
      = Some ([''c'', ''modules'', ''https://x/m.'', ''m.zip''], [''c'', ''modules'', ''https://x/m.''])" by code_simp+
  from module_fetch_whole [OF run cp] run show ?thesis by simp
qed

section \<open>Resolving\<close>

lemma verify_sha256_iff: "verify_sha256 env p want t = (r, t') \<longleftrightarrow> t' = t \<and>
    ((\<exists>c. dict_get t p = Some (File c) \<and> lower (d_sha256 env c) = lower want \<and> r = Inr ())
    \<or> (\<exists>c. dict_get t p = Some (File c) \<and> lower (d_sha256 env c) \<noteq> lower want \<and> r = Inl (Sha_mismatch want (d_sha256 env c)))
    \<or> (\<forall>c. dict_get t p \<noteq> Some (File c)) \<and> r = Inl (Raised OsErr))"
  by (auto simp: verify_sha256_def read_bytes_def split: option.splits node.splits if_splits)

lemma check_module_spec:
  assumes "check_module env m local t = (r, t')"
  shows "(t' = t \<or> truthy (module_url m) \<and> t' = dict_pop local t)
    \<and> (r = Inr u \<longrightarrow> t' = t \<and> (truthy (module_sha256 m) \<longrightarrow>
         (\<exists>c. dict_get t local = Some (File c) \<and> lower (d_sha256 (m_denv env) c) = lower (the (module_sha256 m)))))"
proof (cases "truthy (module_sha256 m)")
  case True
  obtain v t1 where v: "verify_sha256 (m_denv env) local (the (module_sha256 m)) t = (v, t1)" by fastforce
  then have "t1 = t" by (auto simp: verify_sha256_iff)
  then show ?thesis
    using assms True v
    by (auto simp: check_module_def verify_sha256_iff os_step_def statement_iffs unlink_missing_ok_def split: if_splits)
qed (use assms in \<open>auto simp: check_module_def\<close>)

lemma resolve_module_touches:
  assumes "resolve_module env m rdir t = (r, t')"
  shows "touches (module_cache_dir env) t t'"
proof -
  obtain a t1 where a: "locate env m rdir t = (a, t1)" by fastforce
  have loc: "touches (module_cache_dir env) t t1"
    using a fetch_url_touches
    by (auto simp: locate_def resolve_path_def fail_def Let_def split: if_splits option.splits)
  show ?thesis
  proof (cases a)
    case (Inl e)
    then show ?thesis using assms a loc by (auto simp: resolve_module_def seq_def)
  next
    case (Inr local)
    obtain c t2 where c: "check_module env m local t1 = (c, t2)" by fastforce
    then have t': "t' = t2" using assms a Inr by (auto simp: resolve_module_def seq_def ok_def split: sum.splits)
    have "touches (module_cache_dir env) t1 (dict_pop local t1)" if url: "truthy (module_url m)"
    proof -
      have f: "fetch_url env (the (module_url m)) t = (Inr local, t1)" using a Inr url by (simp add: locate_def)
      then obtain cp where cp: "cache_path_for_url env (the (module_url m)) = Some cp"
        by (auto simp: fetch_url_def split: if_splits option.splits)
      obtain cache parent where cp': "cp = (cache, parent)" by (cases cp)
      from f cp [unfolded cp'] have "local = cache" by (rule fetch_url_spec) auto
      then show ?thesis using cache_path_below(1) [OF cp [unfolded cp']] by (intro touches_below) auto
    qed
    then show ?thesis using check_module_spec [OF c] loc t' touches_trans by auto
  qed
qed

text \<open>
  A module given by a path is never modified or deleted while it is resolved, whatever its digest.
  When it resolves, the file exists, it lies inside the instance directory unless the path was
  typed as an absolute one, and it has the configured digest.
\<close>

theorem path_module_contained:
  assumes "resolve_module env m rdir t = (r, t')" and "\<not> truthy (module_url m)" and "module_path m = Some p"
  shows "t' = t \<and> (\<forall>local. r = Inr local \<longrightarrow>
      exists_at local t \<and> (is_absolute p \<or> prefix (m_resolve env rdir) local)
      \<and> (truthy (module_sha256 m) \<longrightarrow> (\<exists>c. dict_get t local = Some (File c)
           \<and> lower (d_sha256 (m_denv env) c) = lower (the (module_sha256 m)))))"
proof -
  obtain a t1 where a: "resolve_path env rdir p t = (a, t1)" by fastforce
  then have t1: "t1 = t" and loc: "\<And>local. a = Inr local \<Longrightarrow> exists_at local t \<and> (is_absolute p \<or> prefix (m_resolve env rdir) local)"
    by (auto simp: resolve_path_def Let_def is_within_def split: if_splits)
  show ?thesis
  proof (cases a)
    case (Inl e)
    then show ?thesis using assms a t1 by (auto simp: resolve_module_def locate_def seq_def)
  next
    case (Inr local)
    obtain c t2 where c: "check_module env m local t = (c, t2)" by fastforce
    have "t' = t2" "r = (case c of Inl e \<Rightarrow> Inl e | Inr _ \<Rightarrow> Inr local)"
      using assms a t1 Inr c by (auto simp: resolve_module_def locate_def seq_def ok_def split: sum.splits)
    then show ?thesis using check_module_spec [OF c] assms(2) loc [OF Inr] by (cases c) auto
  qed
qed

theorem path_module_contained_witness:
  "\<exists>local. resolve_module demo_menv (path_module ''zips/../m.zip'') [''i''] [([''i''], Dir), ([''i'', ''m.zip''], File ''M'')]
       = (Inr local, [([''i''], Dir), ([''i'', ''m.zip''], File ''M'')])
     \<and> prefix (m_resolve demo_menv [''i'']) local"
proof -
  have run: "resolve_module demo_menv (path_module ''zips/../m.zip'') [''i''] [([''i''], Dir), ([''i'', ''m.zip''], File ''M'')]
       = (Inr [''i'', ''m.zip''], [([''i''], Dir), ([''i'', ''m.zip''], File ''M'')])"
    and url: "\<not> truthy (module_url (path_module ''zips/../m.zip''))" and p: "module_path (path_module ''zips/../m.zip'') = Some ''zips/../m.zip''"
    and rel: "\<not> is_absolute ''zips/../m.zip''"
    by code_simp+
  from path_module_contained [OF run url p] run rel show ?thesis by simp
qed

section \<open>Staging\<close>

lemma resolve_module_digest:
  assumes "resolve_module env m rdir t = (Inr local, t')" and "truthy (module_sha256 m)"
  shows "\<exists>c. dict_get t' local = Some (File c) \<and> lower (d_sha256 (m_denv env) c) = lower (the (module_sha256 m))"
proof -
  obtain u t1 where "check_module env m local t1 = (Inr u, t')"
    using assms(1) by (auto simp: resolve_module_def statement_iffs)
  from check_module_spec [OF this] assms(2) show ?thesis by auto
qed

definition verified :: "menv \<Rightarrow> tree \<Rightarrow> module \<Rightarrow> path \<Rightarrow> bool" where
  "verified env t m p \<longleftrightarrow> (\<exists>c. dict_get t p = Some (File c)
     \<and> (truthy (module_sha256 m) \<longrightarrow> lower (d_sha256 (m_denv env) c) = lower (the (module_sha256 m))))"

lemma touches_parallel: "touches d t t' \<Longrightarrow> e \<parallel> d \<Longrightarrow> prefix e q \<Longrightarrow> dict_get t' q = dict_get t q"
  unfolding touches_def by (metis parallelD1 parallelD2 prefix_order.trans prefix_same_cases)

lemma copy_module_spec: "copy_module env src dst t = Some t' \<Longrightarrow>
    \<exists>c. dict_get t src = Some (File c) \<and> t' = dict_set dst (File c) t"
  by (auto simp: copy_module_def read_bytes_def write_text_def bind_eq_Some_conv split: if_splits option.splits node.splits)

lemma stage_modules_spec:
  assumes "stage_modules env rdir i used ms t = (Inr ps, t')"
    and "instance_modules rdir \<parallel> module_cache_dir env"
  shows "(\<exists>names. ps = map (\<lambda>n. instance_modules rdir @ [n]) names \<and> distinct names \<and> set names \<inter> set used = {})
    \<and> (\<forall>q. prefix (instance_modules rdir) q \<longrightarrow> q \<notin> set ps \<longrightarrow> dict_get t' q = dict_get t q)
    \<and> list_all2 (verified env t') ms ps"
  using assms
proof (induction env rdir i used ms arbitrary: t ps rule: stage_modules.induct)
  case (2 env rdir i used m ms)
  let ?T = "instance_modules rdir"
  from 2(2) obtain src t1 where src: "resolve_module env m rdir t = (Inr src, t1)"
    by (auto simp: seq_iff)
  define name where "name = unique_dest_name (if src = [] then [] else last src) used i"
  let ?dst = "?T @ [name]"
  from 2(2) src obtain t2 rest where t2: "copy_module (m_denv env) src ?dst t1 = Some t2"
    and rest: "stage_modules env rdir (Suc i) (used @ [name]) ms t2 = (Inr rest, t')" and ps: "ps = ?dst # rest"
    by (auto simp: seq_def os_step_def attempt_def ok_def Let_def name_def split: option.splits sum.splits prod.splits)
  note IH = 2(1) [OF name_def refl rest 2(3)]
  obtain c where c: "dict_get t1 src = Some (File c)" "t2 = dict_set ?dst (File c) t1"
    using copy_module_spec [OF t2] by blast
  obtain names where names: "rest = map (\<lambda>n. ?T @ [n]) names" "distinct names" "set names \<inter> set (used @ [name]) = {}"
    using IH by blast
  have frame: "dict_get t' q = dict_get t2 q" if "prefix ?T q" "q \<notin> set rest" for q using IH that by blast
  have "?dst \<notin> set rest" using names by auto
  then have dst: "dict_get t' ?dst = Some (File c)" using frame c by simp
  have keep: "dict_get t1 q = dict_get t q" if "prefix ?T q" for q
    by (rule touches_parallel [OF resolve_module_touches [OF src] 2(3) that])
  have "verified env t' m ?dst"
    using dst resolve_module_digest [OF src] c(1) by (auto simp: verified_def)
  moreover have "name \<notin> set used" unfolding name_def by (rule unique_dest_name_fresh)
  moreover have "dict_get t' q = dict_get t q" if "prefix ?T q" "q \<notin> set ps" for q
    using frame [of q] that keep c(2) by (simp add: ps)
  ultimately show ?case
    using IH names by (auto simp: ps intro!: exI [of _ "name # names"])
qed (auto simp: ok_def)

lemma unlink_all_spec: "unlink_all ps t = (r, t') \<Longrightarrow>
    (\<forall>q. q \<notin> set ps \<longrightarrow> dict_get t' q = dict_get t q) \<and> (r = Inr () \<longrightarrow> (\<forall>q\<in>set ps. dict_get t' q = None))"
proof (induction ps arbitrary: t)
  case (Cons p ps)
  show ?case
  proof (cases "dict_get t p = Some Dir")
    case False
    then have "unlink_all ps (dict_pop p t) = (r, t')"
      using Cons.prems by (simp add: seq_def os_step_def attempt_def unlink_missing_ok_def)
    from Cons.IH [OF this] show ?thesis by auto
  qed (use Cons.prems in \<open>auto simp: seq_def os_step_def attempt_def unlink_missing_ok_def\<close>)
qed (auto simp: ok_def)

lemma stale_zips_iff: "target @ [n] \<in> set (stale_zips target t) \<longleftrightarrow> dict_get t (target @ [n]) \<noteq> None \<and> endswith n ''.zip''"
  by (force simp: stale_zips_def map_of_eq_None_iff)

text \<open>
  C39: when staging the modules of an instance succeeds, every module of the configuration has its own
  file in \<open>modules/\<close>, no two share one, each has the digest its entry asks for, and every zip file
  there is one of them: a module taken out of the configuration is un-staged. The hypothesis says
  that the user's cache and the instance lie apart.
\<close>

theorem modules_staged_exactly:
  assumes "modules_stage_for_instance env rdir ms t = (Inr ps, t')"
    and "instance_modules rdir \<parallel> module_cache_dir env"
  shows "list_all2 (verified env t') ms ps \<and> distinct ps
    \<and> (\<forall>p\<in>set ps. \<exists>n. p = instance_modules rdir @ [n])
    \<and> (\<forall>n. endswith n ''.zip'' \<and> exists_at (instance_modules rdir @ [n]) t' \<longrightarrow> instance_modules rdir @ [n] \<in> set ps)"
proof -
  let ?T = "instance_modules rdir"
  obtain t1 t2 where t1: "mkdir_parents ?T t = Some t1" and t2: "unlink_all (stale_zips ?T t1) t1 = (Inr (), t2)"
    and st: "stage_modules env rdir 0 [] ms t2 = (Inr ps, t')"
    using assms(1) by (auto simp: modules_stage_for_instance_def statement_iffs os_step_def)
  note spec = stage_modules_spec [OF st assms(2)]
  obtain names where names: "ps = map (\<lambda>n. ?T @ [n]) names" "distinct names" using spec by blast
  have "?T @ [n] \<in> set ps" if "endswith n ''.zip''" "exists_at (?T @ [n]) t'" for n
  proof (rule ccontr)
    assume "?T @ [n] \<notin> set ps"
    then have "dict_get t2 (?T @ [n]) \<noteq> None" using spec that(2) by (auto simp: exists_at_def)
    moreover have "dict_get t2 (?T @ [n]) = None"
    proof (cases "dict_get t1 (?T @ [n]) = None")
      case True
      then show ?thesis using unlink_all_spec [OF t2] stale_zips_iff [of ?T n t1] by simp
    next
      case False
      then show ?thesis using unlink_all_spec [OF t2] stale_zips_iff [of ?T n t1] that(1) by simp
    qed
    ultimately show False by simp
  qed
  moreover have "distinct ps" using names by (simp add: distinct_map inj_on_def)
  ultimately show ?thesis using spec names by auto
qed

theorem modules_staged_exactly_witness:
  "\<exists>t'. modules_stage_for_instance demo_menv [''i''] [url_module, path_module ''m.zip'']
       [([''i''], Dir), ([''i'', ''m.zip''], File ''M''), ([''i'', ''modules''], Dir), ([''i'', ''modules'', ''old.zip''], File ''O'')]
       = (Inr [[''i'', ''modules'', ''m.zip''], [''i'', ''modules'', ''1_m.zip'']], t')
     \<and> verified demo_menv t' url_module [''i'', ''modules'', ''m.zip''] \<and> \<not> exists_at [''i'', ''modules'', ''old.zip''] t'"
proof -
  let ?t' = "[([''i''], Dir), ([''i'', ''m.zip''], File ''M''), ([''i'', ''modules''], Dir), ([''c''], Dir), ([''c'', ''modules''], Dir),
     ([''c'', ''modules'', ''https://x/m.''], Dir), ([''c'', ''modules'', ''https://x/m.'', ''m.zip''], File ''ABC''),
     ([''i'', ''modules'', ''m.zip''], File ''ABC''), ([''i'', ''modules'', ''1_m.zip''], File ''M'')]"
  have run: "modules_stage_for_instance demo_menv [''i''] [url_module, path_module ''m.zip'']
       [([''i''], Dir), ([''i'', ''m.zip''], File ''M''), ([''i'', ''modules''], Dir), ([''i'', ''modules'', ''old.zip''], File ''O'')]
       = (Inr [[''i'', ''modules'', ''m.zip''], [''i'', ''modules'', ''1_m.zip'']], ?t')"
    and apart: "instance_modules [''i''] = [''i'', ''modules'']" "module_cache_dir demo_menv = [''c'', ''modules'']"
    by code_simp+
  have "list_all2 (verified demo_menv ?t') [url_module, path_module ''m.zip''] [[''i'', ''modules'', ''m.zip''], [''i'', ''modules'', ''1_m.zip'']]"
    by (rule modules_staged_exactly [OF run, THEN conjunct1]) (simp add: apart parallel_def)
  then show ?thesis by (subst run) (simp add: exists_at_def)
qed

text \<open>
  A module whose \<open>path:\<close> points at a zip inside the instance's own \<open>modules/\<close> directory is lost:
  staging removes every zip there before it looks for the source, so the user's file is deleted and
  staging raises.
\<close>

theorem staging_deletes_own_source:
  assumes "modules_stage_for_instance env rdir (m # ms) t = (r, t')"
    and "\<not> truthy (module_url m)" and "module_path m = Some p" and "\<not> is_absolute p"
    and "m_resolve env (rdir @ segments p) = instance_modules rdir @ [n]"
    and "prefix (m_resolve env rdir) (instance_modules rdir @ [n])"
    and "endswith n ''.zip''" and "dict_get t (instance_modules rdir @ [n]) = Some (File c)"
    and "\<And>q. prefix q (instance_modules rdir) \<Longrightarrow> \<not> is_file_node (dict_get t q)"
    and "\<And>k. endswith k ''.zip'' \<Longrightarrow> dict_get t (instance_modules rdir @ [k]) \<noteq> Some Dir"
  shows "r = Inl (Path_missing (instance_modules rdir @ [n])) \<and> dict_get t' (instance_modules rdir @ [n]) = None"
proof -
  let ?T = "instance_modules rdir"
  have "\<not> list_ex (\<lambda>q. is_file_node (dict_get t q)) (filter (\<lambda>q. q \<noteq> []) (parents ?T @ [?T]))"
    using assms(9) by (auto simp: list_ex_iff parents_prefix strict_prefix_def)
  then obtain t1 where t1: "mkdir_parents ?T t = Some t1" by (simp add: mkdir_parents_def Let_def)
  have same: "dict_get t1 (?T @ [k]) = dict_get t (?T @ [k])" for k using mkdir_parents_get [OF t1] by (auto dest: prefix_length_le)
  have files: "\<exists>t2. unlink_all ps u = (Inr (), t2)" if "\<forall>q\<in>set ps. dict_get u q \<noteq> Some Dir" for ps u
    using that
  proof (induction ps arbitrary: u)
    case (Cons q ps)
    then show ?case by (auto simp: seq_def os_step_def attempt_def unlink_missing_ok_def)
  qed (simp add: ok_def)
  have "\<forall>q\<in>set (stale_zips ?T t1). dict_get t1 q \<noteq> Some Dir"
  proof
    fix q assume q: "q \<in> set (stale_zips ?T t1)"
    then obtain k where "q = ?T @ [k]" "endswith k ''.zip''"
      by (cases q rule: rev_cases) (auto simp: stale_zips_def)
    then show "dict_get t1 q \<noteq> Some Dir" using assms(10) same by simp
  qed
  then obtain t2 where t2: "unlink_all (stale_zips ?T t1) t1 = (Inr (), t2)" using files by blast
  have gone: "dict_get t2 (?T @ [n]) = None"
    using unlink_all_spec [OF t2] stale_zips_iff [of ?T n t1] assms(7,8) same [of n] by simp
  then have "resolve_module env m rdir t2 = (Inl (Path_missing (?T @ [n])), t2)"
    using assms(2-6) by (simp add: resolve_module_def locate_def resolve_path_def seq_def is_within_def exists_at_def)
  then have "(r, t') = (Inl (Path_missing (?T @ [n])), t2)"
    using assms(1) t1 t2 by (simp add: modules_stage_for_instance_def os_step_def attempt_def seq_def)
  then show ?thesis using gone by simp
qed

theorem staging_deletes_own_source_witness:
  "\<exists>t'. modules_stage_for_instance demo_menv [''i''] [path_module ''modules/m.zip'']
       [([''i''], Dir), ([''i'', ''modules''], Dir), ([''i'', ''modules'', ''m.zip''], File ''M'')]
       = (Inl (Path_missing [''i'', ''modules'', ''m.zip'']), t')
     \<and> dict_get t' [''i'', ''modules'', ''m.zip''] = None"
proof -
  let ?t = "[([''i''], Dir), ([''i'', ''modules''], Dir), ([''i'', ''modules'', ''m.zip''], File ''M'')]"
  obtain r t' where run: "modules_stage_for_instance demo_menv [''i''] [path_module ''modules/m.zip''] ?t = (r, t')"
    by fastforce
  have "\<not> truthy (module_url (path_module ''modules/m.zip''))" "module_path (path_module ''modules/m.zip'') = Some ''modules/m.zip''"
    "\<not> is_absolute ''modules/m.zip''" "m_resolve demo_menv ([''i''] @ segments ''modules/m.zip'') = instance_modules [''i''] @ [''m.zip'']"
    "prefix (m_resolve demo_menv [''i'']) (instance_modules [''i''] @ [''m.zip''])" "endswith ''m.zip'' ''.zip''"
    "dict_get ?t (instance_modules [''i''] @ [''m.zip'']) = Some (File ''M'')" by code_simp+
  note hyps = this
  have im: "instance_modules [''i''] = [''i'', ''modules'']" by code_simp
  have "r = Inl (Path_missing (instance_modules [''i''] @ [''m.zip''])) \<and> dict_get t' (instance_modules [''i''] @ [''m.zip'']) = None"
    by (rule staging_deletes_own_source [OF run hyps]) (auto simp: im is_file_node_def prefix_Cons)
  then show ?thesis using run by (simp add: im)
qed

end
