(* ===== verification/Operations_Props.thy ===== *)
theory Operations_Props
  imports Operations Frida_Props Modules_Props Lifecycle
begin

text \<open>
  What the operations of an instance keep. None of them disturbs another instance: rows of other
  names, and files outside the instance's directory and the user's download caches, stay as they
  are. The kind of the row follows the configuration even when a download fails, docker is only
  called on a staged directory, and a reset drops the data and nothing else.
\<close>

section \<open>Registry calls\<close>

text \<open>The row \<open>m'\<close> is \<open>m\<close> up to the kind of its backend.\<close>

definition same_slot :: "instance_meta option \<Rightarrow> instance_meta option \<Rightarrow> bool" where
  "same_slot x y \<longleftrightarrow> map_option index x = map_option index y
     \<and> Option.bind x (\<lambda>m. dir_of (backend m)) = Option.bind y (\<lambda>m. dir_of (backend m))"

definition kind_matches :: "binder_mode \<Rightarrow> instance_meta \<Rightarrow> bool" where
  "kind_matches mode m \<longleftrightarrow> (dir_of (backend m) \<noteq> None \<longrightarrow> (kind_of (backend m) = ''vm'') = (mode = BinderVm))"

lemma same_slot_refl [simp]: "same_slot x x"
  by (simp add: same_slot_def)

lemma same_slot_trans: "same_slot x y \<Longrightarrow> same_slot y z \<Longrightarrow> same_slot x z"
  by (simp add: same_slot_def)

lemma reconcile_rows:
  assumes "pyd_laws p" and "classes_ok (classes w)" and "reconcile_backend_kind p name mode w = (r, w')"
  shows "classes w' = classes w
     \<and> (\<forall>n. n \<noteq> name \<longrightarrow> dict_get (rows_of p w') n = dict_get (rows_of p w) n)
     \<and> same_slot (dict_get (rows_of p w) name) (dict_get (rows_of p w') name)
     \<and> (\<forall>b m. r = Inr b \<longrightarrow> dict_get (rows_of p w') name = Some m \<longrightarrow> kind_matches mode m)"
proof (cases "r = Inr True")
  case True
  have "classes (snd (locked_section p (reconcile_body name (mode = BinderVm)) w)) = classes w"
    by (rule locked_section_classes)
      (auto simp: reconcile_body_def write_registry_def split: option.split backend.split)
  moreover obtain m m' where "dict_get (rows_of p w) name = Some m" "dict_get (rows_of p w') name = Some m'"
     "dir_of (backend m') = dir_of (backend m)" "index m' = index m"
     "(mode = BinderVm) = (kind_of (backend m') = ''vm'')"
     "\<forall>n. n \<noteq> name \<longrightarrow> dict_get (rows_of p w') n = dict_get (rows_of p w) n"
    using reconcile_flips_kind [OF assms(1,2)] assms(3) True by blast
  ultimately show ?thesis
    using assms(3) by (auto simp: reconcile_backend_kind_def same_slot_def kind_matches_def)
next
  case False
  obtain q w1 where q: "read_registry p (locked_init w) = (q, w1)" by fastforce
  have c: "classes w1 = classes w" using read_registry_frame [OF q] by simp
  show ?thesis
  proof (cases q)
    case (Inl e)
    then have "r = Inl e" "w' = w1" using q assms(3) by (simp_all add: reconcile_backend_kind_def locked_section_def)
    then show ?thesis using c q Inl rows_of_read_error [of p w e w1] by (simp add: rows_of_def [of p w])
  next
    case (Inr f)
    have f: "f = rows_of p w" using q Inr by (simp add: rows_of_def)
    have "reconcile_body name (mode = BinderVm) f w1 = (r, w')"
      using q Inr assms(3) by (simp add: reconcile_backend_kind_def locked_section_def)
    then have "w' = w1" and k: "\<And>m. dict_get f name = Some m \<Longrightarrow> kind_matches mode m"
      using False by (auto simp: reconcile_body_def kind_matches_def dir_of_def
          split: option.splits backend.splits if_splits)
    moreover have "rows_of p w1 = f" using rows_of_read [of p w f w1] q Inr by simp
    ultimately show ?thesis using c f by simp
  qed
qed

section \<open>Files\<close>

text \<open>Outside the areas \<open>A\<close> nothing changes, except that missing directories may be made.\<close>

definition spares :: "path set \<Rightarrow> tree \<Rightarrow> tree \<Rightarrow> bool" where
  "spares A = only_changes {q. \<exists>a\<in>A. prefix a q}"

lemma spares_refl [simp]: "spares A t t"
  by (simp add: spares_def)

lemma spares_trans: "spares A t t' \<Longrightarrow> spares A t' t'' \<Longrightarrow> spares A t t''"
  unfolding spares_def by (rule only_changes_trans)

lemma spares_change:
  assumes "\<And>q. q \<noteq> p \<Longrightarrow> dict_get t' q = dict_get t q" and "a \<in> A" and "prefix a p"
  shows "spares A t t'"
  unfolding spares_def only_changes_def
proof (intro allI impI disjI1)
  fix q assume "q \<notin> {q. \<exists>a\<in>A. prefix a q}"
  then have "q \<noteq> p" using assms(2,3) by auto
  then show "dict_get t' q = dict_get t q" by (rule assms(1))
qed

lemma spares_mkdir:
  assumes "mkdir_parents p t = Some t'" and "a \<in> A" and "prefix a p"
  shows "spares A t t'"
proof -
  have "\<exists>x. (\<exists>a\<in>A. prefix a x) \<and> strict_prefix q x" if "prefix q p" "\<forall>a\<in>A. \<not> prefix a q" for q
    using that assms(2,3) by (intro exI [of _ p]) (auto simp: strict_prefix_def)
  then show ?thesis
    using mkdir_parents_get [OF assms(1)] by (auto simp: spares_def only_changes_def)
qed

lemma spares_write: "write_text p c t = Some t' \<Longrightarrow> a \<in> A \<Longrightarrow> prefix a p \<Longrightarrow> spares A t t'"
  by (rule spares_change [of p]) (auto simp: write_text_def split: if_splits)

lemma spares_rmtree: "a \<in> A \<Longrightarrow> prefix a p \<Longrightarrow> spares A t (rmtree p t)"
  by (auto simp: spares_def only_changes_def rmtree_get)

lemma spares_only: "only_changes S t t' \<Longrightarrow> (\<And>p. p \<in> S \<Longrightarrow> \<exists>a\<in>A. prefix a p) \<Longrightarrow> spares A t t'"
  unfolding spares_def by (erule only_changes_mono) blast

lemma spares_unlink: "unlink_all ps t = (r, t') \<Longrightarrow> (\<And>p. p \<in> set ps \<Longrightarrow> \<exists>a\<in>A. prefix a p) \<Longrightarrow> spares A t t'"
  unfolding spares_def only_changes_def by (metis (mono_tags, lifting) mem_Collect_eq unlink_all_spec)

lemma spares_fetch_url:
  assumes "fetch_url env url t = (r, t')" and "module_cache_dir env \<in> A"
  shows "spares A t t'"
proof (cases "cache_path_for_url env url")
  case None
  then show ?thesis using assms(1) by (auto simp: fetch_url_def split: if_splits)
next
  case (Some cp)
  then obtain cache parent where cp: "cache_path_for_url env url = Some (cache, parent)" by (cases cp) auto
  note b = cache_path_below(1,2) [OF cp]
  show ?thesis using assms(1) cp
  proof (cases rule: fetch_url_spec)
    case (failed e t1)
    then show ?thesis using spares_mkdir [OF _ assms(2) b(2), of t t1] by (simp add: spares_def only_changes_def)
  next
    case (fetched c t1)
    then have "spares A t t1" "spares A t1 t'"
      using spares_mkdir [OF _ assms(2) b(2), of t t1] by (auto intro: spares_change [OF _ assms(2) b(1)])
    then show ?thesis by (rule spares_trans)
  qed auto
qed

text \<open>Statements on files that spare what lies outside \<open>A\<close>, composed by the rules for sequencing.\<close>

abbreviation sparing :: "path set \<Rightarrow> 'a fetch \<Rightarrow> ('a \<Rightarrow> bool) \<Rightarrow> bool" where
  "sparing A c Q \<equiv> (\<forall>t0. hoare (spares A t0) c Q)"

lemma sparingI: "(\<And>t r t'. c t = (r, t') \<Longrightarrow> spares A t t' \<and> (\<forall>a. r = Inr a \<longrightarrow> Q a)) \<Longrightarrow> sparing A c Q"
  by (auto intro!: hoareI intro: spares_trans)

lemma sparingD: "sparing A c Q \<Longrightarrow> c t = (r, t') \<Longrightarrow> spares A t t'"
  using hoareD [of "spares A t" c Q t r t'] by simp

lemma os_step_sparing: "(\<And>t t'. f t = Some t' \<Longrightarrow> spares A t t') \<Longrightarrow> sparing A (os_step f) (\<lambda>_. True)"
  by (rule sparingI) (auto simp: os_step_def attempt_iff)

lemma sparing_seq: "sparing A c P \<Longrightarrow> (\<And>a. P a \<Longrightarrow> sparing A (k a) Q) \<Longrightarrow> sparing A (seq c k) Q"
  by (blast intro: hoare_seq)

lemma sparing_then: "sparing A c (\<lambda>_. True) \<Longrightarrow> (\<And>a. sparing A (k a) Q) \<Longrightarrow> sparing A (seq c k) Q"
  by (rule sparing_seq)

lemma sparing_ok: "Q a \<Longrightarrow> sparing A (ok a) Q"
  by (simp add: hoare_ok)

lemma resolve_module_sparing:
  assumes "module_cache_dir env \<in> A"
  shows "sparing A (resolve_module env m rdir) (\<lambda>_. True)"
proof -
  have below: "prefix (module_cache_dir env) p" if l: "locate env m rdir t = (Inr p, t')" and u: "truthy (module_url m)" for p t t'
  proof -
    obtain cache parent where cp: "cache_path_for_url env (the (module_url m)) = Some (cache, parent)"
      using l u by (cases "cache_path_for_url env (the (module_url m))") (auto simp: locate_def fetch_url_def split: if_splits)
    have "p = cache" using l u cp by (auto simp: locate_def fetch_url_def statement_iffs split: if_splits)
    then show ?thesis using cache_path_below(1) [OF cp] by simp
  qed
  have loc: "sparing A (locate env m rdir) (\<lambda>p. truthy (module_url m) \<longrightarrow> prefix (module_cache_dir env) p)"
  proof (rule sparingI)
    fix t r t' assume l: "locate env m rdir t = (r, t')"
    then have "spares A t t'"
      using spares_fetch_url assms
      by (auto simp: locate_def resolve_path_def Let_def fail_def split: if_splits option.splits)
    then show "spares A t t' \<and> (\<forall>p. r = Inr p \<longrightarrow> truthy (module_url m) \<longrightarrow> prefix (module_cache_dir env) p)"
      using l below by blast
  qed
  have chk: "sparing A (check_module env m p) (\<lambda>_. True)" if "truthy (module_url m) \<longrightarrow> prefix (module_cache_dir env) p" for p
  proof (rule sparingI)
    fix t r t' assume c: "check_module env m p t = (r, t')"
    have "t' = t \<or> truthy (module_url m) \<and> t' = dict_pop p t" using check_module_spec [OF c] by blast
    then have "spares A t t'" using that assms by (auto intro: spares_change [of p])
    then show "spares A t t' \<and> (\<forall>a. r = Inr a \<longrightarrow> True)" by simp
  qed
  show ?thesis
    unfolding resolve_module_def by (rule sparing_seq [OF loc] sparing_then [OF chk] sparing_ok | assumption | simp)+
qed

lemma stage_modules_sparing:
  assumes "module_cache_dir env \<in> A" and "a \<in> A" and "prefix a (instance_modules rdir)"
  shows "sparing A (stage_modules env rdir i used ms) (\<lambda>_. True)"
proof (induction ms arbitrary: i used)
  case (Cons m ms)
  have copy: "sparing A (os_step (copy_module (m_denv env) src (instance_modules rdir @ [n]))) (\<lambda>_. True)" for src n
  proof (rule os_step_sparing)
    fix t t' assume "copy_module (m_denv env) src (instance_modules rdir @ [n]) t = Some t'"
    from copy_module_spec [OF this] show "spares A t t'"
      using assms(3) by (auto intro!: spares_change [of "instance_modules rdir @ [n]", OF _ assms(2)])
  qed
  show ?case
    unfolding stage_modules.simps Let_def
    by (rule sparing_then resolve_module_sparing [OF assms(1)] copy Cons.IH sparing_ok TrueI)+
qed (simp add: hoare_ok)

lemma modules_stage_sparing:
  assumes "module_cache_dir env \<in> A" and "a \<in> A" and "prefix a (instance_modules rdir)"
  shows "sparing A (modules_stage_for_instance env rdir ms) (\<lambda>_. True)"
proof -
  have mk: "sparing A (os_step (mkdir_parents (instance_modules rdir))) (\<lambda>_. True)"
    by (rule os_step_sparing) (rule spares_mkdir [OF _ assms(2,3)])
  have un: "sparing A (\<lambda>t. unlink_all (stale_zips (instance_modules rdir) t) t) (\<lambda>_. True)"
  proof (rule sparingI)
    fix t r t' assume u: "unlink_all (stale_zips (instance_modules rdir) t) t = (r, t')"
    have "spares A t t'"
    proof (rule spares_unlink [OF u])
      fix p assume "p \<in> set (stale_zips (instance_modules rdir) t)"
      then have "p = instance_modules rdir @ [last p]" by (auto simp: stale_zips_def dest: append_butlast_last_id)
      then have "prefix a p" using assms(3) by (metis prefix_prefix)
      then show "\<exists>a\<in>A. prefix a p" using assms(2) by blast
    qed
    then show "spares A t t' \<and> (\<forall>a. r = Inr a \<longrightarrow> True)" by simp
  qed
  show ?thesis
    unfolding modules_stage_for_instance_def
    by (rule sparing_then mk un stage_modules_sparing [OF assms])+
qed

lemma frida_stage_spares:
  assumes "frida_stage_for_instance env pe h lz rdir ver expected mode t = Some (r, t')"
    and "frida_cache_dir pe \<in> A" and "rdir \<in> A"
  shows "spares A t t'"
proof (cases "resolve_version h ver (host_frida_tools_version h)")
  case (Inl e)
  then show ?thesis using assms(1) by (simp add: frida_stage_for_instance_def)
next
  case (Inr v)
  let ?arch = "Some (resolve_frida_arch h mode)"
  obtain q t1 where d: "download env pe h lz v expected ?arch t = Some (q, t1)"
    and rest: "case q of Inl e \<Rightarrow> t' = t1 | Inr src \<Rightarrow> copy_staged env src (instance_frida rdir) t1 = (r, t')"
    using assms(1) Inr by (auto simp: frida_stage_for_instance_def Let_def split: option.splits sum.splits)
  have "spares A t t1"
    by (rule spares_only [OF frida_download_facts(1) [OF d]]) (use assms(2) in \<open>auto simp: cached_binary_def\<close>)
  moreover have "spares A t1 t'"
  proof (cases q)
    case (Inr src)
    then have "only_changes {instance_frida rdir} t1 t'" using rest copy_staged_spec by auto
    then show ?thesis by (rule spares_only) (use assms(3) in \<open>auto simp: instance_frida_def\<close>)
  qed (use rest in simp)
  ultimately show ?thesis by (rule spares_trans)
qed

lemma run_steps_spares:
  assumes "\<And>s t t'. s \<in> set ss \<Longrightarrow> s t = Some t' \<Longrightarrow> spares A t t'"
  shows "spares A t (snd (run_steps fails k ss t))"
  using assms
proof (induction ss arbitrary: k t)
  case (Cons s ss)
  show ?case
  proof (cases "fails = Some k \<or> s t = None")
    case False
    then obtain t' where t': "s t = Some t'" by auto
    have "spares A t' (snd (run_steps fails (k + 1) ss t'))" by (rule Cons.IH) (meson Cons.prems list.set_intros(2))
    with Cons.prems [of s t t'] t' False show ?thesis by (auto intro: spares_trans)
  qed auto
qed simp

lemma stage_steps_spares:
  assumes "s \<in> set (stage_steps io name d cfg sp np)" and "s t = Some t'" and "d \<in> A"
  shows "spares A t t'"
proof -
  have w: "spares A u u'" if "write_text (d @ [x]) c u = Some u'" for x c u u'
    using spares_write [OF that assms(3)] by simp
  moreover have m: "spares A u u'" if "mkdir_parents (d @ x) u = Some u'" for x u u'
    using spares_mkdir [OF that assms(3)] by simp
  moreover have "spares A u u''" if "mkdir_parents d u = Some u'" "write_text (d @ [x]) c u' = Some u''" for x c u u' u''
    using m [of "[]" u u'] w [OF that(2)] that(1) by (auto intro: spares_trans)
  ultimately show ?thesis
    using assms(1,2) by (auto simp: stage_steps_def bind_eq_Some_conv split: if_splits)
qed

lemma stage_local_spares:
  assumes "stage_local io name d cfg st = (r, st')" and "d \<in> A"
  shows "spares A (tree st) (tree st')"
proof -
  obtain q st1 where g: "with_registry io (get (io_pyd io) name) st = (q, st1)" by fastforce
  have t: "tree st1 = tree st" using get_same [OF g] by (simp add: same_def)
  show ?thesis
  proof (cases "st' = st1")
    case False
    then obtain ns f k sp np where "st' = st1\<lparr>reg := fold note_world ns (reg st1),
        tree := snd (run_steps f k (stage_steps io name d cfg sp np) (tree st1))\<rparr>"
      using assms(1) g by (auto simp: stage_local_def Let_def case_prod_beta split: sum.splits option.splits)
    then show ?thesis using t run_steps_spares [OF stage_steps_spares [OF _ _ assms(2)]] by simp
  qed (simp add: t)
qed

lemma spares_apart:
  assumes "spares A t t'" and "\<And>a. a \<in> A \<Longrightarrow> a \<parallel> d" and "prefix d q"
  shows "dict_get t' q = dict_get t q"
proof -
  have "x \<parallel> q" if "a \<in> A" "prefix a x" for a x
    using assms(2) [OF that(1)] assms(3) that(2) by (auto simp: prefix_def intro: parallel_append)
  then have "\<not> prefix a q" "\<not> strict_prefix q x" if "a \<in> A" "prefix a x" for a x
    using that by (auto simp: strict_prefix_def)
  then show ?thesis using assms(1) unfolding spares_def only_changes_def by blast
qed

section \<open>Operations on one instance\<close>

definition areas :: "'d oenv \<Rightarrow> path \<Rightarrow> path set" where
  "areas env d = {d, frida_cache_dir (m_paths (o_menv env)), module_cache_dir (o_menv env)}"

definition own_call :: "'d oenv \<Rightarrow> string \<Rightarrow> string list \<Rightarrow> bool" where
  "own_call env name c \<longleftrightarrow> take 4 c = [docker_bin (o_cenv env), ''compose'', ''-p'', name]"

abbreviation orows :: "'d oenv \<Rightarrow> ostate \<Rightarrow> registry_file" where
  "orows env st \<equiv> irows (o_io env) (inst st)"

text \<open>
  What an operation on the object of \<open>st0\<close> may have changed when the state is \<open>st\<close>: its own row up to
  index and directory, its own files and the download caches, and docker's view of its own project.
\<close>

definition isolated :: "'d oenv \<Rightarrow> ostate \<Rightarrow> ostate \<Rightarrow> bool" where
  "isolated env st0 st \<longleftrightarrow>
     dev_name (obj st) = dev_name (obj st0) \<and> dev_root (obj st) = dev_root (obj st0)
   \<and> classes (reg (inst st)) = classes (reg (inst st0))
   \<and> (\<forall>n. n \<noteq> dev_name (obj st0) \<longrightarrow> dict_get (orows env st) n = dict_get (orows env st0) n)
   \<and> same_slot (dict_get (orows env st0) (dev_name (obj st0))) (dict_get (orows env st) (dev_name (obj st0)))
   \<and> spares (areas env (dev_root (obj st0))) (tree (inst st0)) (tree (inst st))
   \<and> (\<exists>cs. ocalls st = ocalls st0 @ cs \<and> list_all (own_call env (dev_name (obj st0))) cs)"

lemma isolated_refl [simp]: "isolated env st st"
  by (simp add: isolated_def)

lemma isolated_trans:
  assumes "isolated env st0 st1" and "isolated env st1 st2"
  shows "isolated env st0 st2"
  using assms unfolding isolated_def by (auto intro: spares_trans same_slot_trans)

text \<open>An interface for operations: what one of them promises, and what follows for a run of several.\<close>

locale isolating =
  fixes env :: "'d oenv" and name :: string and rdir :: path and run :: "ostate \<Rightarrow> (op_error + 'a) \<times> ostate"
  assumes isolates: "pyd_laws (io_pyd (o_io env)) \<Longrightarrow> classes_ok (classes (reg (inst st)))
    \<Longrightarrow> dev_name (obj st) = name \<Longrightarrow> dev_root (obj st) = rdir \<Longrightarrow> run st = (r, st') \<Longrightarrow> isolated env st st'"
begin

lemma isolates_hoare:
  assumes "pyd_laws (io_pyd (o_io env))" and "classes_ok (classes (reg (inst st0)))"
    and "dev_name (obj st0) = name" and "dev_root (obj st0) = rdir"
  shows "hoare (isolated env st0) run (\<lambda>_. True)"
proof (rule hoareI)
  fix st r st' assume st: "isolated env st0 st" "run st = (r, st')"
  then have "classes_ok (classes (reg (inst st)))" "dev_name (obj st) = name" "dev_root (obj st) = rdir"
    using assms(2-) by (simp_all add: isolated_def)
  then show "isolated env st0 st' \<and> (\<forall>a. r = Inr a \<longrightarrow> True)"
    using isolates [OF assms(1) _ _ _ st(2)] st(1) isolated_trans by blast
qed

end

lemma isolating_seq:
  assumes "isolating env nm d c" and "\<And>a. isolating env nm d (k a)"
  shows "isolating env nm d (seq c k)"
proof (rule isolating.intro)
  fix st r st'
  assume a: "pyd_laws (io_pyd (o_io env))" "classes_ok (classes (reg (inst st)))"
    "dev_name (obj st) = nm" "dev_root (obj st) = d" and r: "seq c k st = (r, st')"
  have "hoare (isolated env st) (seq c k) (\<lambda>_. True)"
    by (rule hoare_seq [OF isolating.isolates_hoare [OF assms(1) a]]) (rule isolating.isolates_hoare [OF assms(2) a])
  from hoareD [OF this isolated_refl r] show "isolated env st st'" by simp
qed

lemma isolating_self:
  assumes "\<And>self. dev_name self = nm \<Longrightarrow> dev_root self = d \<Longrightarrow> isolating env nm d (k self)"
  shows "isolating env nm d (on_self k)"
proof (rule isolating.intro)
  fix st r st'
  assume a: "pyd_laws (io_pyd (o_io env))" "classes_ok (classes (reg (inst st)))"
    "dev_name (obj st) = nm" "dev_root (obj st) = d" "on_self k st = (r, st')"
  show "isolated env st st'"
    by (rule isolating.isolates [OF assms [OF a(3,4)] a(1-4)]) (use a(5) in \<open>simp add: on_self_def\<close>)
qed

lemma isolating_pure: "isolating env nm d (ok a)" "isolating env nm d (fail e)"
  by unfold_locales (auto simp: ok_def fail_def)

lemma isolating_on_files:
  assumes "sparing (areas env d) c Q"
  shows "isolating env nm d (on_files c)"
proof (rule isolating.intro)
  fix st r st'
  assume "dev_root (obj st) = d" "on_files c st = (r, st')"
  moreover obtain q t where "c (tree (inst st)) = (q, t)" by fastforce
  ultimately show "isolated env st st'"
    using sparingD [OF assms] by (cases q) (auto simp: on_files_def with_tree_def isolated_def)
qed

lemma isolating_on_inst:
  assumes "\<And>i r i'. c i = (r, i') \<Longrightarrow> irows (o_io env) i' = irows (o_io env) i \<and> classes (reg i') = classes (reg i)
      \<and> spares (areas env d) (tree i) (tree i')"
  shows "isolating env nm d (on_inst c)"
proof (rule isolating.intro)
  fix st r st'
  assume "dev_root (obj st) = d" "on_inst c st = (r, st')"
  moreover obtain q i where "c (inst st) = (q, i)" by fastforce
  ultimately show "isolated env st st'"
    using assms [of "inst st" q i] by (cases q) (auto simp: on_inst_def isolated_def)
qed

lemma isolating_same:
  assumes "\<And>i r i'. c i = (r, i') \<Longrightarrow> same (o_io env) i i'"
  shows "isolating env nm d (on_inst c)"
  by (rule isolating_on_inst) (use assms in \<open>auto simp: same_def\<close>)

text \<open>The leaves.\<close>

lemma isolating_obj_update:
  "isolating env nm d (\<lambda>st. (r, st\<lparr>obj := (obj st)\<lparr>dev_index := i\<rparr>\<rparr>))"
  "isolating env nm d (\<lambda>st. (r, st\<lparr>obj := (obj st)\<lparr>dev_cfg := cfg\<rparr>\<rparr>))"
  by unfold_locales (auto simp: isolated_def)

lemma isolating_notes: "isolating env nm d (resolve_all i cfg)" "isolating env nm d warn_inert_op"
  by unfold_locales (auto simp: resolve_all_def warn_inert_op_def isolated_def split: sum.splits)

lemma isolating_registry:
  "isolating env nm d (on_inst (with_registry (o_io env) (get (io_pyd (o_io env)) n)))"
  "isolating env nm d (check_port_collisions env n ps)"
  "isolating env nm d (on_inst (load_config (o_io env) rdir))"
  unfolding check_port_collisions_def
  by (rule isolating_same, blast intro: get_same load_config_same,
      rule isolating_same, auto elim!: with_registry_cases simp: same_def dest: assert_no_port_collision_rows)
    (rule isolating_same, rule load_config_same)

lemma isolating_stage_local: "isolating env nm d (on_inst (stage_local (o_io env) n d cfg))"
proof (rule isolating_on_inst)
  fix i r i' assume s: "stage_local (o_io env) n d cfg i = (r, i')"
  have "spares (areas env d) (tree i) (tree i')" by (rule stage_local_spares [OF s]) (simp add: areas_def)
  then show "irows (o_io env) i' = irows (o_io env) i \<and> classes (reg i') = classes (reg i) \<and> spares (areas env d) (tree i) (tree i')"
    using stage_local_staged [OF s] by (simp add: staged_def)
qed

lemma isolating_frida: "isolating env nm d (stage_frida env d ver sha b)"
proof (rule isolating.intro)
  fix st r st'
  assume st: "dev_root (obj st) = d" "stage_frida env d ver sha b st = (r, st')"
  let ?run = "frida_stage_for_instance (m_denv (o_menv env)) (m_paths (o_menv env)) (o_host env) (o_lz env) d ver sha (binder_text b)"
  show "isolated env st st'"
  proof (cases "?run (tree (inst st))")
    case None
    then show ?thesis using st(2) by (simp add: stage_frida_def on_download_def)
  next
    case (Some res)
    obtain q t where q: "res = (q, t)" by (cases res)
    have "spares (areas env d) (tree (inst st)) t"
      by (rule frida_stage_spares [OF Some [unfolded q]]) (simp_all add: areas_def)
    moreover have "st' = with_tree st t"
      using st(2) Some q by (cases q) (auto simp: stage_frida_def on_download_def on_files_def)
    ultimately show ?thesis using st(1) by (simp add: isolated_def with_tree_def)
  qed
qed

lemma isolating_modules: "isolating env nm d (on_files (modules_stage_for_instance (o_menv env) d ms))"
  by (rule isolating_on_files, rule modules_stage_sparing [where a = d]) (simp_all add: areas_def instance_modules_def)

lemma base_cmd_own: "base_cmd (o_cenv env) nm d t = Inr base \<Longrightarrow> own_call env nm (base @ args)"
  by (auto simp: base_cmd_def own_call_def split: if_splits)

lemma isolating_compose: "isolating env nm d (on_compose (run_lifecycle (o_cenv env) nm d verb args))"
proof (rule isolating.intro)
  fix st r st'
  assume st: "dev_name (obj st) = nm" "on_compose (run_lifecycle (o_cenv env) nm d verb args) st = (r, st')"
  let ?cs = "\<lparr>ctree = tree (inst st), calls = ocalls st\<rparr>"
  obtain q cs where q: "run_lifecycle (o_cenv env) nm d verb args ?cs = (q, cs)" by fastforce
  then have "calls cs = ocalls st \<or> (\<exists>base. base_cmd (o_cenv env) nm d (tree (inst st)) = Inr base
      \<and> calls cs = ocalls st @ [base @ args])"
    by (auto simp: run_lifecycle_def compose_run_def Let_def statement_iffs split: sum.splits if_splits proc.splits)
  moreover have "st' = st\<lparr>ocalls := calls cs\<rparr>" using st(2) q by (cases q) (auto simp: on_compose_def)
  ultimately show "isolated env st st'" using base_cmd_own st(1) by (fastforce simp: isolated_def)
qed

lemma isolating_reconcile:
  "isolating env nm d (on_inst (with_registry (o_io env) (reconcile_backend_kind (io_pyd (o_io env)) nm mode)))"
proof (rule isolating.intro)
  fix st r st'
  assume a: "pyd_laws (io_pyd (o_io env))" "classes_ok (classes (reg (inst st)))" "dev_name (obj st) = nm"
    and run: "on_inst (with_registry (o_io env) (reconcile_backend_kind (io_pyd (o_io env)) nm mode)) st = (r, st')"
  obtain q i where q: "with_registry (o_io env) (reconcile_backend_kind (io_pyd (o_io env)) nm mode) (inst st) = (q, i)" by fastforce
  then have "st' = st\<lparr>inst := i\<rparr>" using run by (cases q) (auto simp: on_inst_def)
  then show "isolated env st st'"
    using q a reconcile_rows [OF a(1), of "view (o_io env) (inst st)"]
    by (elim with_registry_cases) (auto simp: isolated_def)
qed

lemmas isolating_rules = isolating_seq isolating_pure isolating_notes isolating_registry isolating_stage_local
  isolating_frida isolating_modules isolating_compose isolating_reconcile

lemma isolating_sparing_step: "(\<And>t t'. f t = Some t' \<Longrightarrow> spares (areas env d) t t') \<Longrightarrow> isolating env nm d (on_files (os_step f))"
  by (rule isolating_on_files, rule os_step_sparing)

interpretation meta: isolating env nm d "meta_of env" for env nm d
  unfolding meta_of_def by (intro isolating_self isolating_rules) (simp add: isolating_pure split: option.split)

interpretation idx: isolating env nm d "index_of env" for env nm d
proof -
  have "isolating env nm d (memo_index i)" for i
    using isolating_obj_update(1) by (simp add: memo_index_def [abs_def])
  then show "isolating env nm d (index_of env)"
    unfolding index_of_def
    by (intro isolating_self) (auto split: option.split intro: isolating_rules meta.isolating_axioms)
qed

interpretation set_config: isolating env nm d "set_cfg cfg" for env nm d cfg
  using isolating_obj_update(2) by (simp add: set_cfg_def [abs_def])

interpretation local_stage: isolating env nm d "stage_local_op env" for env nm d
  unfolding stage_local_op_def by (rule isolating_self) (use isolating_stage_local in blast)

interpretation network_stage: isolating env nm d "stage_network env" for env nm d
  unfolding stage_network_def
  by (rule isolating_self) (auto split: option.split intro: isolating_rules)

interpretation frida_install: isolating env nm d "install_frida env ver" for env nm d ver
  unfolding install_frida_def
  by (rule isolating_self) (auto split: option.split intro: isolating_rules)

interpretation heal: isolating env nm d "self_heal env" for env nm d
proof -
  have cond: "isolating env nm d (\<lambda>st. if P st then c st else (Inr (), st))" if "isolating env nm d c" for P c
    using that isolating_pure(1) [of env nm d "()"] by (simp add: isolating_def ok_def)
  show "isolating env nm d (self_heal env)"
    unfolding self_heal_def
    by (intro isolating_self cond isolating_rules idx.isolating_axioms local_stage.isolating_axioms)
qed

interpretation start: isolating env nm d "up env" for env nm d
  unfolding up_def compose_up_def
  by (intro isolating_seq heal.isolating_axioms isolating_self) (auto intro: isolating_compose)

interpretation stop: isolating env nm d "down env" for env nm d
  unfolding down_def compose_down_def by (rule isolating_self) (auto intro: isolating_compose)

interpretation restarting: isolating env nm d "restart env" for env nm d
  unfolding restart_def by (intro isolating_seq stop.isolating_axioms start.isolating_axioms)

interpretation kind: isolating env nm d "reconcile_op env" for env nm d
  unfolding reconcile_op_def by (rule isolating_self) (use isolating_reconcile in blast)

interpretation reloading: isolating env nm d "reload env" for env nm d
  unfolding reload_def
  by (intro isolating_self isolating_rules set_config.isolating_axioms idx.isolating_axioms)

interpretation local_apply: isolating env nm d "apply_local env" for env nm d
  unfolding apply_local_def
  by (intro isolating_rules reloading.isolating_axioms local_stage.isolating_axioms kind.isolating_axioms)

interpretation applying: isolating env nm d "apply_op env" for env nm d
  unfolding apply_op_def
  by (intro isolating_rules local_apply.isolating_axioms network_stage.isolating_axioms)

lemma touch_lock_splits:
  assumes "touch_lock d t = Some t'"
  obtains t1 where "mkdir_parents d t = Some t1" "\<And>q. q \<noteq> lock_file d \<Longrightarrow> dict_get t' q = dict_get t1 q"
proof -
  obtain t1 where t1: "mkdir_parents d t = Some t1" using assms by (auto simp: touch_lock_def bind_eq_Some_conv)
  moreover have "dict_get t' q = dict_get t1 q" if "q \<noteq> lock_file d" for q
    using assms that t1 by (cases "dict_get t1 (lock_file d)"; cases "the (dict_get t1 (lock_file d))") (auto simp: touch_lock_def)
  ultimately show ?thesis using that by blast
qed

lemma touch_lock_spares:
  assumes "touch_lock d t = Some t'" and "d \<in> A"
  shows "spares A t t'"
proof -
  obtain t1 where t1: "mkdir_parents d t = Some t1" "\<And>q. q \<noteq> lock_file d \<Longrightarrow> dict_get t' q = dict_get t1 q"
    using touch_lock_splits [OF assms(1)] by metis
  have "spares A t1 t'" by (rule spares_change [of "lock_file d", OF t1(2) assms(2)]) (simp_all add: lock_file_def)
  then show ?thesis using spares_mkdir [OF t1(1) assms(2)] spares_trans by blast
qed

lemma wipe_data_spares:
  assumes "wipe_data (instance_data d) t = Some t'" and "d \<in> A"
  shows "spares A t t'"
proof -
  have below: "prefix d (instance_data d)" by (simp add: instance_data_def)
  have "spares A t (if exists_at (instance_data d) t then rmtree (instance_data d) t else t)"
    using spares_rmtree [OF assms(2) below] by simp
  moreover have "mkdir_parents (instance_data d) (if exists_at (instance_data d) t then rmtree (instance_data d) t else t) = Some t'"
    using assms(1) by (simp add: wipe_data_def split: if_splits)
  ultimately show ?thesis using spares_mkdir [OF _ assms(2) below] spares_trans by blast
qed

interpretation resetting: isolating env nm d "reset env yes" for env nm d yes
proof -
  have steps: "isolating env nm d (on_files (os_step (touch_lock d)))" "isolating env nm d (on_files (os_step (wipe_data (instance_data d))))"
    by (rule isolating_sparing_step, erule touch_lock_spares wipe_data_spares, simp add: areas_def)+
  have "isolating env nm d (on_self (\<lambda>self. seq (on_files (os_step (touch_lock (dev_root self)))) (\<lambda>_.
     seq (down env) (\<lambda>_. on_files (os_step (wipe_data (instance_data (dev_root self))))))))"
    by (rule isolating_self) (use steps in \<open>blast intro: isolating_seq stop.isolating_axioms\<close>)
  then show "isolating env nm d (reset env yes)" by (simp add: reset_def isolating_pure)
qed

interpretation module_add: isolating env nm d "add_module env source sha" for env nm d source sha
proof -
  have yaml: "isolating env nm d (save_yaml env)"
    unfolding save_yaml_def
  proof (rule isolating_self)
    fix self assume d: "dev_root self = d"
    have "sparing (areas env d) (os_step (mkdir_parents d)) (\<lambda>_. True)"
      by (rule os_step_sparing, erule spares_mkdir [where a = d]) (simp_all add: areas_def)
    moreover have "sparing (areas env d) (os_step (write_text (yaml_path d) c)) (\<lambda>_. True)" for c
      by (rule os_step_sparing, erule spares_write [where a = d]) (simp_all add: areas_def yaml_path_def)
    ultimately show "isolating env nm d (on_files (seq (os_step (mkdir_parents (dev_root self)))
        (\<lambda>_. os_step (write_text (yaml_path (dev_root self)) (io_dump (o_io env) (PDict (dump_config_fields (dev_cfg self))))))))"
      unfolding d by (intro isolating_on_files sparing_then)
  qed
  have "isolating env nm d (on_self (\<lambda>self. seq (on_files (modules_stage_for_instance (o_menv env) (dev_root self) (ms self)))
      (\<lambda>_. seq (set_cfg (c self)) (\<lambda>_. save_yaml env))))" for ms c
    by (rule isolating_self) (use yaml in \<open>blast intro: isolating_seq isolating_modules set_config.isolating_axioms\<close>)
  then show "isolating env nm d (add_module env source sha)" by (simp add: add_module_def Let_def isolating_pure)
qed

section \<open>Isolation\<close>

text \<open>One operation on the object, with whatever outcome.\<close>

inductive op_step :: "'d oenv \<Rightarrow> ostate \<Rightarrow> ostate \<Rightarrow> bool" for env where
  up: "up env st = (r, st') \<Longrightarrow> op_step env st st'"
| down: "down env st = (r, st') \<Longrightarrow> op_step env st st'"
| restart: "restart env st = (r, st') \<Longrightarrow> op_step env st st'"
| reapply: "apply_op env st = (r, st') \<Longrightarrow> op_step env st st'"
| reset: "reset env yes st = (r, st') \<Longrightarrow> op_step env st st'"
| add_module: "add_module env source sha st = (r, st') \<Longrightarrow> op_step env st st'"
| install_frida: "install_frida env ver st = (r, st') \<Longrightarrow> op_step env st st'"

inductive_cases op_stepE: "op_step env st st'"

lemma op_step_isolated:
  assumes "pyd_laws (io_pyd (o_io env))" and "classes_ok (classes (reg (inst st)))" and "op_step env st st'"
  shows "isolated env st st'"
  using assms(3)
  by (cases rule: op_step.cases)
    (erule start.isolates [OF assms(1,2) refl refl] stop.isolates [OF assms(1,2) refl refl]
      restarting.isolates [OF assms(1,2) refl refl] applying.isolates [OF assms(1,2) refl refl]
      resetting.isolates [OF assms(1,2) refl refl] module_add.isolates [OF assms(1,2) refl refl]
      frida_install.isolates [OF assms(1,2) refl refl])+

lemma op_steps_isolated:
  assumes "pyd_laws (io_pyd (o_io env))" and "(op_step env)\<^sup>*\<^sup>* st st'" and "classes_ok (classes (reg (inst st)))"
  shows "isolated env st st'"
  using assms(2)
proof (induction rule: rtranclp_induct)
  case (step st1 st2)
  then have "classes_ok (classes (reg (inst st1)))" using assms(3) by (simp add: isolated_def)
  then show ?case using op_step_isolated [OF assms(1) _ step(2)] step(3) isolated_trans by blast
qed simp

text \<open>
  C9: whatever is done with one instance - any sequence of starting, stopping, restarting, applying
  an edited configuration, resetting, adding modules and installing frida, each succeeding or failing
  at any point - no other instance notices: its registry row is the same, every file below its
  directory is the same, docker is only ever asked about the instance's own project, and the instance
  keeps its port index and directory. The hypotheses are those of the registry's invariant, and that
  the other directory lies apart from this one and from the user's download caches.
\<close>

theorem instance_operations_isolated:
  assumes "pyd_laws (io_pyd (o_io env))" and "classes_ok (classes (reg (inst st)))" and "(op_step env)\<^sup>*\<^sup>* st st'"
    and "\<And>a. a \<in> areas env (dev_root (obj st)) \<Longrightarrow> a \<parallel> other"
  shows "(\<forall>n. n \<noteq> dev_name (obj st) \<longrightarrow> dict_get (orows env st') n = dict_get (orows env st) n)
    \<and> (\<forall>q. prefix other q \<longrightarrow> dict_get (tree (inst st')) q = dict_get (tree (inst st)) q)
    \<and> (\<exists>cs. ocalls st' = ocalls st @ cs \<and> list_all (own_call env (dev_name (obj st))) cs)
    \<and> same_slot (dict_get (orows env st) (dev_name (obj st))) (dict_get (orows env st') (dev_name (obj st)))"
  using op_steps_isolated [OF assms(1,3,2)] spares_apart [OF _ assms(4)] by (auto simp: isolated_def)

text \<open>The host of \<open>one_instance\<close> with a docker that always succeeds.\<close>

definition demo_cenv :: cenv where
  "demo_cenv = \<lparr>docker_bin = ''docker'', docker_found = True, bundled_compose = ''/pkg/compose.yaml'',
     docker_run = (\<lambda>_ _. Exited 0 [] []), c_json = (\<lambda>_. BadJson), c_str = (\<lambda>_. [])\<rparr>"

definition demo_ops :: "bool oenv" where
  "demo_ops = \<lparr>o_io = host_io, o_cenv = demo_cenv, o_menv = demo_menv, o_host = demo_host, o_lz = plain\<rparr>"

definition demo_obj :: ostate where
  "demo_obj = \<lparr>inst = one_instance, ocalls = [], obj = \<lparr>dev_name = ''alpha'', dev_root = split_path ''/srv/a'',
     dev_cfg = default_config, dev_index = None\<rparr>\<rparr>"

lemma demo_laws: "pyd_laws (io_pyd (o_io demo_ops))" "classes_ok (classes (reg (inst demo_obj)))"
  using host_io_ok strict_pyd_laws one_instance_classes by (simp_all add: demo_ops_def demo_obj_def)

lemma demo_areas: "areas demo_ops (dev_root (obj demo_obj)) = {[''srv'', ''a''], [''c'', ''frida''], [''c'', ''modules'']}"
proof -
  have "frida_cache_dir (m_paths (o_menv demo_ops)) = [''c'', ''frida'']" "module_cache_dir (o_menv demo_ops) = [''c'', ''modules'']"
    "dev_root (obj demo_obj) = [''srv'', ''a'']" by code_simp+
  then show ?thesis by (simp add: areas_def)
qed

theorem instance_operations_isolated_witness:
  "\<exists>st'. (op_step demo_ops)\<^sup>*\<^sup>* demo_obj st'
     \<and> (\<forall>q. prefix [''srv'', ''b''] q \<longrightarrow> dict_get (tree (inst st')) q = dict_get (tree (inst demo_obj)) q)
     \<and> length (ocalls st') = 2"
proof -
  obtain r st1 where r: "up demo_ops demo_obj = (r, st1)" by fastforce
  obtain q st2 where q: "reset demo_ops True st1 = (q, st2)" by fastforce
  have steps: "(op_step demo_ops)\<^sup>*\<^sup>* demo_obj st2"
    using op_step.up [OF r] op_step.reset [OF q] by (meson converse_rtranclp_into_rtranclp r_into_rtranclp)
  have apart: "a \<in> areas demo_ops (dev_root (obj demo_obj)) \<Longrightarrow> a \<parallel> [''srv'', ''b'']" for a
    unfolding demo_areas by (auto simp: parallel_def)
  have "length (ocalls (snd (reset demo_ops True (snd (up demo_ops demo_obj))))) = 2" by code_simp
  then have "length (ocalls st2) = 2" using r q by simp
  then show ?thesis
    using instance_operations_isolated [OF demo_laws steps apart] steps by blast
qed

end
