(* ===== verification/Operations_Life.thy ===== *)
theory Operations_Life
  imports Operations_Props
begin

text \<open>
  What the operations of an instance do: docker is only started on a staged directory, an edited
  configuration takes effect in the registry before any download, a reset drops the data and nothing
  else, and a module that cannot be staged leaves the configuration alone.
\<close>

section \<open>Starting\<close>

lemma stage_steps_files:
  assumes "run_steps fails k (stage_steps io name d cfg sp np) t = (Inr (), t')"
  shows "\<not> needs_restage d t'"
proof -
  let ?env = "render_env (io_float io) (io_render_node io) name cfg sp" and ?ports = "render_compose_ports_override np"
  obtain t1 t2 t3 where t: "write_text (d @ [''.env'']) ?env t1 = Some t2"
      "write_text (d @ [''compose.override.yaml'']) ?ports t2 = Some t3"
      "(if frida cfg = None \<or> \<not> has_real_frida d t3
        then Option.bind (mkdir_parents d t3) (write_text (d @ [''frida-server'']) []) else Some t3) = Some t'"
    using assms by (auto simp: stage_steps_def split: if_splits option.splits)
  have e: "dict_get t3 (d @ [''.env'']) = Some (File ?env)" "dict_get t3 (d @ [''compose.override.yaml'']) = Some (File ?ports)"
    using t(1,2) by (auto simp: write_text_def split: if_splits)
  have "dict_get t' q = dict_get t3 q" if "dict_get t3 q \<noteq> None" "q \<noteq> d @ [''frida-server'']" for q
    using t(3) that by (auto simp: bind_eq_Some_conv write_text_def mkdir_parents_get split: if_splits)
  then show ?thesis using e by (simp add: needs_restage_def is_file_at_def is_file_node_def instance_env_def instance_compose_override_def)
qed

lemma stage_local_files:
  assumes "stage_local io name d cfg st = (Inr (), st')"
  shows "\<not> needs_restage d (tree st')"
  using assms stage_steps_files
  by (auto simp: stage_local_def Let_def split: prod.splits sum.splits option.splits)

text \<open>What statements before the docker call keep of the object and of the calls made.\<close>

definition quiet :: "ostate \<Rightarrow> ostate \<Rightarrow> bool" where
  "quiet st st' \<longleftrightarrow> ocalls st' = ocalls st \<and> dev_cfg (obj st') = dev_cfg (obj st)
     \<and> dev_name (obj st') = dev_name (obj st) \<and> dev_root (obj st') = dev_root (obj st)"

lemma quiet_refl [simp]: "quiet st st"
  by (simp add: quiet_def)

lemma quiet_trans: "quiet st st' \<Longrightarrow> quiet st' st'' \<Longrightarrow> quiet st st''"
  by (simp add: quiet_def)

lemma quiet_parts:
  "on_inst c st = (r, st') \<Longrightarrow> quiet st st'" "on_files f st = (r', st') \<Longrightarrow> quiet st st'"
  "on_download g st = (r'', st') \<Longrightarrow> quiet st st'" "resolve_all i cfg st = (rp, st') \<Longrightarrow> quiet st st'"
  by (auto simp: on_inst_def on_files_def with_tree_def on_download_def resolve_all_def quiet_def
      split: prod.splits sum.splits option.splits)

lemma index_of_quiet: "index_of env st = (r, st') \<Longrightarrow> quiet st st' \<and> tree (inst st') = tree (inst st)"
proof -
  assume i: "index_of env st = (r, st')"
  have m: "quiet st st1 \<and> tree (inst st1) = tree (inst st)" if "meta_of env st = (q, st1)" for q st1
    using that
    by (auto simp: meta_of_def on_self_def on_inst_def quiet_def statement_iffs
        split: prod.splits sum.splits option.splits elim: with_registry_cases)
  show ?thesis
    using i m by (auto simp: index_of_def on_self_def statement_iffs memo_index_def quiet_def split: option.splits)
qed

lemma self_heal_spec:
  assumes "self_heal env st = (r, st')"
  shows "quiet st st' \<and> (\<not> needs_restage (dev_root (obj st)) (tree (inst st)) \<longrightarrow> r = Inr () \<and> st' = st)
    \<and> (r = Inr () \<longrightarrow> \<not> needs_restage (dev_root (obj st)) (tree (inst st')))"
proof (cases "needs_restage (dev_root (obj st)) (tree (inst st))")
  case True
  let ?self = "obj st"
  have run: "seq (index_of env) (\<lambda>i. seq (resolve_all i (dev_cfg ?self)) (\<lambda>new_ports.
      seq (check_port_collisions env (dev_name ?self) new_ports) (\<lambda>_. stage_local_op env))) st = (r, st')"
    using assms True by (simp add: self_heal_def on_self_def)
  have staged: "quiet st1 st2 \<and> (q = Inr () \<longrightarrow> \<not> needs_restage (dev_root (obj st1)) (tree (inst st2)))"
    if "stage_local_op env st1 = (q, st2)" for st1 q st2
    using that stage_local_files
    by (auto simp: stage_local_op_def on_self_def on_inst_def quiet_def split: prod.splits sum.splits)
  have "quiet st st' \<and> (r = Inr () \<longrightarrow> \<not> needs_restage (dev_root ?self) (tree (inst st')))"
    using run unfolding seq_iff check_port_collisions_def
    by (elim disjE exE conjE) (auto dest!: index_of_quiet quiet_parts staged dest: quiet_trans simp: quiet_def)
  then show ?thesis using True by simp
next
  case False
  then show ?thesis using assms by (simp add: self_heal_def on_self_def)
qed

definition up_cmd :: "'d oenv \<Rightarrow> device \<Rightarrow> string list" where
  "up_cmd env self = [docker_bin (o_cenv env), ''compose'', ''-p'', dev_name self, ''-f'', bundled_compose (o_cenv env),
     ''-f'', path_str (instance_compose_override (dev_root self)), ''--project-directory'', path_str (dev_root self),
     ''--env-file'', path_str (instance_env (dev_root self)), ''up'', ''-d'']"

lemma compose_up_calls:
  assumes "on_compose (compose_up (o_cenv env) nm d) st = (r, st')" and "\<not> needs_restage d (tree (inst st))"
    and "nm = dev_name (obj st)" and "d = dev_root (obj st)"
  shows "inst st' = inst st \<and> (ocalls st' = ocalls st \<or> ocalls st' = ocalls st @ [up_cmd env (obj st)])
    \<and> (r = Inr () \<longrightarrow> ocalls st' = ocalls st @ [up_cmd env (obj st)])"
proof -
  let ?cs = "\<lparr>ctree = tree (inst st), calls = ocalls st\<rparr>"
  obtain q cs where q: "compose_up (o_cenv env) nm d ?cs = (q, cs)" by fastforce
  have base: "base_cmd (o_cenv env) nm d (tree (inst st)) = Inr b \<Longrightarrow> b @ [''up'', ''-d''] = up_cmd env (obj st)" for b
    using assms(2-4) by (auto simp: base_cmd_def up_cmd_def needs_restage_def split: if_splits)
  have "calls cs = ocalls st \<or> calls cs = ocalls st @ [up_cmd env (obj st)]"
       "q = Inr () \<longrightarrow> calls cs = ocalls st @ [up_cmd env (obj st)]"
    using q base unfolding compose_up_def run_lifecycle_def compose_run_def
    by (auto simp: Let_def statement_iffs split: sum.splits if_splits proc.splits)
  moreover have "st' = st\<lparr>ocalls := calls cs\<rparr>" "is_ok r \<longleftrightarrow> is_ok q"
    using assms(1) q by (cases q; auto simp: on_compose_def)+
  ultimately show ?thesis by (cases q) auto
qed



section \<open>Applying an edited configuration\<close>

lemma hoare_self: "(\<And>self. hoare I (k self) Q) \<Longrightarrow> hoare I (on_self k) Q"
  by (simp add: hoare_def on_self_def)

text \<open>Downloads change the tree and nothing else.\<close>

definition tree_only :: "ostate \<Rightarrow> ostate \<Rightarrow> bool" where
  "tree_only st st' \<longleftrightarrow> (\<exists>t. st' = with_tree st t)"

lemma tree_only_hoare:
  "hoare (tree_only st) (on_files c) (\<lambda>_. True)" "hoare (tree_only st) (on_download g) (\<lambda>_. True)"
  by (auto simp: hoare_def tree_only_def on_files_def on_download_def with_tree_def split: option.splits prod.splits sum.splits)

lemma stage_network_tree_only:
  assumes "stage_network env st = (r, st')"
  shows "tree_only st st'"
proof -
  have h: "hoare (tree_only st) (stage_network env) (\<lambda>_. True)"
    unfolding stage_network_def stage_frida_def
    by (intro hoare_self hoare_seq [OF _ hoare_seq [OF tree_only_hoare(1)]])
      (auto intro: hoare_ok hoare_seq [OF tree_only_hoare(2)] split: option.split)
  have "with_tree st (tree (inst st)) = st" by (simp add: with_tree_def)
  then have "tree_only st st" unfolding tree_only_def by metis
  from hoareD [OF h this assms] show ?thesis by simp
qed

lemma reload_same:
  assumes "reload env st = (r, st')"
  shows "same (o_io env) (inst st) (inst st')"
proof -
  let ?I = "\<lambda>s. same (o_io env) (inst st) (inst s)"
  have get: "hoare ?I (on_inst (with_registry (o_io env) (get (io_pyd (o_io env)) n))) (\<lambda>_. True)" for n
    by (rule hoareI) (auto simp: on_inst_def split: prod.splits sum.splits dest: get_same intro: same_trans)
  have col: "hoare ?I (check_port_collisions env n ps) (\<lambda>_. True)" for n ps
    by (rule hoareI) (auto simp: check_port_collisions_def on_inst_def same_def split: prod.splits sum.splits
        elim!: with_registry_cases dest: assert_no_port_collision_rows)
  have load: "hoare ?I (on_inst (load_config (o_io env) d)) (\<lambda>_. True)" for d
    by (rule hoareI) (auto simp: on_inst_def split: prod.splits sum.splits dest: load_config_same intro: same_trans)
  have upd: "hoare ?I (set_cfg cfg) (\<lambda>_. True)" "hoare ?I (memo_index i) (\<lambda>_. True)" "hoare ?I (resolve_all i cfg) (\<lambda>_. True)" for cfg i
    by (auto simp: hoare_def set_cfg_def memo_index_def resolve_all_def same_def split: sum.splits)
  have "hoare ?I (meta_of env) (\<lambda>_. True)"
    unfolding meta_of_def by (intro hoare_self hoare_seq [OF get]) (simp add: hoare_ok hoare_fail split: option.split)
  then have "hoare ?I (index_of env) (\<lambda>_. True)"
    unfolding index_of_def by (intro hoare_self) (auto split: option.split intro: hoare_ok hoare_seq upd)
  then have "hoare ?I (reload env) (\<lambda>_. True)"
    unfolding reload_def by (intro hoare_self hoare_seq [OF load] hoare_seq [OF upd(1)] hoare_seq [OF upd(3)] hoare_seq col)
  from hoareD [OF this _ assms] show ?thesis by simp
qed

lemma apply_local_kind:
  assumes "pyd_laws (io_pyd (o_io env))" and "classes_ok (classes (reg (inst st)))" and "apply_local env st = (Inr u, st1)"
    and "dict_get (orows env st1) (dev_name (obj st1)) = Some m"
  shows "kind_matches (binder_mode (dev_cfg (obj st1))) m"
proof -
  obtain b s2 where pre: "seq (reload env) (\<lambda>_. stage_local_op env) st = (Inr (), s2)" and r: "reconcile_op env s2 = (Inr b, st1)"
    using assms(3) by (auto simp: apply_local_def statement_iffs)
  have "isolating env nm d (seq (reload env) (\<lambda>_. stage_local_op env))" for nm d
    by (intro isolating_seq reloading.isolating_axioms local_stage.isolating_axioms)
  from isolating.isolates [OF this assms(1,2) refl refl pre] have c: "classes_ok (classes (reg (inst s2)))"
    using assms(2) by (simp add: isolated_def)
  obtain i where i: "with_registry (o_io env) (reconcile_backend_kind (io_pyd (o_io env)) (dev_name (obj s2)) (binder_mode (dev_cfg (obj s2))))
      (inst s2) = (Inr b, i)" "st1 = s2\<lparr>inst := i\<rparr>"
    using r by (auto simp: reconcile_op_def on_self_def on_inst_def split: prod.splits sum.splits)
  then show ?thesis
    using reconcile_rows [OF assms(1), of "view (o_io env) (inst s2)" _ _ "Inr b" "reg i"] c assms(4)
    by (elim with_registry_cases) auto
qed

text \<open>
  C10: applying an edited configuration takes effect in the registry before anything is downloaded. If
  the file cannot be read or its ports collide with another instance, rows and files stay as they
  were. Once the local stage is through, the row has the kind of backend the new configuration asks
  for and the object holds that configuration, whether or not the downloads that follow succeed, so
  a failed download does not leave a micro-VM configuration registered as a container.
\<close>

theorem apply_kind_before_downloads:
  assumes "pyd_laws (io_pyd (o_io env))" and "classes_ok (classes (reg (inst st)))" and "apply_op env st = (r, st')"
  shows "(\<forall>e s. reload env st = (Inl e, s) \<longrightarrow> r = Inl e \<and> same (o_io env) (inst st) (inst st'))
    \<and> (\<forall>u s m. apply_local env st = (Inr u, s) \<longrightarrow> dict_get (orows env st') (dev_name (obj st')) = Some m \<longrightarrow>
         obj st' = obj s \<and> kind_matches (binder_mode (dev_cfg (obj st'))) m)"
proof (intro conjI allI impI)
  fix e s assume "reload env st = (Inl e, s)"
  then have "apply_op env st = (Inl e, s)" by (simp add: apply_op_def apply_local_def seq_def)
  then show "r = Inl e" "same (o_io env) (inst st) (inst st')"
    using assms(3) reload_same [OF \<open>reload env st = (Inl e, s)\<close>] by simp_all
next
  fix u s m assume l: "apply_local env st = (Inr u, s)" and m: "dict_get (orows env st') (dev_name (obj st')) = Some m"
  obtain q s1 where n: "stage_network env s = (q, s1)" by fastforce
  have t: "tree_only s s1" by (rule stage_network_tree_only [OF n])
  have "obj st' = obj s1 \<and> orows env st' = orows env s1"
    using assms(3) l n by (cases q) (auto simp: apply_op_def statement_iffs warn_inert_op_def)
  then have o: "obj st' = obj s" "orows env st' = orows env s"
    using t by (auto simp: tree_only_def with_tree_def)
  then have "kind_matches (binder_mode (dev_cfg (obj s))) m" using apply_local_kind [OF assms(1,2) l] m by simp
  then show "obj st' = obj s" "kind_matches (binder_mode (dev_cfg (obj st'))) m" using o by simp_all
qed

text \<open>The instance's file now says \<open>binder: vm\<close> and names a frida version, and the network is down.\<close>

definition vm_edit :: "instance_config" where
  "vm_edit = default_config\<lparr>binder_mode := BinderVm, frida := Some \<lparr>frida_version = ''16.4.10'', frida_sha256 = None\<rparr>\<rparr>"

definition offline :: "bool oenv" where
  "offline = demo_ops\<lparr>o_menv := demo_menv\<lparr>m_denv := demo_env\<lparr>d_net := (\<lambda>_. Refused UrlErr)\<rparr>\<rparr>\<rparr>"

definition edited_obj :: ostate where
  "edited_obj = demo_obj\<lparr>inst := \<lparr>reg = example_world\<lparr>yaml := example_env PNone\<lparr>
     safe_load := (\<lambda>_. Some (PDict (dump_config_fields vm_edit))), coerce := const_coercer vm_edit\<rparr>\<rparr>,
     tree = [([''srv''], Dir), ([''srv'', ''a''], Dir), ([''srv'', ''a'', ''beetroot.yaml''], File [])]\<rparr>\<rparr>"

theorem apply_kind_before_downloads_witness:
  "\<exists>st' m. apply_op offline edited_obj = (Inl (OpFetch Cannot_reach), st')
     \<and> dict_get (orows offline st') ''alpha'' = Some m \<and> kind_of (backend m) = ''vm''"
proof -
  let ?r = "apply_op offline edited_obj" and ?l = "apply_local offline edited_obj"
  have "case ?r of (r, st') \<Rightarrow> r = Inl (OpFetch Cannot_reach) \<and> dev_name (obj st') = ''alpha''
      \<and> binder_mode (dev_cfg (obj st')) = BinderVm
      \<and> map_option (\<lambda>m. dir_of (backend m)) (dict_get (orows offline st') ''alpha'') = Some (Some ''/a'')" by code_simp
  then have run: "fst ?r = Inl (OpFetch Cannot_reach)"
    and own: "dev_name (obj (snd ?r)) = ''alpha''" "binder_mode (dev_cfg (obj (snd ?r))) = BinderVm"
    and row: "map_option (\<lambda>m. dir_of (backend m)) (dict_get (orows offline (snd ?r)) ''alpha'') = Some (Some ''/a'')"
    by (auto simp: case_prod_beta)
  have l: "fst ?l = Inr ()" by code_simp
  from row obtain m where m: "dict_get (orows offline (snd ?r)) ''alpha'' = Some m" "dir_of (backend m) = Some ''/a''" by auto
  have laws: "pyd_laws (io_pyd (o_io offline))" "classes_ok (classes (reg (inst edited_obj)))"
    using demo_laws by (simp_all add: offline_def edited_obj_def example_world_def in_tree_classes_ok)
  have "?l = (Inr (), snd ?l)" using l by (simp add: prod_eq_iff)
  then have "kind_matches (binder_mode (dev_cfg (obj (snd ?r)))) m"
    using apply_kind_before_downloads [OF laws surjective_pairing, THEN conjunct2, rule_format, of "()" "snd ?l" m] m(1)
    unfolding own(1) by blast
  then have "kind_matches BinderVm m" unfolding own(2) .
  then have "kind_of (backend m) = ''vm''" using m(2) by (simp add: kind_matches_def)
  then show ?thesis using run m(1) by (metis prod.collapse)
qed

section \<open>Resetting\<close>

text \<open>Below \<open>data/\<close> everything may change; elsewhere only the lock file and missing directories appear.\<close>

definition data_area :: "path \<Rightarrow> path set" where
  "data_area d = insert (lock_file d) {q. prefix (instance_data d) q}"

lemma down_frame: "down env st = (r, st') \<Longrightarrow> inst st' = inst st \<and> obj st' = obj st \<and> (\<forall>e. r = Inl e \<longrightarrow> (\<exists>c. e = OpCompose c))"
  by (auto simp: down_def on_self_def on_compose_def split: prod.splits sum.splits)

lemma down_calls: "down env st = (Inr u, st') \<Longrightarrow> length (ocalls st') = length (ocalls st) + 1"
  by (auto simp: down_def on_self_def on_compose_def compose_down_def run_lifecycle_iff split: prod.splits sum.splits)

lemma touch_lock_only: "touch_lock d t = Some t' \<Longrightarrow> only_changes {lock_file d} t t'"
  by (erule touch_lock_splits) (auto simp: only_changes_def mkdir_parents_get lock_file_def strict_prefix_def)

lemma wipe_data_spec:
  assumes "wipe_data (instance_data d) t = Some t'"
  shows "only_changes {q. prefix (instance_data d) q} t t' \<and> dict_get t' (instance_data d) = Some Dir
    \<and> (dict_get t (instance_data d) \<noteq> None \<longrightarrow> (\<forall>q. strict_prefix (instance_data d) q \<longrightarrow> dict_get t' q = None))"
proof -
  let ?D = "instance_data d"
  let ?t = "if exists_at ?D t then rmtree ?D t else t"
  have mk: "mkdir_parents ?D ?t = Some t'" using assms by (simp add: wipe_data_def split: if_splits)
  have ne: "?D \<noteq> []" by (simp add: instance_data_def)
  have "only_changes {q. prefix ?D q} t ?t" by (auto simp: only_changes_def rmtree_get)
  moreover have "only_changes {q. prefix ?D q} ?t t'"
    unfolding only_changes_def mkdir_parents_get [OF mk] by (auto simp: strict_prefix_def)
  ultimately have "only_changes {q. prefix ?D q} t t'" by (rule only_changes_trans)
  moreover have "dict_get t' q = None" if "strict_prefix ?D q" "dict_get t ?D \<noteq> None" for q
    using that by (auto simp: mkdir_parents_get [OF mk] rmtree_get exists_at_def ne strict_prefix_def dest: prefix_order.antisym)
  ultimately show ?thesis using mkdir_makes [OF mk ne] by blast
qed

text \<open>
  C12: resetting an instance drops its data and nothing else. Without confirmation nothing happens;
  the container is stopped first, and when that fails everything below \<open>data/\<close> is still there. A reset
  that succeeds leaves an empty \<open>data/\<close>. Configuration, staged tooling, generated files and the
  registry are as they were in every case.
\<close>

theorem reset_drops_data_only:
  assumes "reset env yes st = (r, st')"
  defines "d \<equiv> dev_root (obj st)"
  shows "only_changes (data_area d) (tree (inst st)) (tree (inst st')) \<and> reg (inst st') = reg (inst st) \<and> obj st' = obj st
    \<and> (\<forall>e. r = Inl e \<longrightarrow> only_changes {lock_file d} (tree (inst st)) (tree (inst st')))
    \<and> (r = Inr () \<longrightarrow> yes \<and> length (ocalls st') = length (ocalls st) + 1
         \<and> dict_get (tree (inst st')) (instance_data d) = Some Dir
         \<and> (dict_get (tree (inst st)) (instance_data d) \<noteq> None \<longrightarrow>
              (\<forall>q. strict_prefix (instance_data d) q \<longrightarrow> dict_get (tree (inst st')) q = None)))"
proof (cases yes)
  case False
  then show ?thesis using assms(1) by (auto simp: reset_def fail_def)
next
  case True
  let ?t = "tree (inst st)"
  have run: "seq (on_files (os_step (touch_lock d))) (\<lambda>_. seq (down env) (\<lambda>_. on_files (os_step (wipe_data (instance_data d))))) st = (r, st')"
    using assms(1) True by (simp add: reset_def on_self_def d_def)
  show ?thesis
  proof (cases "touch_lock d ?t")
    case None
    then have "r = Inl (OpFetch (Raised OsErr))" "st' = with_tree st ?t"
      using run by (auto simp: seq_def on_files_def os_step_def attempt_def)
    then show ?thesis by (simp add: with_tree_def)
  next
    case (Some t1)
    note lock = touch_lock_only [OF Some]
    have lock': "only_changes (data_area d) ?t t1" by (rule only_changes_mono [OF lock]) (simp add: data_area_def)
    obtain q s2 where q: "down env (with_tree st t1) = (q, s2)" by fastforce
    have s2: "inst s2 = (inst st)\<lparr>tree := t1\<rparr>" "obj s2 = obj st" using down_frame [OF q] by (simp_all add: with_tree_def)
    have rest: "case q of Inl e \<Rightarrow> r = Inl e \<and> st' = s2 | Inr _ \<Rightarrow> on_files (os_step (wipe_data (instance_data d))) s2 = (r, st')"
      using run Some q by (cases q) (auto simp: seq_def on_files_def os_step_def attempt_def)
    show ?thesis
    proof (cases "\<exists>u t'. q = Inr u \<and> wipe_data (instance_data d) t1 = Some t'")
      case False
      then have "(\<exists>e. r = Inl e) \<and> inst st' = (inst st)\<lparr>tree := t1\<rparr> \<and> obj st' = obj st"
        using rest s2 by (cases q; cases "wipe_data (instance_data d) t1")
          (auto simp: on_files_def os_step_def attempt_def with_tree_def)
      then show ?thesis using lock lock' by auto
    next
      case True
      then obtain u t' where w: "q = Inr u" "wipe_data (instance_data d) t1 = Some t'" by blast
      then have st': "st' = with_tree s2 t'" "r = Inr ()"
        using rest s2 by (simp_all add: on_files_def os_step_def attempt_def)
      note wipe = wipe_data_spec [OF w(2)]
      have "only_changes (data_area d) t1 t'"
        by (rule only_changes_mono [OF wipe [THEN conjunct1]]) (auto simp: data_area_def)
      then have "only_changes (data_area d) ?t t'" by (rule only_changes_trans [OF lock'])
      moreover have "dict_get t1 (instance_data d) \<noteq> None" if "dict_get ?t (instance_data d) \<noteq> None"
        using only_changes_existing [OF lock, of "instance_data d"] that by (auto simp: instance_data_def lock_file_def)
      moreover have "length (ocalls st') = length (ocalls st) + 1"
        using down_calls [of env "with_tree st t1" u s2] q w(1) st'(1) by (simp add: with_tree_def)
      ultimately show ?thesis using wipe True st' s2 \<open>yes\<close> by (auto simp: with_tree_def)
    qed
  qed
qed

theorem reset_drops_data_only_witness:
  "\<exists>st'. reset demo_ops True demo_obj = (Inr (), st')
     \<and> dict_get (tree (inst st')) (instance_data [''srv'', ''a'']) = Some Dir
     \<and> only_changes (data_area [''srv'', ''a'']) (tree (inst demo_obj)) (tree (inst st'))"
proof -
  have "fst (reset demo_ops True demo_obj) = Inr ()" and d: "dev_root (obj demo_obj) = [''srv'', ''a'']" by code_simp+
  then obtain st' where r: "reset demo_ops True demo_obj = (Inr (), st')" by (metis prod.collapse)
  show ?thesis using reset_drops_data_only [OF r] r unfolding d by blast
qed

section \<open>Adding a module\<close>

lemma stage_keeps_yaml:
  assumes "modules_stage_for_instance env d ms t = (r, t')" and "\<not> prefix (module_cache_dir env) (yaml_path d)"
    and "dict_get t (yaml_path d) = Some n"
  shows "dict_get t' (yaml_path d) = Some n"
proof -
  have "spares {instance_modules d, module_cache_dir env} t t'"
    by (rule sparingD [OF modules_stage_sparing assms(1), where a1 = "instance_modules d"]) simp_all
  then show ?thesis
    using only_changes_existing [OF _ _ assms(3)] assms(2) by (auto simp: spares_def yaml_path_def instance_modules_def)
qed

lemma with_module_valid:
  assumes "config_valid cfg" and "module_ok (module_for source sha)"
  shows "config_valid (with_module source sha cfg)"
  using assms by (simp add: config_valid_def with_module_def config_after_ok_def check_ports_distinct_def
      check_required_addressing_services_def check_api_version_def)

lemma load_saved:
  assumes "config_valid cfg" and "reads_dump (coerce (yaml (reg i))) cfg"
    and "safe_load (yaml (reg i)) (io_dump io (PDict (dump_config_fields cfg))) = Some (PDict (dump_config_fields cfg))"
    and "io_resolve io (instance_yaml (path_str d)) = yaml_path d"
    and "dict_get (tree i) (yaml_path d) = Some (File (io_dump io (PDict (dump_config_fields cfg))))"
  shows "fst (load_config io d i) = Inr cfg"
proof -
  have api: "api_version cfg = 8"
    using assms(1) by (simp add: config_valid_def config_after_ok_def check_api_version_def SUPPORTED_API_VERSION_def)
  have "bump_api_version env' path (PDict (dump_config_fields cfg)) ls = (Inr (PDict (dump_config_fields cfg)), ls)"
      "note_ports_migration env' path (PDict (dump_config_fields cfg)) ls = ls" for env' path ls
    by (simp_all add: bump_api_version_def note_ports_migration_def dump_lookup auto_bumpable_def AUTO_BUMPABLE_API_VERSIONS_def api)
  then show ?thesis
    using assms(3-5) model_validate_dump [OF assms(1,2)] by (simp add: load_config_def load_yaml_def view_def split: prod.split)
qed


definition with_zip :: instance_config where
  "with_zip = with_module ''https://x/m.zip'' None default_config"

definition zip_obj :: ostate where
  "zip_obj = demo_obj\<lparr>inst := \<lparr>reg = example_world\<lparr>yaml := (yaml example_world)\<lparr>
     safe_load := (\<lambda>_. Some (PDict (dump_config_fields with_zip))), coerce := const_coercer with_zip\<rparr>\<rparr>,
     tree = [([''srv''], Dir), ([''srv'', ''a''], Dir), ([''srv'', ''a'', ''beetroot.yaml''], File ''old'')]\<rparr>\<rparr>"


end
