(* ===== verification/Manager.thy ===== *)
theory Manager
  imports Operations_Life "HOL-Library.Char_ord" "HOL-Library.List_Lexorder"
begin

text \<open>
  Looking instances up: the table of backend classes with its plugins (\<open>backends/__init__.py\<close>), the
  constructors from a registry row (\<open>from_meta\<close> of the three backends, \<open>Instance.load\<close> and
  \<open>from_path\<close>) and the \<open>Manager\<close> of \<open>api.py\<close>. A plugin's class is known by its name; what its
  constructor answers is an argument.
\<close>

section \<open>Backend classes\<close>

datatype backend_class = InstanceClass | AdbClass | VmClass | PluginClass string bool

definition has_from_meta :: "backend_class \<Rightarrow> bool" where
  "has_from_meta c = (case c of PluginClass _ b \<Rightarrow> b | _ \<Rightarrow> True)"

record plugins =
  BACKEND_REGISTRY :: "(string, backend_class) dict"
  ENTRY_POINTS_LOADED :: bool

datatype registration_error = DuplicateKind string | NoFromMeta string | EntryPointRaises string

definition register_backend :: "string \<Rightarrow> backend_class \<Rightarrow> plugins \<Rightarrow> (registration_error + unit) \<times> plugins" where
  "register_backend k cls p =
     (if dict_get (BACKEND_REGISTRY p) k \<noteq> None then (Inl (DuplicateKind k), p)
      else if \<not> has_from_meta cls then (Inl (NoFromMeta k), p)
      else (Inr (), p\<lparr>BACKEND_REGISTRY := dict_set k cls (BACKEND_REGISTRY p)\<rparr>))"

text \<open>An entry point is a kind and what loading it gives; \<open>None\<close> is an import that raises.\<close>

type_synonym entry_point = "string \<times> backend_class option"

fun register_entry_points :: "entry_point list \<Rightarrow> plugins \<Rightarrow> (registration_error + unit) \<times> plugins" where
  "register_entry_points [] p = (Inr (), p)"
| "register_entry_points ((k, loaded) # eps) p = (case loaded of
     None \<Rightarrow> (Inl (EntryPointRaises k), p)
   | Some cls \<Rightarrow> (case dict_get (BACKEND_REGISTRY p) k of
       Some c \<Rightarrow> if c = cls then register_entry_points eps p else (Inl (DuplicateKind k), p)
     | None \<Rightarrow> (case register_backend k cls p of
         (Inl e, p') \<Rightarrow> (Inl e, p') | (Inr _, p') \<Rightarrow> register_entry_points eps p')))"

definition load_entry_point_backends :: "entry_point list \<Rightarrow> plugins \<Rightarrow> (registration_error + unit) \<times> plugins" where
  "load_entry_point_backends eps p =
     (if ENTRY_POINTS_LOADED p then (Inr (), p)
      else register_entry_points eps (p\<lparr>ENTRY_POINTS_LOADED := True\<rparr>))"

text \<open>The inner \<open>None\<close> is a \<open>KeyError\<close>.\<close>

definition get_backend :: "entry_point list \<Rightarrow> string \<Rightarrow> plugins \<Rightarrow> (registration_error + backend_class option) \<times> plugins" where
  "get_backend eps k = seq (load_entry_point_backends eps) (\<lambda>_ p. (Inr (dict_get (BACKEND_REGISTRY p) k), p))"

definition registered_kinds :: "entry_point list \<Rightarrow> plugins \<Rightarrow> (registration_error + string list) \<times> plugins" where
  "registered_kinds eps = seq (load_entry_point_backends eps) (\<lambda>_ p. (Inr (sort (dict_keys (BACKEND_REGISTRY p))), p))"

definition reset_for_testing :: "plugins \<Rightarrow> plugins" where
  "reset_for_testing p = p\<lparr>BACKEND_REGISTRY := [], ENTRY_POINTS_LOADED := False\<rparr>"

definition register_builtin :: "string \<Rightarrow> backend_class \<Rightarrow> plugins \<Rightarrow> plugins" where
  "register_builtin k cls p = (if dict_get (BACKEND_REGISTRY p) k = None then snd (register_backend k cls p) else p)"

definition register_builtin_backends :: "plugins \<Rightarrow> plugins" where
  "register_builtin_backends =
     register_builtin ''vm'' VmClass \<circ> register_builtin ''adb'' AdbClass \<circ> register_builtin ''redroid'' InstanceClass"

definition imported :: plugins where
  "imported = register_builtin_backends \<lparr>BACKEND_REGISTRY = [], ENTRY_POINTS_LOADED = False\<rparr>"

section \<open>Devices\<close>

record mstate =
  minst :: istate
  plug :: plugins

datatype handle =
    RedroidDev device
  | VmDev string path instance_config int
  | AdbDev string string int
  | PluginDev string string

datatype manager_error =
    InstanceNotFound string
  | RootNotFound
  | Unloadable load_error
  | RegistryFails inst_error
  | BadPlugin registration_error
  | PluginRaises

type_synonym 'a mop = "mstate \<Rightarrow> (manager_error + 'a) \<times> mstate"

record xenv =
  x_io :: io
  x_eps :: "entry_point list"
  x_build :: "string \<Rightarrow> string \<Rightarrow> backend \<Rightarrow> manager_error + unit"

definition on_istate :: "(istate \<Rightarrow> (inst_error + 'a) \<times> istate) \<Rightarrow> 'a mop" where
  "on_istate c st = (case c (minst st) of
     (Inl e, i) \<Rightarrow> (Inl (RegistryFails e), st\<lparr>minst := i\<rparr>) | (Inr a, i) \<Rightarrow> (Inr a, st\<lparr>minst := i\<rparr>))"

definition all_rows :: "xenv \<Rightarrow> registry_file mop" where
  "all_rows env = on_istate (with_registry (x_io env) (list_instances (io_pyd (x_io env))))"

definition row_of :: "xenv \<Rightarrow> string \<Rightarrow> instance_meta option mop" where
  "row_of env name = on_istate (with_registry (x_io env) (get (io_pyd (x_io env)) name))"

text \<open>\<open>config.load_yaml(paths.instance_yaml(Path(ap)))\<close>\<close>

definition load_at :: "xenv \<Rightarrow> string \<Rightarrow> instance_config mop" where
  "load_at env ap st = (let i = minst st in
     (case load_yaml (yaml (view (x_io env) i)) (instance_yaml ap) (loads (reg i)) of
        (Inl e, ls) \<Rightarrow> (Inl (Unloadable e), st\<lparr>minst := i\<lparr>reg := (reg i)\<lparr>loads := ls\<rparr>\<rparr>\<rparr>)
      | (Inr cfg, ls) \<Rightarrow> (Inr cfg, st\<lparr>minst := i\<lparr>reg := (reg i)\<lparr>loads := ls\<rparr>\<rparr>\<rparr>)))"

definition yaml_is_file :: "xenv \<Rightarrow> string \<Rightarrow> mstate \<Rightarrow> bool" where
  "yaml_is_file env ap st = is_file_at (io_resolve (x_io env) (instance_yaml ap)) (tree (minst st))"

text \<open>A missing file is turned into \<open>InstanceNotFoundError\<close>; any other failure passes.\<close>

definition load_or_orphan :: "xenv \<Rightarrow> string \<Rightarrow> string \<Rightarrow> instance_config mop" where
  "load_or_orphan env name ap st = (case load_at env ap st of
     (Inl (Unloadable FileNotFound), st') \<Rightarrow> (Inl (InstanceNotFound name), st') | res \<Rightarrow> res)"

definition the_device :: "xenv \<Rightarrow> string \<Rightarrow> path \<Rightarrow> instance_config \<Rightarrow> device" where
  "the_device env name rdir cfg = \<lparr>dev_name = name, dev_root = rdir, dev_cfg = cfg, dev_index = None\<rparr>"

definition instance_from_meta :: "xenv \<Rightarrow> string \<Rightarrow> backend \<Rightarrow> handle mop" where
  "instance_from_meta env name b = (case b of
     Redroid ap _ \<Rightarrow> seq (load_or_orphan env name ap) (\<lambda>cfg. ok (RedroidDev (the_device env name (io_resolve (x_io env) ap) cfg)))
   | _ \<Rightarrow> fail (InstanceNotFound name))"

definition vm_from_meta :: "xenv \<Rightarrow> string \<Rightarrow> backend \<Rightarrow> handle mop" where
  "vm_from_meta env name b = (case b of
     VmBackend ap \<Rightarrow> seq (row_of env name) (\<lambda>row. case row of
         None \<Rightarrow> fail (InstanceNotFound name)
       | Some m \<Rightarrow> seq (load_or_orphan env name ap) (\<lambda>cfg. ok (VmDev name (io_resolve (x_io env) ap) cfg (index m))))
   | _ \<Rightarrow> fail (InstanceNotFound name))"

definition adb_from_meta :: "xenv \<Rightarrow> string \<Rightarrow> backend \<Rightarrow> handle mop" where
  "adb_from_meta env name b = (case b of
     Adb serial \<Rightarrow> seq (row_of env name) (\<lambda>row. case row of
         None \<Rightarrow> fail (InstanceNotFound name)
       | Some m \<Rightarrow> (case ports_for_index (index m) of
           Inl e \<Rightarrow> fail (RegistryFails (PortsErr e))
         | Inr ps \<Rightarrow> (case dict_get ps ''frida'' of
             None \<Rightarrow> fail PluginRaises | Some port \<Rightarrow> ok (AdbDev name serial port))))
   | _ \<Rightarrow> fail (InstanceNotFound name))"

definition construct :: "xenv \<Rightarrow> backend_class \<Rightarrow> string \<Rightarrow> backend \<Rightarrow> handle mop" where
  "construct env cls name b = (case cls of
     InstanceClass \<Rightarrow> instance_from_meta env name b
   | VmClass \<Rightarrow> vm_from_meta env name b
   | AdbClass \<Rightarrow> adb_from_meta env name b
   | PluginClass c _ \<Rightarrow> seq (give (x_build env c name b)) (\<lambda>_. ok (PluginDev c name)))"

definition load :: "xenv \<Rightarrow> string \<Rightarrow> device mop" where
  "load env name = seq (row_of env name) (\<lambda>row. case row of
     None \<Rightarrow> fail (InstanceNotFound name)
   | Some m \<Rightarrow> (case backend m of
       Redroid ap _ \<Rightarrow> seq (load_at env ap) (\<lambda>cfg. ok (the_device env name (io_resolve (x_io env) ap) cfg))
     | _ \<Rightarrow> fail (InstanceNotFound name)))"

fun find_resolved :: "(string \<Rightarrow> path) \<Rightarrow> path \<Rightarrow> registry_file \<Rightarrow> string option" where
  "find_resolved R target [] = None"
| "find_resolved R target ((n, m) # rows) = (case backend m of
     Redroid ap _ \<Rightarrow> if R ap = target then Some n else find_resolved R target rows
   | _ \<Rightarrow> find_resolved R target rows)"

text \<open>\<open>cur\<close> is the resolved start directory.\<close>

definition from_path :: "xenv \<Rightarrow> path \<Rightarrow> device mop" where
  "from_path env cur st = (case instance_root cur (tree (minst st)) of
     None \<Rightarrow> (Inl RootNotFound, st)
   | Some rdir \<Rightarrow> seq (all_rows env) (\<lambda>rows.
       case find_resolved (io_resolve (x_io env)) (io_resolve (x_io env) (path_str rdir)) rows of
         None \<Rightarrow> fail (InstanceNotFound (path_str rdir))
       | Some n \<Rightarrow> seq (load_at env (path_str rdir)) (\<lambda>cfg. ok (the_device env n rdir cfg))) st)"

section \<open>Manager\<close>

definition on_plugins :: "(plugins \<Rightarrow> (registration_error + 'a) \<times> plugins) \<Rightarrow> 'a mop" where
  "on_plugins c st = (case c (plug st) of
     (Inl e, p) \<Rightarrow> (Inl (BadPlugin e), st\<lparr>plug := p\<rparr>) | (Inr a, p) \<Rightarrow> (Inr a, st\<lparr>plug := p\<rparr>))"

definition resolve :: "xenv \<Rightarrow> string \<Rightarrow> handle mop" where
  "resolve env name = seq (row_of env name) (\<lambda>row. case row of
     None \<Rightarrow> fail (InstanceNotFound name)
   | Some m \<Rightarrow> (case backend m of
       Unresolved _ _ \<Rightarrow> fail (InstanceNotFound name)
     | b \<Rightarrow> seq (on_plugins (get_backend (x_eps env) (kind_of b))) (\<lambda>c. case c of
         None \<Rightarrow> fail (InstanceNotFound name)
       | Some cls \<Rightarrow> construct env cls name b)))"

definition manager_get :: "xenv \<Rightarrow> string \<Rightarrow> handle option mop" where
  "manager_get env name st = (case resolve env name st of
     (Inl (InstanceNotFound _), st') \<Rightarrow> (Inr None, st')
   | (Inl e, st') \<Rightarrow> (Inl e, st')
   | (Inr h, st') \<Rightarrow> (Inr (Some h), st'))"

text \<open>The loops that skip what raises.\<close>

fun keep_ok :: "('k \<Rightarrow> 'a mop) \<Rightarrow> 'k list \<Rightarrow> mstate \<Rightarrow> 'a list \<times> mstate" where
  "keep_ok f [] st = ([], st)"
| "keep_ok f (k # ks) st = (case f k st of
     (Inl _, st') \<Rightarrow> keep_ok f ks st'
   | (Inr a, st') \<Rightarrow> (let (as, st'') = keep_ok f ks st' in (a # as, st'')))"

definition manager_all :: "xenv \<Rightarrow> handle list mop" where
  "manager_all env = seq (all_rows env) (\<lambda>rows st.
     let (hs, st') = keep_ok (resolve env) (sort (dict_keys rows)) st in (Inr hs, st'))"

definition redroid_dir :: "instance_meta \<Rightarrow> string option" where
  "redroid_dir m = (case backend m of Redroid ap _ \<Rightarrow> Some ap | _ \<Rightarrow> None)"

definition load_listed :: "xenv \<Rightarrow> string \<times> instance_meta \<Rightarrow> device mop" where
  "load_listed env nm st = (case nm of (name, m) \<Rightarrow> (case redroid_dir m of
     None \<Rightarrow> (Inl (InstanceNotFound name), st)
   | Some ap \<Rightarrow> if \<not> yaml_is_file env ap st then (Inl (InstanceNotFound name), st) else load env name st))"

definition manager_list :: "xenv \<Rightarrow> device list mop" where
  "manager_list env = seq (all_rows env) (\<lambda>rows st.
     let (ds, st') = keep_ok (load_listed env) (sort_key fst rows) st in (Inr ds, st'))"

fun orphans_from :: "xenv \<Rightarrow> registry_file \<Rightarrow> mstate \<Rightarrow> string list \<times> mstate" where
  "orphans_from env [] st = ([], st)"
| "orphans_from env ((name, m) # rows) st = (case redroid_dir m of
     None \<Rightarrow> orphans_from env rows st
   | Some ap \<Rightarrow>
       if \<not> yaml_is_file env ap st then (let (os, st') = orphans_from env rows st in (name # os, st'))
       else (case load_at env ap st of
           (Inl _, st1) \<Rightarrow> (let (os, st') = orphans_from env rows st1 in (name # os, st'))
         | (Inr _, st1) \<Rightarrow> orphans_from env rows st1))"

definition list_orphans :: "xenv \<Rightarrow> string list mop" where
  "list_orphans env = seq (all_rows env) (\<lambda>rows st.
     let (os, st') = orphans_from env rows st in (Inr (sort os), st'))"

end
