(* ===== verification/Manager_Props.thy ===== *)
theory Manager_Props
  imports Manager
begin

text \<open>
  Every registered container instance is either listed or reported as an orphan; a lookup gives the
  class of the row's kind because built-in kinds cannot be taken over; and where lookups fall short
  of their documentation: a broken plugin hides the plugins after it, and an unparsable
  configuration makes \<open>Manager.get\<close> raise.
\<close>

section \<open>Rows that are there to stay\<close>

definition rows_live :: "pyd \<Rightarrow> world \<Rightarrow> registry_file \<Rightarrow> bool" where
  "rows_live p w f \<longleftrightarrow> (\<exists>raw. registry_json w = Some (Json raw) \<and> version_ok raw
     \<and> read_rows p (classes w) (case dict_get (as_dict raw) (PStr ''instances'') of Some (PDict d) \<Rightarrow> d | _ \<Rightarrow> []) [] = Inr f)"

lemma read_rows_wf: "read_rows p cs rows acc = Inr f \<Longrightarrow> dict_wf acc \<Longrightarrow> dict_wf f"
  by (induction p cs rows acc rule: read_rows.induct) (auto split: option.splits sum.splits)

lemma rows_live_wf: "rows_live p w f \<Longrightarrow> dict_wf f"
  by (auto simp: rows_live_def dict_wf_def intro: read_rows_wf [unfolded dict_wf_def])

lemma rows_live_list: "rows_live p w f \<Longrightarrow> list_instances p w = (Inr f, w)"
  by (auto simp: rows_live_def list_instances_def needs_legacy_migration_def read_registry_def check_v02_registry_at_cwd_def
      split: option.splits)

lemma rows_live_get: "rows_live p w f \<Longrightarrow> get p n w = (Inr (dict_get f n), w)"
  by (simp add: get_def rows_live_list)

lemma rows_live_loads [simp]: "rows_live p (w\<lparr>loads := l\<rparr>) f = rows_live p w f"
  by (simp add: rows_live_def)

lemma list_instances_live:
  assumes "list_instances p w = (Inr f, w')" and "f \<noteq> []"
  shows "rows_live p w' f"
proof -
  have r: "read_registry p (locked_init w) = (Inr f, w')"
    using assms by (auto simp: list_instances_def locked_init_def split: if_splits prod.splits sum.splits)
  obtain q w1 where c: "check_v02_registry_at_cwd (locked_init w) = (q, w1)" by fastforce
  then have "q = Inr ()" using r by (cases q) (simp_all add: read_registry_def)
  with r c assms(2) have "w' = w1 \<and> (\<exists>raw. registry_json w1 = Some (Json raw) \<and> version_ok raw
     \<and> read_rows p (classes w1) (case dict_get (as_dict raw) (PStr ''instances'') of Some (PDict d) \<Rightarrow> d | _ \<Rightarrow> []) [] = Inr f)"
    by (auto simp: read_registry_def backup_and_warn_def Let_def split: option.splits doc.splits if_splits sum.splits)
  then show ?thesis by (auto simp: rows_live_def)
qed

section \<open>Loading does not depend on what was printed before\<close>

lemma bump_fst: "fst (bump_api_version env path raw l) = fst (bump_api_version env path raw l')"
  by (simp add: bump_api_version_def Let_def split: pyval.split sum.split bool.split)

lemma load_yaml_fst: "fst (load_yaml env path l) = fst (load_yaml env path l')"
  using bump_fst [of env path _ l l']
  by (auto simp: load_yaml_def Let_def case_prod_beta split: option.split sum.split)

text \<open>The same files and rows, up to the advisories already printed.\<close>

definition like :: "xenv \<Rightarrow> mstate \<Rightarrow> mstate \<Rightarrow> bool" where
  "like env st st' \<longleftrightarrow> tree (minst st') = tree (minst st) \<and> plug st' = plug st
     \<and> (\<exists>l. view (x_io env) (minst st') = (view (x_io env) (minst st))\<lparr>loads := l\<rparr>)"

definition live :: "xenv \<Rightarrow> mstate \<Rightarrow> registry_file \<Rightarrow> bool" where
  "live env st f \<longleftrightarrow> rows_live (io_pyd (x_io env)) (view (x_io env) (minst st)) f"

definition loads_as :: "xenv \<Rightarrow> mstate \<Rightarrow> string \<Rightarrow> load_error + instance_config" where
  "loads_as env st ap = fst (load_yaml (yaml (view (x_io env) (minst st))) (instance_yaml ap) (loads (reg (minst st))))"

lemma like_refl [simp]: "like env st st"
  by (auto simp: like_def intro: exI [of _ "loads (view (x_io env) (minst st))"])

lemma like_trans: "like env st st' \<Longrightarrow> like env st' st'' \<Longrightarrow> like env st st''"
  by (auto simp: like_def)

lemma like_live: "like env st st' \<Longrightarrow> live env st' f = live env st f"
  by (auto simp: like_def live_def)

lemma like_loads: "like env st st' \<Longrightarrow> loads_as env st' = loads_as env st"
  using load_yaml_fst by (fastforce simp: like_def loads_as_def fun_eq_iff)

lemma like_file: "like env st st' \<Longrightarrow> yaml_is_file env ap st' = yaml_is_file env ap st"
  by (simp add: like_def yaml_is_file_def)

lemma view_view [simp]: "view io (i\<lparr>reg := view io i\<rparr>) = view io i"
  by (simp add: view_def)

lemma live_row: "live env st f \<Longrightarrow> \<exists>st'. row_of env n st = (Inr (dict_get f n), st') \<and> like env st st'"
  by (auto simp: live_def row_of_def on_istate_def with_registry_def rows_live_get like_def
      intro: exI [of _ "loads (view (x_io env) (minst st))"])

lemma load_at_like:
  assumes "load_at env ap st = (r, st')"
  shows "like env st st' \<and> (case loads_as env st ap of Inl e \<Rightarrow> r = Inl (Unloadable e) | Inr cfg \<Rightarrow> r = Inr cfg)"
proof -
  obtain q ls where q: "load_yaml (yaml (view (x_io env) (minst st))) (instance_yaml ap) (loads (reg (minst st))) = (q, ls)" by fastforce
  have "view (x_io env) ((minst st)\<lparr>reg := (reg (minst st))\<lparr>loads := ls\<rparr>\<rparr>) = (view (x_io env) (minst st))\<lparr>loads := ls\<rparr>"
    by (simp add: view_def)
  then show ?thesis using assms q by (cases q) (auto simp: load_at_def Let_def like_def loads_as_def)
qed

lemma not_file_not_loaded: "\<not> yaml_is_file env ap st \<Longrightarrow> loads_as env st ap = Inl FileNotFound"
  by (auto simp: yaml_is_file_def is_file_at_def is_file_node_def loads_as_def load_yaml_def view_def split: option.splits node.splits)

text \<open>A row that can be listed, and one that is an orphan.\<close>

definition healthy :: "xenv \<Rightarrow> mstate \<Rightarrow> instance_meta \<Rightarrow> bool" where
  "healthy env st m = (case redroid_dir m of None \<Rightarrow> False | Some ap \<Rightarrow> is_ok (loads_as env st ap))"

definition orphan :: "xenv \<Rightarrow> mstate \<Rightarrow> instance_meta \<Rightarrow> bool" where
  "orphan env st m = (case redroid_dir m of None \<Rightarrow> False | Some ap \<Rightarrow> \<not> is_ok (loads_as env st ap))"

lemma like_health: "like env st st' \<Longrightarrow> healthy env st' = healthy env st \<and> orphan env st' = orphan env st"
  using like_loads [of env st st'] by (simp add: fun_eq_iff healthy_def orphan_def split: option.split)

lemma load_live:
  assumes "live env st f" and "dict_get f n = Some m" and "redroid_dir m = Some ap"
  obtains st' where "like env st st'" "load env n st = (case loads_as env st ap of
     Inl e \<Rightarrow> (Inl (Unloadable e), st') | Inr cfg \<Rightarrow> (Inr (the_device env n (io_resolve (x_io env) ap) cfg), st'))"
proof -
  obtain st1 where r: "row_of env n st = (Inr (Some m), st1)" "like env st st1" using live_row [OF assms(1), of n] assms(2) by auto
  obtain q st2 where q: "load_at env ap st1 = (q, st2)" by fastforce
  have "like env st st2" "loads_as env st1 = loads_as env st" using load_at_like [OF q] r(2) like_trans like_loads by blast+
  moreover obtain sp where "backend m = Redroid ap sp" using assms(3) by (auto simp: redroid_dir_def split: backend.splits)
  ultimately show ?thesis
    using that [of st2] load_at_like [OF q] r(1) q by (auto simp: load_def seq_def ok_def split: sum.splits)
qed

definition listed :: "xenv \<Rightarrow> mstate \<Rightarrow> string \<times> instance_meta \<Rightarrow> device" where
  "listed env st nm = (let ap = the (redroid_dir (snd nm)) in
     the_device env (fst nm) (io_resolve (x_io env) ap) (case loads_as env st ap of Inr cfg \<Rightarrow> cfg))"

lemma load_listed_spec:
  assumes "live env st f" and "dict_get f n = Some m"
  obtains st' where "like env st st'"
    "load_listed env (n, m) st = (if healthy env st m then Inr (listed env st (n, m)) else fst (load_listed env (n, m) st), st')"
    "\<not> healthy env st m \<Longrightarrow> \<exists>e. fst (load_listed env (n, m) st) = Inl e"
proof (cases "redroid_dir m")
  case None
  then show ?thesis using that [of st] by (simp add: load_listed_def healthy_def)
next
  case (Some ap)
  show ?thesis
  proof (cases "yaml_is_file env ap st")
    case False
    then show ?thesis
      using that [of st] Some not_file_not_loaded [OF False] by (simp add: load_listed_def healthy_def)
  next
    case True
    obtain st' where l: "like env st st'" "load env n st = (case loads_as env st ap of
       Inl e \<Rightarrow> (Inl (Unloadable e), st') | Inr cfg \<Rightarrow> (Inr (the_device env n (io_resolve (x_io env) ap) cfg), st'))"
      by (rule load_live [OF assms Some])
    have "load_listed env (n, m) st = load env n st" using True Some by (simp add: load_listed_def)
    then show ?thesis
      using that [OF l(1)] l(2) Some by (cases "loads_as env st ap") (simp_all add: healthy_def listed_def)
  qed
qed

lemma keep_ok_listed:
  assumes "live env st f" and "set ks \<subseteq> set f" and "dict_wf f"
  shows "\<exists>st'. keep_ok (load_listed env) ks st = (map (listed env st) (filter (\<lambda>nm. healthy env st (snd nm)) ks), st') \<and> like env st st'"
  using assms(1,2)
proof (induction ks arbitrary: st)
  case (Cons nm ks)
  obtain n m where nm: "nm = (n, m)" by (cases nm)
  then have g: "dict_get f n = Some m" using Cons.prems assms(3) by (simp add: dict_get_wf)
  obtain st1 where l: "like env st st1"
    "load_listed env (n, m) st = (if healthy env st m then Inr (listed env st (n, m)) else fst (load_listed env (n, m) st), st1)"
    "\<not> healthy env st m \<Longrightarrow> \<exists>e. fst (load_listed env (n, m) st) = Inl e"
    using load_listed_spec [OF Cons.prems(1) g] by metis
  have "live env st1 f" using l(1) Cons.prems(1) by (simp add: like_live)
  from Cons.IH [OF this] Cons.prems(2) obtain st2 where
    "keep_ok (load_listed env) ks st1 = (map (listed env st1) (filter (\<lambda>nm. healthy env st1 (snd nm)) ks), st2)" "like env st1 st2" by auto
  moreover have "healthy env st1 = healthy env st" "listed env st1 = listed env st"
    using like_health [OF l(1)] like_loads [OF l(1)] by (simp_all add: listed_def fun_eq_iff)
  ultimately show ?case
    using l nm like_trans by (cases "healthy env st m") (auto split: sum.splits)
qed simp

lemma orphans_from_spec:
  "\<exists>st'. orphans_from env rows st = (map fst (filter (\<lambda>nm. orphan env st (snd nm)) rows), st') \<and> like env st st'"
proof (induction rows arbitrary: st)
  case (Cons nm rows)
  obtain n m where nm: "nm = (n, m)" by (cases nm)
  show ?case
  proof (cases "redroid_dir m")
    case None
    then show ?thesis using Cons.IH [of st] nm by (auto simp: orphan_def)
  next
    case (Some ap)
    show ?thesis
    proof (cases "yaml_is_file env ap st")
      case False
      then show ?thesis using Cons.IH [of st] nm Some not_file_not_loaded [OF False] by (auto simp: orphan_def)
    next
      case True
      obtain q st1 where q: "load_at env ap st = (q, st1)" by fastforce
      note l = load_at_like [OF q]
      have "orphan env st1 = orphan env st" using l like_health by blast
      then show ?thesis
        using Cons.IH [of st1] nm Some True q l like_trans [of env st st1]
        by (cases "loads_as env st ap") (auto simp: orphan_def)
    qed
  qed
qed simp

section \<open>Listed or orphaned\<close>

abbreviation mrows :: "xenv \<Rightarrow> mstate \<Rightarrow> registry_file" where
  "mrows env st \<equiv> irows (x_io env) (minst st)"

lemma all_rows_spec:
  assumes "all_rows env st = (Inr f, st')"
  shows "f = mrows env st" and "mrows env st' = mrows env st" and "tree (minst st') = tree (minst st)"
    and "f \<noteq> [] \<Longrightarrow> live env st' f" and "loads_as env st' = loads_as env st"
proof -
  let ?io = "x_io env"
  obtain w where w: "list_instances (io_pyd ?io) (view ?io (minst st)) = (Inr f, w)" "st' = st\<lparr>minst := (minst st)\<lparr>reg := w\<rparr>\<rparr>"
    using assms by (auto simp: all_rows_def on_istate_def with_registry_def split: prod.splits sum.splits)
  have frame: "yaml w = yaml (view ?io (minst st))"
    using w(1) by (auto simp: list_instances_def dest!: read_registry_frame check_v02_frame split: if_splits prod.splits sum.splits)
  show "f = mrows env st" "mrows env st' = mrows env st" using list_instances_rows [OF w(1)] w(2) by simp_all
  show "tree (minst st') = tree (minst st)" using w(2) by simp
  have v: "view ?io (minst st') = w" using w(2) frame by (simp add: view_def)
  then show "f \<noteq> [] \<Longrightarrow> live env st' f" using list_instances_live [OF w(1)] by (simp add: live_def)
  show "loads_as env st' = loads_as env st"
    using load_yaml_fst frame v by (simp add: loads_as_def fun_eq_iff)
qed

lemma sorted_map_filter: "sorted (map fst xs) \<Longrightarrow> sorted (map fst (filter P xs))"
  by (rule sorted_filter)

text \<open>
  C14: every registered container instance is accounted for exactly once: its name is either in the list
  of instances or in the list of orphans, never in both, and rows of other kinds are in neither. An
  instance is listed when its configuration loads and then carries that configuration and the
  directory of its row; a missing, unparsable or invalid file makes it an orphan. Both lists come
  sorted and without repetition.
\<close>

theorem listed_or_orphan:
  assumes "manager_list env st = (Inr ds, st1)" and "list_orphans env st1 = (Inr os, st2)"
  shows "set (map dev_name ds) \<union> set os = {n. \<exists>m. dict_get (mrows env st) n = Some m \<and> redroid_dir m \<noteq> None}
    \<and> set (map dev_name ds) \<inter> set os = {}
    \<and> (\<forall>d\<in>set ds. \<exists>m ap. dict_get (mrows env st) (dev_name d) = Some m \<and> redroid_dir m = Some ap
         \<and> dev_root d = io_resolve (x_io env) ap \<and> loads_as env st ap = Inr (dev_cfg d))
    \<and> sorted (map dev_name ds) \<and> distinct (map dev_name ds) \<and> sorted os \<and> distinct os"
proof -
  obtain f s where f: "all_rows env st = (Inr f, s)"
    and ds: "keep_ok (load_listed env) (sort_key fst f) s = (ds, st1)"
    using assms(1) by (auto simp: manager_list_def seq_iff case_prod_beta)
  obtain g s' where g: "all_rows env st1 = (Inr g, s')" and os: "os = sort (fst (orphans_from env g s'))"
    using assms(2) by (auto simp: list_orphans_def seq_iff case_prod_beta)
  note rows = all_rows_spec [OF f]
  show ?thesis
  proof (cases "f = []")
    case True
    then have "ds = []" "st1 = s" using ds by simp_all
    then have "g = []" using all_rows_spec(1,2) [OF g] rows(1,2) True by simp
    then show ?thesis using os True rows(1) \<open>ds = []\<close> by simp
  next
    case False
    have live: "live env s f" and wf: "dict_wf f" using rows(4) [OF False] rows_live_wf by (auto simp: live_def)
    have l: "ds = map (listed env s) (filter (\<lambda>nm. healthy env s (snd nm)) (sort_key fst f))" "like env s st1"
      using keep_ok_listed [OF live _ wf, of "sort_key fst f"] ds by auto
    have "live env st1 f" using live like_live [OF l(2)] by simp
    then have "rows_of (io_pyd (x_io env)) (view (x_io env) (minst st1)) = f"
      using list_instances_rows rows_live_list unfolding live_def by blast
    then have "g = f" using all_rows_spec(1) [OF g] by simp
    moreover have "orphan env s' = orphan env s"
      using all_rows_spec(5) [OF g] like_loads [OF l(2)] by (simp add: orphan_def fun_eq_iff split: option.split)
    ultimately have o: "os = sort (map fst (filter (\<lambda>nm. orphan env s (snd nm)) f))"
      using orphans_from_spec [of env f s'] os by auto
    have names: "map dev_name ds = map fst (filter (\<lambda>nm. healthy env s (snd nm)) (sort_key fst f))"
      by (simp add: l(1) listed_def the_device_def Let_def)
    have get: "dict_get f n = Some m \<longleftrightarrow> (n, m) \<in> set f" for n m using wf by (rule dict_get_wf)
    have split: "redroid_dir m \<noteq> None \<longleftrightarrow> healthy env s m \<or> orphan env s m" "\<not> (healthy env s m \<and> orphan env s m)" for m
      by (auto simp: healthy_def orphan_def split: option.splits)
    have uniq: "(n, m) \<in> set f \<Longrightarrow> (n, m') \<in> set f \<Longrightarrow> m = m'" for n m m' using get by (metis option.inject)
    have sets: "set (map dev_name ds) = {n. \<exists>m. (n, m) \<in> set f \<and> healthy env s m}"
        "set os = {n. \<exists>m. (n, m) \<in> set f \<and> orphan env s m}"
      unfolding names o by force+
    have dist: "distinct (map fst f)" using wf by (simp add: dict_wf_def)
    then have dist': "distinct (map fst (sort_key fst f))" by (simp add: distinct_map)
    have "\<exists>m ap. dict_get f (dev_name d) = Some m \<and> redroid_dir m = Some ap
        \<and> dev_root d = io_resolve (x_io env) ap \<and> loads_as env s ap = Inr (dev_cfg d)" if d: "d \<in> set ds" for d
    proof -
      from d obtain n m where nm: "d = listed env s (n, m)" "(n, m) \<in> set f" "healthy env s m" by (auto simp: l(1))
      then obtain ap cfg where "redroid_dir m = Some ap" "loads_as env s ap = Inr cfg"
        by (auto simp: healthy_def is_ok_def split: option.splits sum.splits)
      then show ?thesis using nm get by (auto simp: listed_def the_device_def)
    qed
    moreover have "sorted (map dev_name ds)" unfolding names by (rule sorted_map_filter) simp
    moreover have "distinct (map dev_name ds)" unfolding names by (rule distinct_map_filter [OF dist'])
    moreover have "sorted os" "distinct os" unfolding o using dist by (simp_all add: distinct_map_filter)
    moreover have "set (map dev_name ds) \<inter> set os = {}" unfolding sets using split(2) uniq by blast
    moreover have "set (map dev_name ds) \<union> set os = {n. \<exists>m. (n, m) \<in> set f \<and> redroid_dir m \<noteq> None}"
      unfolding sets split(1) by blast
    ultimately show ?thesis unfolding rows(1,5) [symmetric] get by blast
  qed
qed

text \<open>A host with two container rows, one of them without its file, and a third kind between.\<close>

definition demo_x :: xenv where
  "demo_x = \<lparr>x_io = host_io, x_eps = [], x_build = (\<lambda>_ _ _. Inr ())\<rparr>"

definition fleet :: mstate where
  "fleet = \<lparr>minst = \<lparr>reg = example_world\<lparr>registry_json := Some (Json (registry_to_json
       [(''gone'', \<lparr>backend = Redroid ''/g'' [], index = 0, created_at = ''t''\<rparr>),
        (''phone'', \<lparr>backend = Adb ''S1'', index = 1, created_at = ''t''\<rparr>),
        (''alpha'', \<lparr>backend = Redroid ''/a'' [], index = 2, created_at = ''t''\<rparr>)])), yaml := example_env PNone\<rparr>,
     tree = [([''a''], Dir), ([''a'', ''beetroot.yaml''], File [])]\<rparr>, plug = imported\<rparr>"

theorem listed_or_orphan_witness:
  "\<exists>ds st1 st2. manager_list demo_x fleet = (Inr ds, st1) \<and> list_orphans demo_x st1 = (Inr [''gone''], st2)
     \<and> map dev_name ds = [''alpha''] \<and> set (map dev_name ds) \<inter> set [''gone''] = {}"
proof -
  have run: "case manager_list demo_x fleet of (r, st1) \<Rightarrow> (case r of Inr ds \<Rightarrow> map dev_name ds = [''alpha''] | _ \<Rightarrow> False)
      \<and> fst (list_orphans demo_x st1) = Inr [''gone'']" by code_simp
  then obtain ds st1 where l: "manager_list demo_x fleet = (Inr ds, st1)" "map dev_name ds = [''alpha'']"
      "fst (list_orphans demo_x st1) = Inr [''gone'']"
    by (cases "manager_list demo_x fleet") (auto split: sum.splits)
  then obtain st2 where o: "list_orphans demo_x st1 = (Inr [''gone''], st2)" by (metis prod.collapse)
  have "set (map dev_name ds) \<inter> set [''gone''] = {}" using listed_or_orphan [OF l(1) o] by (elim conjE)
  then show ?thesis using l(1,2) o by (intro exI conjI)
qed

section \<open>Built-in kinds\<close>

text \<open>What code can do to the table of classes: register kinds, and load the plugins.\<close>

inductive plugin_reach :: "plugins \<Rightarrow> bool" where
  imported: "plugin_reach imported"
| registered: "plugin_reach p \<Longrightarrow> register_backend k cls p = (r, p') \<Longrightarrow> plugin_reach p'"
| loaded: "plugin_reach p \<Longrightarrow> load_entry_point_backends eps p = (r, p') \<Longrightarrow> plugin_reach p'"

definition builtins_kept :: "plugins \<Rightarrow> bool" where
  "builtins_kept p \<longleftrightarrow> dict_get (BACKEND_REGISTRY p) ''redroid'' = Some InstanceClass
     \<and> dict_get (BACKEND_REGISTRY p) ''adb'' = Some AdbClass \<and> dict_get (BACKEND_REGISTRY p) ''vm'' = Some VmClass"

definition grows :: "plugins \<Rightarrow> plugins \<Rightarrow> bool" where
  "grows p p' \<longleftrightarrow> (\<forall>k c. dict_get (BACKEND_REGISTRY p) k = Some c \<longrightarrow> dict_get (BACKEND_REGISTRY p') k = Some c)"

lemma grows_refl [simp]: "grows p p"
  by (simp add: grows_def)

lemma grows_trans: "grows p p' \<Longrightarrow> grows p' p'' \<Longrightarrow> grows p p''"
  by (simp add: grows_def)

lemma register_grows: "register_backend k cls p = (r, p') \<Longrightarrow> grows p p'"
  by (auto simp: register_backend_def grows_def split: if_splits)

lemma entry_points_grow: "register_entry_points eps p = (r, p') \<Longrightarrow> grows p p'"
proof (induction eps p rule: register_entry_points.induct)
  case (2 k loaded eps p)
  show ?case
  proof (cases "\<exists>cls u p1. loaded = Some cls \<and> dict_get (BACKEND_REGISTRY p) k = None \<and> register_backend k cls p = (Inr u, p1)")
    case True
    then obtain cls u p1 where p1: "loaded = Some cls" "dict_get (BACKEND_REGISTRY p) k = None" "register_backend k cls p = (Inr u, p1)" by blast
    have "grows p1 p'" by (rule "2.IH"(1) [OF p1(1,2) p1(3) [symmetric]]) (use "2.prems" p1 in auto)
    then show ?thesis using register_grows [OF p1(3)] grows_trans by blast
  next
    case False
    then have "p' = p \<or> register_entry_points eps p = (r, p') \<and> (\<exists>cls. loaded = Some cls \<and> dict_get (BACKEND_REGISTRY p) k = Some cls)"
      using "2.prems" by (auto simp: register_backend_def split: option.splits if_splits)
    then show ?thesis using "2.IH"(2) by auto
  qed
qed simp

lemma load_entry_points_grow: "load_entry_point_backends eps p = (r, p') \<Longrightarrow> grows p p'"
  by (auto simp: load_entry_point_backends_def grows_def split: if_splits dest: entry_points_grow)

lemma grows_builtins: "grows p p' \<Longrightarrow> builtins_kept p \<Longrightarrow> builtins_kept p'"
  by (auto simp: grows_def builtins_kept_def)

lemma reach_builtins: "plugin_reach p \<Longrightarrow> builtins_kept p"
proof (induction rule: plugin_reach.induct)
  case imported
  have "BACKEND_REGISTRY imported = [(''redroid'', InstanceClass), (''adb'', AdbClass), (''vm'', VmClass)]" by code_simp
  then show ?case by (simp add: builtins_kept_def)
qed (auto dest: register_grows load_entry_points_grow grows_builtins)

lemma row_of_spec:
  assumes "row_of env n st = (Inr (Some m), st')"
  shows "dict_get (mrows env st) n = Some m" and "live env st' (mrows env st)" and "loads_as env st' = loads_as env st"
    and "plug st' = plug st"
proof -
  obtain f s where f: "all_rows env st = (Inr f, s)" "st' = s" "dict_get f n = Some m"
    using assms
    by (auto simp: row_of_def all_rows_def on_istate_def with_registry_def get_def split: prod.splits sum.splits)
  then have "f \<noteq> []" by auto
  with all_rows_spec [OF f(1)] f show "dict_get (mrows env st) n = Some m" "live env st' (mrows env st)" "loads_as env st' = loads_as env st"
    by auto
  show "plug st' = plug st" using assms by (auto simp: row_of_def on_istate_def split: prod.splits sum.splits)
qed

lemma load_or_orphan_ok:
  "load_or_orphan env name ap st = (Inr cfg, st') \<Longrightarrow> loads_as env st ap = Inr cfg"
  using load_at_like [of env ap st]
  by (auto simp: load_or_orphan_def split: prod.splits sum.splits manager_error.splits load_error.splits)

text \<open>The device a row stands for.\<close>

definition stands_for :: "xenv \<Rightarrow> mstate \<Rightarrow> string \<Rightarrow> instance_meta \<Rightarrow> handle \<Rightarrow> bool" where
  "stands_for env st name m h = (case backend m of
     Redroid ap _ \<Rightarrow> \<exists>cfg. loads_as env st ap = Inr cfg \<and> h = RedroidDev (the_device env name (io_resolve (x_io env) ap) cfg)
   | VmBackend ap \<Rightarrow> \<exists>cfg. loads_as env st ap = Inr cfg \<and> h = VmDev name (io_resolve (x_io env) ap) cfg (index m)
   | Adb serial \<Rightarrow> h = AdbDev name serial (27042 + 10 * index m)
   | Third _ _ _ \<Rightarrow> \<exists>c. h = PluginDev c name
   | Unresolved _ _ \<Rightarrow> False)"

lemma construct_stands_for:
  assumes "construct env cls name (backend m) st = (Inr h, st')"
    and "live env st f" and "dict_get f name = Some m"
    and "case backend m of Redroid _ _ \<Rightarrow> cls = InstanceClass | VmBackend _ \<Rightarrow> cls = VmClass | Adb _ \<Rightarrow> cls = AdbClass
      | Third _ _ _ \<Rightarrow> True | Unresolved _ _ \<Rightarrow> False"
  shows "stands_for env st name m h"
proof -
  obtain st1 where row: "row_of env name st = (Inr (Some m), st1)" "like env st st1" using live_row [OF assms(2), of name] assms(3) by auto
  note loads = load_or_orphan_ok like_loads [OF row(2)]
  show ?thesis
  proof (cases "backend m")
    case (Redroid ap sp)
    then show ?thesis
      using assms(1,4) loads(1) by (auto simp: construct_def instance_from_meta_def stands_for_def seq_iff ok_iff)
  next
    case (VmBackend ap)
    then show ?thesis
      using assms(1,4) loads(1) [of env name ap st1] row(1) loads(2)
      by (auto simp: construct_def vm_from_meta_def stands_for_def seq_iff ok_iff)
  next
    case (Adb serial)
    then show ?thesis
      using assms(1,4) row(1)
      by (auto simp: construct_def adb_from_meta_def stands_for_def seq_iff ok_iff fail_iff ports_for_index_def WELL_KNOWN_BASE_def
          STRIDE_def FRIDA_BASE_def result_simps split: sum.splits option.splits)
  next
    case (Third c k raw)
    then show ?thesis
      using assms(1)
      by (auto simp: construct_def instance_from_meta_def vm_from_meta_def adb_from_meta_def stands_for_def seq_iff ok_iff fail_iff
          split: backend_class.splits)
  next
    case (Unresolved k raw)
    then show ?thesis using assms(4) by simp
  qed
qed

text \<open>
  C15: whatever plugins registered or failed to register, a lookup by name gives the device its row stands
  for: a container, a micro-VM or an adopted phone with the row's directory or serial, the index it
  was given and the configuration of its file, a plugin's device only for a plugin's row. No plugin
  can take over a built-in kind.
\<close>

theorem resolve_dispatches:
  assumes "plugin_reach (plug st)" and "resolve env name st = (Inr h, st')"
  shows "\<exists>m. dict_get (mrows env st) name = Some m \<and> stands_for env st name m h"
proof -
  obtain m s1 where row: "row_of env name st = (Inr (Some m), s1)"
    and nun: "\<forall>k raw. backend m \<noteq> Unresolved k raw"
    and rest: "seq (on_plugins (get_backend (x_eps env) (kind_of (backend m)))) (\<lambda>c. case c of
         None \<Rightarrow> fail (InstanceNotFound name) | Some cls \<Rightarrow> construct env cls name (backend m)) s1 = (Inr h, st')"
  proof -
    obtain a s1 where a: "row_of env name st = (Inr a, s1)" and k: "(case a of
         None \<Rightarrow> fail (InstanceNotFound name)
       | Some m \<Rightarrow> (case backend m of
           Unresolved _ _ \<Rightarrow> fail (InstanceNotFound name)
         | b \<Rightarrow> seq (on_plugins (get_backend (x_eps env) (kind_of b))) (\<lambda>c. case c of
             None \<Rightarrow> fail (InstanceNotFound name) | Some cls \<Rightarrow> construct env cls name b))) s1 = (Inr h, st')"
      using assms(2) unfolding resolve_def seq_iff [of "row_of env name"] by blast
    show ?thesis
    proof (cases a)
      case None
      then show ?thesis using k by (simp add: fail_iff)
    next
      case (Some m)
      then show ?thesis using that [of m s1] a k by (cases "backend m") (auto simp: fail_iff)
    qed
  qed
  note r = row_of_spec [OF row]
  obtain cls s2 where c: "on_plugins (get_backend (x_eps env) (kind_of (backend m))) s1 = (Inr (Some cls), s2)"
    and b: "construct env cls name (backend m) s2 = (Inr h, st')"
    using rest by (auto simp: seq_iff fail_iff split: option.splits)
  obtain p' where p': "load_entry_point_backends (x_eps env) (plug s1) = (Inr (), p')" "s2 = s1\<lparr>plug := p'\<rparr>"
      "dict_get (BACKEND_REGISTRY p') (kind_of (backend m)) = Some cls"
    using c by (auto simp: on_plugins_def get_backend_def seq_def split: prod.splits sum.splits)
  have "builtins_kept p'" using load_entry_points_grow [OF p'(1)] reach_builtins assms(1) r(4) grows_builtins by auto
  then have cls: "case backend m of Redroid _ _ \<Rightarrow> cls = InstanceClass | VmBackend _ \<Rightarrow> cls = VmClass | Adb _ \<Rightarrow> cls = AdbClass
      | Third _ _ _ \<Rightarrow> True | Unresolved _ _ \<Rightarrow> False"
    using p'(3) nun by (auto simp: builtins_kept_def split: backend.split)
  have live: "live env s2 (mrows env st)" using r(2) p'(2) by (simp add: live_def)
  have "loads_as env s2 = loads_as env st" using r(3) p'(2) by (simp add: loads_as_def fun_eq_iff)
  then have "stands_for env st name m h"
    using construct_stands_for [OF b live r(1) cls] by (simp add: stands_for_def split: backend.splits)
  then show ?thesis using r(1) by blast
qed

theorem resolve_dispatches_witness:
  "\<exists>h st'. resolve demo_x ''phone'' fleet = (Inr h, st') \<and> h = AdbDev ''phone'' ''S1'' 27052"
proof -
  have "fst (resolve demo_x ''phone'' fleet) = Inr (AdbDev ''phone'' ''S1'' 27052)"
    and row: "dict_get (mrows demo_x fleet) ''phone'' = Some \<lparr>backend = Adb ''S1'', index = 1, created_at = ''t''\<rparr>" by code_simp+
  then obtain st' where r: "resolve demo_x ''phone'' fleet = (Inr (AdbDev ''phone'' ''S1'' 27052), st')" by (metis prod.collapse)
  have "plugin_reach (plug fleet)" by (simp add: fleet_def plugin_reach.imported)
  from resolve_dispatches [OF this r] row r show ?thesis by (auto simp: stands_for_def)
qed

section \<open>Broken plugins and broken files\<close>

text \<open>
  An entry point that cannot be registered stops the loading for good. The error is raised once;
  every later lookup answers from the table as the failure left it, which has the kinds of before and
  of the entry points that came first, and says of every other plugin that it is not installed.
\<close>

theorem broken_plugin_hides_later_ones:
  assumes "load_entry_point_backends eps p = (Inl e, p')"
  shows "\<exists>pre ep post. eps = pre @ ep # post
    \<and> (\<forall>k. dict_get (BACKEND_REGISTRY p') k \<noteq> None \<longrightarrow> dict_get (BACKEND_REGISTRY p) k \<noteq> None \<or> k \<in> fst ` set pre)
    \<and> (\<forall>eps' k. get_backend eps' k p' = (Inr (dict_get (BACKEND_REGISTRY p') k), p'))"
proof -
  have split: "\<exists>pre ep post. eps = pre @ ep # post \<and> ENTRY_POINTS_LOADED p' = ENTRY_POINTS_LOADED p
      \<and> (\<forall>k. dict_get (BACKEND_REGISTRY p') k \<noteq> None \<longrightarrow> dict_get (BACKEND_REGISTRY p) k \<noteq> None \<or> k \<in> fst ` set pre)"
    if "register_entry_points eps p = (Inl e, p')" for eps p
    using that
  proof (induction eps p rule: register_entry_points.induct)
    case (2 k loaded eps p)
    consider (stop) "p' = p" | (known) cls where "loaded = Some cls" "dict_get (BACKEND_REGISTRY p) k = Some cls"
        "register_entry_points eps p = (Inl e, p')"
      | (new) cls p1 where "loaded = Some cls" "dict_get (BACKEND_REGISTRY p) k = None" "register_backend k cls p = (Inr (), p1)"
        "register_entry_points eps p1 = (Inl e, p')"
      using "2.prems" by (auto simp: register_backend_def split: option.splits if_splits)
    then show ?case
    proof cases
      case stop
      then have "(k, loaded) # eps = [] @ (k, loaded) # eps" by simp
      with stop show ?thesis by blast
    next
      case known
      from "2.IH"(2) [OF known(1,2) refl known(3)] obtain pre ep post where h: "eps = pre @ ep # post"
          "ENTRY_POINTS_LOADED p' = ENTRY_POINTS_LOADED p"
          "\<forall>j. dict_get (BACKEND_REGISTRY p') j \<noteq> None \<longrightarrow> dict_get (BACKEND_REGISTRY p) j \<noteq> None \<or> j \<in> fst ` set pre" by blast
      then have "(k, loaded) # eps = ((k, loaded) # pre) @ ep # post" by simp
      moreover have "\<forall>j. dict_get (BACKEND_REGISTRY p') j \<noteq> None \<longrightarrow> dict_get (BACKEND_REGISTRY p) j \<noteq> None \<or> j \<in> fst ` set ((k, loaded) # pre)"
        using h(3) by auto
      ultimately show ?thesis using h(2) by blast
    next
      case new
      from "2.IH"(1) [OF new(1,2) new(3) [symmetric] refl new(4)] obtain pre ep post where h: "eps = pre @ ep # post"
          "ENTRY_POINTS_LOADED p' = ENTRY_POINTS_LOADED p1"
          "\<forall>j. dict_get (BACKEND_REGISTRY p') j \<noteq> None \<longrightarrow> dict_get (BACKEND_REGISTRY p1) j \<noteq> None \<or> j \<in> fst ` set pre" by blast
      then have "(k, loaded) # eps = ((k, loaded) # pre) @ ep # post" by simp
      moreover have p1: "p1 = p\<lparr>BACKEND_REGISTRY := dict_set k cls (BACKEND_REGISTRY p)\<rparr>"
        using new(3) by (simp add: register_backend_def split: if_splits)
      moreover have "\<forall>j. dict_get (BACKEND_REGISTRY p') j \<noteq> None \<longrightarrow> dict_get (BACKEND_REGISTRY p) j \<noteq> None \<or> j \<in> fst ` set ((k, loaded) # pre)"
        using h(3) by (auto simp: p1 split: if_splits)
      moreover have "ENTRY_POINTS_LOADED p' = ENTRY_POINTS_LOADED p" using h(2) p1 by simp
      ultimately show ?thesis by blast
    qed
  qed simp
  have r: "register_entry_points eps (p\<lparr>ENTRY_POINTS_LOADED := True\<rparr>) = (Inl e, p')"
    using assms by (auto simp: load_entry_point_backends_def split: if_splits)
  show ?thesis
    using split [OF r] by (auto simp: get_backend_def load_entry_point_backends_def seq_def)
qed

theorem broken_plugin_hides_later_ones_witness:
  "\<exists>p'. load_entry_point_backends [(''adb'', Some (PluginClass ''Rogue'' True)), (''cloud'', Some (PluginClass ''Cloud'' True))] imported
       = (Inl (DuplicateKind ''adb''), p')
     \<and> get_backend [(''cloud'', Some (PluginClass ''Cloud'' True))] ''cloud'' p' = (Inr None, p')"
proof -
  let ?eps = "[(''adb'', Some (PluginClass ''Rogue'' True)), (''cloud'', Some (PluginClass ''Cloud'' True))]"
  let ?r = "load_entry_point_backends ?eps imported"
  have "fst ?r = Inl (DuplicateKind ''adb'')" and c: "dict_get (BACKEND_REGISTRY (snd ?r)) ''cloud'' = None" by code_simp+
  then obtain p' where r: "?r = (Inl (DuplicateKind ''adb''), p')" by (metis prod.collapse)
  obtain pre ep post where "\<forall>eps' k. get_backend eps' k p' = (Inr (dict_get (BACKEND_REGISTRY p') k), p')"
    using broken_plugin_hides_later_ones [OF r] by blast
  then show ?thesis using r c by auto
qed

text \<open>
  \<open>Manager.get\<close> answers \<open>None\<close> for a name that is not registered and for an orphan without its file;
  for a registered instance whose file does not parse it raises what loading raised.
\<close>

lemma get_raises_on_unparsable_file:
  "let st = fleet\<lparr>minst := (minst fleet)\<lparr>reg := (reg (minst fleet))\<lparr>yaml := (example_env PNone)\<lparr>safe_load := (\<lambda>_. None)\<rparr>\<rparr>\<rparr>\<rparr>
   in fst (manager_get demo_x ''nobody'' st) = Inr None \<and> fst (manager_get demo_x ''gone'' st) = Inr None
     \<and> fst (manager_get demo_x ''alpha'' st) = Inl (Unloadable YamlErr)"
  by code_simp

end
