(* ===== verification/Vm_Backend.thy ===== *)
theory Vm_Backend
  imports Boot_Cache Compose
begin

text \<open>
  \<open>backends/vm.py\<close>: booting the emulated instance. The process manager is that of \<open>Qemu\<close> and the
  warm start that of \<open>Boot_Cache\<close>; this theory has what lies between them: which artifacts are
  booted, how long a guest is waited for, what is undone when it does not come up, when a dead
  resume is retried and when a checkpoint is taken. What \<open>adb\<close> answers, what the guest writes and
  how long each call takes are functions of the instant.
\<close>

section \<open>State\<close>

record vm_device =
  vd_name :: string
  vd_root :: path
  vd_cfg :: instance_config
  vd_index :: int

datatype vm_note =
    NoteRootfsSkew int int
  | NoteStaleOverlay
  | NoteDataRevert
  | InfoWarmStart
  | InfoColdStart
  | WarnWarmFailed
  | WarnNotBooted
  | InfoCheckpointed
  | WarnNotCheckpointed

text \<open>The last two fields: what was printed, and the instants at which \<open>savevm\<close> was asked for.\<close>

record vstate =
  vq :: qstate
  vcache :: cache_state
  warm_fail :: "string option"
  messages :: "vm_note list"
  savevms :: "nat list"

record venv =
  v_q :: qenv
  v_adb_found :: "nat \<Rightarrow> bool"
  v_adb :: "nat \<Rightarrow> string list \<Rightarrow> proc"
  v_took :: "nat \<Rightarrow> nat"
  v_console :: "nat \<Rightarrow> string"
  v_copies :: "nat \<Rightarrow> bool"
  v_sha :: "string \<Rightarrow> string"
  v_list :: "overlay_image \<Rightarrow> img_result"
  v_create :: "nat \<Rightarrow> img_result"
  v_keyed :: "nat \<Rightarrow> bool"
  v_monitor_free :: "nat \<Rightarrow> bool"
  v_monitor :: "nat \<Rightarrow> bool \<times> bool \<times> recv_event list"
  v_saved :: "nat \<Rightarrow> bool"
  v_expanduser :: "string \<Rightarrow> string option"
  v_exists :: "string \<Rightarrow> bool"
  v_absolute :: "string \<Rightarrow> string"
  v_marker :: "string \<Rightarrow> read_result option"
  v_machine :: string
  v_kvm :: bool
  v_cpus :: cpu_probe
  s_qemu_bin :: string
  s_vm_kernel :: string
  s_vm_rootfs :: string
  s_vm_adb_connect_timeout :: int

datatype vm_error =
    VmQemu qemu_error
  | VmCache cache_error
  | VmPorts port_error
  | NoAdbPort
  | NotConfigured string
  | NotOnHost string
  | HomeUnknown
  | MarkerUnreadable
  | OutOfSync
  | AdbMissing
  | GuestExited
  | AdbDeadline
  | MonitorStuck
  | CopyFailed

type_synonym 'a vop = "vstate \<Rightarrow> (vm_error + 'a) \<times> vstate"

text \<open>Which of them are \<open>QemuLaunchError\<close>.\<close>

definition is_launch_error :: "vm_error \<Rightarrow> bool" where
  "is_launch_error e = (case e of
     VmQemu x \<Rightarrow> (case x of KvmWrongArch _ \<Rightarrow> True | KvmUnusable \<Rightarrow> True | AlreadyRunning _ \<Rightarrow> True
                  | SpawnFailed \<Rightarrow> True | _ \<Rightarrow> False)
   | VmCache x \<Rightarrow> (case x of QemuImgMissing \<Rightarrow> True | QemuImgFailed _ \<Rightarrow> True | _ \<Rightarrow> False)
   | NotConfigured _ \<Rightarrow> True | NotOnHost _ \<Rightarrow> True | GuestExited \<Rightarrow> True | AdbDeadline \<Rightarrow> True
   | _ \<Rightarrow> False)"

definition instant :: "vstate \<Rightarrow> nat" where
  "instant st = tick (vq st)"

definition on_q :: "(qstate \<Rightarrow> (qemu_error + 'a) \<times> qstate) \<Rightarrow> 'a vop" where
  "on_q c st = (case c (vq st) of
     (Inl x, q) \<Rightarrow> (Inl (VmQemu x), st\<lparr>vq := q\<rparr>) | (Inr a, q) \<Rightarrow> (Inr a, st\<lparr>vq := q\<rparr>))"

definition on_cache :: "(nat \<Rightarrow> cache_state \<Rightarrow> (cache_error + 'a) \<times> cache_state) \<Rightarrow> 'a vop" where
  "on_cache c st = (case c (instant st) (vcache st) of
     (Inl x, s) \<Rightarrow> (Inl (VmCache x), st\<lparr>vcache := s\<rparr>) | (Inr a, s) \<Rightarrow> (Inr a, st\<lparr>vcache := s\<rparr>))"

definition say :: "vm_note \<Rightarrow> unit vop" where
  "say n st = (Inr (), st\<lparr>messages := messages st @ [n]\<rparr>)"

definition sleep_ns :: "venv \<Rightarrow> int \<Rightarrow> vstate \<Rightarrow> vstate" where
  "sleep_ns env ns st = st\<lparr>vq := (vq st)\<lparr>tick := Suc (instant st), clock := clock (vq st) + ns + int (v_took env (instant st))\<rparr>\<rparr>"

definition adb_call :: "venv \<Rightarrow> string list \<Rightarrow> vstate \<Rightarrow> proc \<times> vstate" where
  "adb_call env args st = (v_adb env (instant st) (''adb'' # args), sleep_ns env 0 st)"

section \<open>Addresses and artifacts\<close>

definition adb_port :: "vm_device \<Rightarrow> vm_error + int" where
  "adb_port self = (case resolve_ports (vd_index self) (ports (vd_cfg self)) False of
     Inl e \<Rightarrow> Inl (VmPorts e)
   | Inr (ps, _) \<Rightarrow> (case dict_get (well_known ps) ''adb'' of None \<Rightarrow> Inl NoAdbPort | Some p \<Rightarrow> Inr p))"

definition vm_adb_address :: "int \<Rightarrow> string" where
  "vm_adb_address p = ''localhost:'' @ str_of_int p"

definition qemu_of :: "int \<Rightarrow> qemu_process" where
  "qemu_of p = \<lparr>host_adb_port = Some p\<rparr>"

definition configured_or :: "string option \<Rightarrow> string \<Rightarrow> string option" where
  "configured_or c env_default =
     (case c of Some s \<Rightarrow> if s \<noteq> [] then Some s else if env_default \<noteq> [] then Some env_default else None
      | None \<Rightarrow> if env_default \<noteq> [] then Some env_default else None)"

definition resolve_artifact :: "venv \<Rightarrow> string option \<Rightarrow> string \<Rightarrow> string \<Rightarrow> vm_error + string" where
  "resolve_artifact env c env_default label = (case configured_or c env_default of
     None \<Rightarrow> Inl (NotConfigured label)
   | Some raw \<Rightarrow> (case v_expanduser env raw of
       None \<Rightarrow> Inl HomeUnknown
     | Some p \<Rightarrow> if \<not> v_exists env p then Inl (NotOnHost label) else Inr (v_absolute env p)))"

definition kernel_artifact :: "venv \<Rightarrow> vm_device \<Rightarrow> vm_error + string" where
  "kernel_artifact env self = resolve_artifact env (kernel (vm (vd_cfg self))) (s_vm_kernel env) ''kernel''"

definition rootfs_artifact :: "venv \<Rightarrow> vm_device \<Rightarrow> vm_error + string" where
  "rootfs_artifact env self = resolve_artifact env (rootfs (vm (vd_cfg self))) (s_vm_rootfs env) ''rootfs''"

definition resolved_accel_of :: "venv \<Rightarrow> vm_device \<Rightarrow> resolved_accel vop" where
  "resolved_accel_of env self = on_q (give (detect_accel (v_machine env) (v_kvm env) (accel (vm (vd_cfg self)))))"

definition smp_of :: "venv \<Rightarrow> vm_device \<Rightarrow> int vop" where
  "smp_of env self = on_q (give (resolve_smp (v_cpus env) (smp (vm (vd_cfg self)))))"

definition build_argv :: "venv \<Rightarrow> vm_device \<Rightarrow> resolved_accel \<Rightarrow> string list vop" where
  "build_argv env self acc =
     seq (give (kernel_artifact env self)) (\<lambda>k.
     seq (give (rootfs_artifact env self)) (\<lambda>r.
     seq (smp_of env self) (\<lambda>n.
     seq (give (adb_port self)) (\<lambda>p.
     ok (build_qemu_argv \<lparr>q_bin = s_qemu_bin env, q_accel = acc, q_kernel = k, q_rootfs = r, q_smp = n,
       q_memory_mib = memory_mib (vm (vd_cfg self)), q_adb_port = p, q_disk_format = ''raw'',
       q_disk_cache = None, q_monitor = None, q_loadvm = None\<rparr>)))))"

section \<open>Advisories\<close>

definition read_rootfs_version :: "venv \<Rightarrow> string \<Rightarrow> vm_error + int option" where
  "read_rootfs_version env img = (case v_marker env (img @ ''.android-version'') of
     None \<Rightarrow> Inr None
   | Some ReadOSError \<Rightarrow> Inl MarkerUnreadable
   | Some ReadRaises \<Rightarrow> Inr None
   | Some (ReadOk t) \<Rightarrow> Inr (py_int (strip t)))"

definition warn_on_rootfs_version_skew :: "venv \<Rightarrow> vm_device \<Rightarrow> unit vop" where
  "warn_on_rootfs_version_skew env self = (case rootfs_artifact env self of
     Inl e \<Rightarrow> if is_launch_error e then ok () else fail e
   | Inr img \<Rightarrow> seq (give (read_rootfs_version env img)) (\<lambda>baked. case baked of
       None \<Rightarrow> ok ()
     | Some b \<Rightarrow> if b = version (android (vd_cfg self)) then ok ()
                 else say (NoteRootfsSkew (version (android (vd_cfg self))) b)))"

definition warn_on_boot_cache_data_revert :: "vm_device \<Rightarrow> unit vop" where
  "warn_on_boot_cache_data_revert self =
     (if lifecycle (vd_cfg self) = Ephemeral then ok () else say NoteDataRevert)"

section \<open>Waiting for the guest\<close>

definition ADB_CONNECT_POLL_NS :: int where "ADB_CONNECT_POLL_NS = 1000000000"
definition BOOT_COMPLETED_TIMEOUT_SECONDS :: int where "BOOT_COMPLETED_TIMEOUT_SECONDS = 900"
definition BOOT_COMPLETED_POLL_NS :: int where "BOOT_COMPLETED_POLL_NS = 3000000000"
definition TCG_ADB_CONNECT_FLOOR_SECONDS :: int where
  "TCG_ADB_CONNECT_FLOOR_SECONDS = BOOT_COMPLETED_TIMEOUT_SECONDS"

definition to_ns :: "int \<Rightarrow> int" where
  "to_ns seconds = seconds * 1000000000"

definition adb_connect_deadline_seconds :: "venv \<Rightarrow> resolved_accel \<Rightarrow> int" where
  "adb_connect_deadline_seconds env acc = (case acc of
     Tcg \<Rightarrow> max (s_vm_adb_connect_timeout env) TCG_ADB_CONNECT_FLOOR_SECONDS
   | Kvm \<Rightarrow> s_vm_adb_connect_timeout env)"

definition connect_accepted :: "proc \<Rightarrow> bool" where
  "connect_accepted r = (case r of
     Exited rc out err \<Rightarrow>
       let combined = lower (out @ [CHR 0x0A] @ err)
       in rc = 0 \<and> \<not> contains combined ''cannot connect'' \<and> \<not> contains combined ''failed''
   | _ \<Rightarrow> False)"

definition adb_connect_ok :: "venv \<Rightarrow> string \<Rightarrow> vstate \<Rightarrow> bool \<times> vstate" where
  "adb_connect_ok env target st = (case adb_call env [''connect'', target] st of (r, st') \<Rightarrow> (connect_accepted r, st'))"

lemma is_running_clock: "clock (snd (is_running e q st)) = clock st"
  by (auto simp: is_running_def kill_def Let_def split: prod.splits sum.splits option.splits kill_result.splits if_splits)

lemma on_q_clock: "(\<And>s. clock (snd (c s)) = clock s) \<Longrightarrow> clock (vq (snd (on_q c st))) = clock (vq st)"
  by (simp add: on_q_def split: prod.split sum.split) (metis snd_conv)

text \<open>Whether the emulator is still there is asked after each refusal.\<close>

function adb_loop :: "venv \<Rightarrow> qemu_process \<Rightarrow> string \<Rightarrow> int \<Rightarrow> unit vop" where
  "adb_loop env q target deadline st = (case adb_connect_ok env target st of
     (True, st1) \<Rightarrow> (Inr (), st1)
   | (False, st1) \<Rightarrow> (case on_q (is_running (v_q env) q) st1 of
       (Inl e, st2) \<Rightarrow> (Inl e, st2)
     | (Inr False, st2) \<Rightarrow> (Inl GuestExited, st2)
     | (Inr True, st2) \<Rightarrow>
         if clock (vq st2) \<ge> deadline then (Inl AdbDeadline, st2)
         else adb_loop env q target deadline (sleep_ns env ADB_CONNECT_POLL_NS st2)))"
  by pat_completeness auto
termination
proof (relation "measure (\<lambda>(env, q, target, deadline, st). nat (deadline - clock (vq st)))", goal_cases)
  case (2 env q target deadline st b st1 r st2 b')
  have "clock (vq st) \<le> clock (vq st1)"
    using 2(1) by (auto simp: adb_connect_ok_def adb_call_def sleep_ns_def)
  moreover have "clock (vq st2) = clock (vq st1)"
    using on_q_clock [of "is_running (v_q env) q" st1] is_running_clock 2(3) by (metis snd_conv)
  ultimately show ?case using 2 by (auto simp: sleep_ns_def ADB_CONNECT_POLL_NS_def)
qed simp

declare adb_loop.simps [simp del]

definition wait_for_adb_connect :: "venv \<Rightarrow> int \<Rightarrow> resolved_accel \<Rightarrow> unit vop" where
  "wait_for_adb_connect env p acc st =
     (if \<not> v_adb_found env (instant st) then (Inl AdbMissing, st)
      else adb_loop env (qemu_of p) (vm_adb_address p)
        (clock (vq st) + to_ns (adb_connect_deadline_seconds env acc)) st)"

definition boot_completed :: "venv \<Rightarrow> string \<Rightarrow> vstate \<Rightarrow> bool \<times> vstate" where
  "boot_completed env target st = (case adb_call env [''connect'', target] st of
     (Exited _ _ _, st1) \<Rightarrow> (case adb_call env [''-s'', target, ''shell'', ''getprop'', ''sys.boot_completed''] st1 of
       (Exited _ out _, st2) \<Rightarrow> (strip out = ''1'', st2)
     | (_, st2) \<Rightarrow> (False, st2))
   | (_, st1) \<Rightarrow> (False, st1))"

lemma boot_completed_clock: "clock (vq st) \<le> clock (vq (snd (boot_completed env target st)))"
  by (auto simp: boot_completed_def adb_call_def sleep_ns_def split: proc.splits)

function boot_loop :: "venv \<Rightarrow> string \<Rightarrow> int \<Rightarrow> vstate \<Rightarrow> bool \<times> vstate" where
  "boot_loop env target deadline st =
     (if clock (vq st) < deadline then
        (case boot_completed env target st of
           (True, st1) \<Rightarrow> (True, st1)
         | (False, st1) \<Rightarrow> boot_loop env target deadline (sleep_ns env BOOT_COMPLETED_POLL_NS st1))
      else (False, st))"
  by pat_completeness auto
termination
proof (relation "measure (\<lambda>(env, target, deadline, st). nat (deadline - clock (vq st)))", goal_cases)
  case (2 env target deadline st b st1)
  then have "clock (vq st) \<le> clock (vq st1)" using boot_completed_clock by (metis snd_conv)
  with 2 show ?case by (auto simp: sleep_ns_def BOOT_COMPLETED_POLL_NS_def)
qed simp

declare boot_loop.simps [simp del]

definition wait_for_boot_completed :: "venv \<Rightarrow> int \<Rightarrow> bool vop" where
  "wait_for_boot_completed env p st =
     (if \<not> v_adb_found env (instant st) then (Inl AdbMissing, st)
      else case boot_loop env (vm_adb_address p) (clock (vq st) + to_ns BOOT_COMPLETED_TIMEOUT_SECONDS) st of
        (b, st') \<Rightarrow> (Inr b, st'))"

section \<open>Starting and stopping\<close>

definition vm_down :: "venv \<Rightarrow> vm_device \<Rightarrow> unit vop" where
  "vm_down env self = seq (give (adb_port self)) (\<lambda>p.
     seq (on_q (terminate (v_q env) (qemu_of p))) (\<lambda>_. ok ()))"

text \<open>Launch, wait, and take the emulator down again if the wait fails.\<close>

definition launch :: "venv \<Rightarrow> vm_device \<Rightarrow> resolved_accel \<Rightarrow> string list \<Rightarrow> unit vop" where
  "launch env self acc argv =
     seq (give (adb_port self)) (\<lambda>p.
     seq (on_q (start (v_q env) (qemu_of p) argv)) (\<lambda>_.
     on_error (wait_for_adb_connect env p acc) (vm_down env self)))"

definition overlay_path :: "vm_device \<Rightarrow> string" where
  "overlay_path self = path_str (vd_root self @ [''vm-overlay.qcow2''])"

definition monitor_path :: "vm_device \<Rightarrow> string" where
  "monitor_path self = path_str (vd_root self @ [''qemu-monitor.sock''])"

definition cached_argv :: "venv \<Rightarrow> vm_device \<Rightarrow> geometry \<Rightarrow> int \<Rightarrow> string option \<Rightarrow> string list" where
  "cached_argv env self g p loadvm = build_qemu_argv
     \<lparr>q_bin = s_qemu_bin env, q_accel = g_accel g, q_kernel = g_kernel g, q_rootfs = overlay_path self,
      q_smp = g_smp g, q_memory_mib = g_memory_mib g, q_adb_port = p, q_disk_format = ''qcow2'',
      q_disk_cache = None, q_monitor = Some (monitor_path self), q_loadvm = loadvm\<rparr>"

definition launch_cached :: "venv \<Rightarrow> vm_device \<Rightarrow> geometry \<Rightarrow> string option \<Rightarrow> unit vop" where
  "launch_cached env self g loadvm = seq (give (adb_port self)) (\<lambda>p.
     launch env self (g_accel g) (cached_argv env self g p loadvm))"

definition preserve_warm_fail_console :: "venv \<Rightarrow> unit vop" where
  "preserve_warm_fail_console env st = (case console_log (vq st) of
     None \<Rightarrow> (Inr (), st)
   | Some t \<Rightarrow> if v_copies env (instant st)
               then (Inr (), st\<lparr>warm_fail := Some (t @ v_console env (instant st))\<rparr>) else (Inl CopyFailed, st))"

definition geometry_of :: "venv \<Rightarrow> vm_device \<Rightarrow> resolved_accel \<Rightarrow> geometry vop" where
  "geometry_of env self acc =
     seq (give (kernel_artifact env self)) (\<lambda>k.
     seq (give (rootfs_artifact env self)) (\<lambda>r.
     seq (smp_of env self) (\<lambda>n.
     ok \<lparr>g_kernel = k, g_rootfs = r, g_smp = n, g_memory_mib = memory_mib (vm (vd_cfg self)), g_accel = acc\<rparr>)))"

definition free_monitor :: "venv \<Rightarrow> unit vop" where
  "free_monitor env st = (if v_monitor_free env (instant st) then (Inr (), st) else (Inl MonitorStuck, st))"

text \<open>The note of \<open>_up_cached\<close> about a checkpoint that does not fit.\<close>

definition note_stale :: "venv \<Rightarrow> geometry \<Rightarrow> vstate \<Rightarrow> vstate" where
  "note_stale env g st =
     (if overlay (vcache st) \<noteq> None \<and> fst (overlay_is_stale (v_sha env) g (vcache st)) = Inr True
      then snd (say NoteStaleOverlay st) else st)"

definition prepare :: "venv \<Rightarrow> geometry \<Rightarrow> bool vop" where
  "prepare env g st = on_cache (\<lambda>k. prepare_overlay (v_sha env) (v_list env) (v_create env k) (v_keyed env k) g)
     (note_stale env g st)"

definition renew :: "venv \<Rightarrow> geometry \<Rightarrow> unit vop" where
  "renew env g = on_cache (\<lambda>k c. renew_overlay (v_sha env) (v_create env k) (v_keyed env k) g (discard_overlay c))"

text \<open>\<open>savevm\<close> through the monitor; the emulator may have written the snapshot whatever it answers.\<close>

definition checkpoint :: "venv \<Rightarrow> bool vop" where
  "checkpoint env st = (case v_monitor env (instant st) of (connects, sends, evs) \<Rightarrow>
     (Inr (save_snapshot connects sends evs),
      st\<lparr>savevms := savevms st @ [instant st],
         vcache := (if connects \<and> sends \<and> v_saved env (instant st)
            then (vcache st)\<lparr>overlay := map_option (\<lambda>i. i\<lparr>img_tags := SNAPSHOT_TAG # img_tags i\<rparr>) (overlay (vcache st))\<rparr>
            else vcache st)\<rparr>))"

text \<open>After a cold boot.\<close>

definition cache_boot :: "venv \<Rightarrow> vm_device \<Rightarrow> unit vop" where
  "cache_boot env self =
     seq (give (adb_port self)) (\<lambda>p.
     seq (wait_for_boot_completed env p) (\<lambda>booted.
     if \<not> booted then say WarnNotBooted
     else seq (checkpoint env) (\<lambda>saved. say (if saved then InfoCheckpointed else WarnNotCheckpointed))))"

definition cold_boot :: "venv \<Rightarrow> vm_device \<Rightarrow> geometry \<Rightarrow> unit vop" where
  "cold_boot env self g = seq (launch_cached env self g None) (\<lambda>_. cache_boot env self)"

text \<open>What follows a resume that failed.\<close>

definition fall_back :: "venv \<Rightarrow> vm_device \<Rightarrow> geometry \<Rightarrow> unit vop" where
  "fall_back env self g =
     seq (preserve_warm_fail_console env) (\<lambda>_.
     seq (say WarnWarmFailed) (\<lambda>_.
     seq (renew env g) (\<lambda>_.
     cold_boot env self g)))"

definition warm_boot :: "venv \<Rightarrow> vm_device \<Rightarrow> geometry \<Rightarrow> unit vop" where
  "warm_boot env self g st = (case launch_cached env self g (Some SNAPSHOT_TAG) st of
     (Inr _, st1) \<Rightarrow> (Inr (), st1)
   | (Inl e, st1) \<Rightarrow> if is_launch_error e then fall_back env self g st1 else (Inl e, st1))"

definition up_cached :: "venv \<Rightarrow> vm_device \<Rightarrow> resolved_accel \<Rightarrow> unit vop" where
  "up_cached env self acc =
     seq (geometry_of env self acc) (\<lambda>g.
     seq (free_monitor env) (\<lambda>_.
     seq (prepare env g) (\<lambda>warm.
     if warm then
       seq (say InfoWarmStart) (\<lambda>_.
       seq (warn_on_boot_cache_data_revert self) (\<lambda>_.
       warm_boot env self g))
     else seq (say InfoColdStart) (\<lambda>_. cold_boot env self g))))"

definition vm_up :: "venv \<Rightarrow> vm_device \<Rightarrow> unit vop" where
  "vm_up env self =
     (if binder_mode (vd_cfg self) \<noteq> BinderVm then fail OutOfSync
      else seq (warn_on_rootfs_version_skew env self) (\<lambda>_.
           seq (resolved_accel_of env self) (\<lambda>acc.
           if boot_cache (vm (vd_cfg self)) then up_cached env self acc
           else seq (build_argv env self acc) (\<lambda>argv. launch env self acc argv))))"

definition vm_restart :: "venv \<Rightarrow> vm_device \<Rightarrow> unit vop" where
  "vm_restart env self = seq (vm_down env self) (\<lambda>_. vm_up env self)"

end
