(* ===== verification/Vm_Props.thy ===== *)
theory Vm_Props
  imports Vm_Backend Qemu_Props Boot_Cache_Props
begin

text \<open>
  What booting an emulated instance guarantees: how long a guest is waited for, what a failed start
  leaves behind, how often the emulator is launched, when a checkpoint is taken, and that every start
  is a history of the boot cache's own steps.
\<close>

section \<open>Frames\<close>

text \<open>Waiting for the guest: no process, no pidfile, no disk is touched.\<close>

definition only_waits :: "vstate \<Rightarrow> vstate \<Rightarrow> bool" where
  "only_waits st st' \<longleftrightarrow> vcache st' = vcache st \<and> savevms st' = savevms st \<and> messages st' = messages st
     \<and> warm_fail st' = warm_fail st \<and> spawned (vq st') = spawned (vq st) \<and> pidfile (vq st') = pidfile (vq st)
     \<and> console_log (vq st') = console_log (vq st) \<and> tick (vq st) \<le> tick (vq st')"

lemma only_waits_refl [simp]: "only_waits st st"
  by (simp add: only_waits_def)

lemma only_waits_trans [trans]: "only_waits a b \<Longrightarrow> only_waits b c \<Longrightarrow> only_waits a c"
  by (auto simp: only_waits_def)

lemma sleep_waits [simp]: "only_waits st (sleep_ns env d st)"
  by (simp add: only_waits_def sleep_ns_def instant_def)

lemma adb_call_waits: "adb_call env args st = (r, st') \<Longrightarrow> only_waits st st' \<and> r = v_adb env (instant st) (''adb'' # args)
    \<and> instant st' = Suc (instant st) \<and> clock (vq st) \<le> clock (vq st')"
  by (auto simp: adb_call_def sleep_ns_def instant_def only_waits_def)

lemma is_running_frame:
  "is_running e q s = (r, s') \<Longrightarrow> spawned s' = spawned s \<and> pidfile s' = pidfile s \<and> console_log s' = console_log s
     \<and> tick s \<le> tick s' \<and> tick s' \<le> tick s + 2 \<and> clock s' = clock s"
  by (auto simp: is_running_def kill_def pid_is_qemu_def Let_def
      split: prod.splits sum.splits option.splits kill_result.splits read_result.splits if_splits)

lemma is_running_error: "is_running e q s = (Inl x, s') \<Longrightarrow> x \<in> {qemu_error.OverflowErr, DecodeErr}"
  by (auto simp: is_running_def read_pid_def kill_def pid_is_qemu_def Let_def
      split: prod.splits sum.splits option.splits kill_result.splits read_result.splits if_splits)

lemma on_q_iff:
  "on_q c st = (r, st') \<longleftrightarrow> (\<exists>x s. c (vq st) = (x, s) \<and> st' = st\<lparr>vq := s\<rparr>
     \<and> r = (case x of Inl e \<Rightarrow> Inl (VmQemu e) | Inr a \<Rightarrow> Inr a))"
  by (auto simp: on_q_def split: prod.splits sum.splits)

lemma on_q_Inl: "on_q c st = (Inl e, st') \<longleftrightarrow> (\<exists>x s. c (vq st) = (Inl x, s) \<and> st' = st\<lparr>vq := s\<rparr> \<and> e = VmQemu x)"
  by (auto simp: on_q_def split: prod.splits sum.splits)

lemma on_q_Inr: "on_q c st = (Inr a, st') \<longleftrightarrow> (\<exists>s. c (vq st) = (Inr a, s) \<and> st' = st\<lparr>vq := s\<rparr>)"
  by (auto simp: on_q_def split: prod.splits sum.splits)

lemma on_cache_iff:
  "on_cache c st = (r, st') \<longleftrightarrow> (\<exists>x s. c (instant st) (vcache st) = (x, s) \<and> st' = st\<lparr>vcache := s\<rparr>
     \<and> r = (case x of Inl e \<Rightarrow> Inl (VmCache e) | Inr a \<Rightarrow> Inr a))"
  by (auto simp: on_cache_def split: prod.splits sum.splits)

lemma alive_waits:
  "on_q (is_running e q) st = (r, st') \<Longrightarrow> only_waits st st' \<and> clock (vq st') = clock (vq st)
     \<and> tick (vq st') \<le> tick (vq st) + 2"
  by (auto simp: on_q_iff only_waits_def dest: is_running_frame)

lemma connect_waits:
  "adb_connect_ok env target st = (b, st') \<Longrightarrow> only_waits st st' \<and> clock (vq st) \<le> clock (vq st')
     \<and> tick (vq st') = Suc (tick (vq st))"
  by (auto simp: adb_connect_ok_def instant_def split: prod.splits dest!: adb_call_waits)

text \<open>One round of the loop.\<close>

lemma adb_loop_cases:
  assumes "adb_loop env q target dl st = (r, st')"
  obtains (attached) "r = Inr ()" "only_waits st st'" "tick (vq st') = Suc (tick (vq st))"
  | (failed) e where "r = Inl e" "only_waits st st'" "tick (vq st') \<le> tick (vq st) + 3"
      "e = AdbDeadline \<longrightarrow> dl \<le> clock (vq st')" "e = AdbDeadline \<or> e = GuestExited \<or> (\<exists>x. e = VmQemu x \<and> x \<in> {qemu_error.OverflowErr, DecodeErr})"
  | (again) st2 where "only_waits st st2" "clock (vq st) + ADB_CONNECT_POLL_NS \<le> clock (vq st2)"
      "tick (vq st2) \<le> tick (vq st) + 4" "clock (vq st) < dl"
      "adb_loop env q target dl st2 = (r, st')"
proof -
  obtain b st1 where c: "adb_connect_ok env target st = (b, st1)" by fastforce
  note w1 = connect_waits [OF c]
  show thesis
  proof (cases b)
    case True
    then show thesis using assms c w1 by (intro attached) (simp_all add: adb_loop.simps [of _ _ _ _ st])
  next
    case False
    obtain a st2 where a: "on_q (is_running (v_q env) q) st1 = (a, st2)" by fastforce
    note w2 = alive_waits [OF a]
    have w: "only_waits st st2" "tick (vq st2) \<le> tick (vq st) + 3" "clock (vq st) \<le> clock (vq st2)"
      using w1 w2 only_waits_trans by auto
    consider (err) e where "a = Inl e" | (dead) "a = Inr False" | (late) "a = Inr True" "dl \<le> clock (vq st2)"
      | (more) "a = Inr True" "clock (vq st2) < dl" by (cases a) (auto, meson not_le)
    then show thesis
    proof cases
      case err
      then have "\<exists>x. e = VmQemu x \<and> x \<in> {qemu_error.OverflowErr, DecodeErr}"
        using a is_running_error by (auto simp: on_q_Inl)
      then show thesis using failed [of e] w assms c False a err by (auto simp: adb_loop.simps [of _ _ _ _ st])
    next
      case dead
      then show thesis using failed [of GuestExited] w assms c False a by (auto simp: adb_loop.simps [of _ _ _ _ st])
    next
      case late
      then show thesis using failed [of AdbDeadline] w assms c False a by (auto simp: adb_loop.simps [of _ _ _ _ st])
    next
      case more
      then have "adb_loop env q target dl (sleep_ns env ADB_CONNECT_POLL_NS st2) = (r, st')"
        using assms c False a by (auto simp: adb_loop.simps [of _ _ _ _ st])
      then show thesis using w more only_waits_trans [OF w(1) sleep_waits]
        by (intro again) (auto simp: sleep_ns_def instant_def)
    qed
  qed
qed

lemma adb_loop_spec:
  assumes "adb_loop env q target dl st = (r, st')" and "dl \<le> clock (vq st) + int n * ADB_CONNECT_POLL_NS"
  shows "only_waits st st' \<and> tick (vq st') \<le> tick (vq st) + 4 * n + 3
    \<and> (\<forall>e. r = Inl e \<longrightarrow> (e = AdbDeadline \<longrightarrow> dl \<le> clock (vq st'))
        \<and> (e = AdbDeadline \<or> e = GuestExited \<or> (\<exists>x. e = VmQemu x \<and> x \<in> {qemu_error.OverflowErr, DecodeErr})))"
  using assms
proof (induction n arbitrary: st)
  case 0
  from 0(1) show ?case by (cases rule: adb_loop_cases) (use 0(2) in auto)
next
  case (Suc n)
  from Suc.prems(1) show ?case
  proof (cases rule: adb_loop_cases)
    case (again st2)
    have "dl \<le> clock (vq st2) + int n * ADB_CONNECT_POLL_NS" using Suc.prems(2) again(2) by (simp add: algebra_simps)
    from Suc.IH [OF again(5) this] again show ?thesis using only_waits_trans by auto
  qed auto
qed

lemma wait_spec:
  assumes "wait_for_adb_connect env p acc st = (r, st')" and "0 \<le> s_vm_adb_connect_timeout env"
  shows "only_waits st st' \<and> tick (vq st') \<le> tick (vq st) + 4 * nat (adb_connect_deadline_seconds env acc) + 3
    \<and> (r = Inl AdbDeadline \<longrightarrow> clock (vq st) + to_ns (adb_connect_deadline_seconds env acc) \<le> clock (vq st'))"
proof (cases "v_adb_found env (instant st)")
  case True
  let ?s = "adb_connect_deadline_seconds env acc"
  have "0 \<le> ?s" using assms(2) by (auto simp: adb_connect_deadline_seconds_def split: resolved_accel.split)
  then have "clock (vq st) + to_ns ?s \<le> clock (vq st) + int (nat ?s) * ADB_CONNECT_POLL_NS"
    by (simp add: to_ns_def ADB_CONNECT_POLL_NS_def)
  from adb_loop_spec [OF _ this] assms(1) True show ?thesis by (auto simp: wait_for_adb_connect_def)
qed (use assms(1) in \<open>auto simp: wait_for_adb_connect_def\<close>)

lemma wait_waits: "wait_for_adb_connect env p acc st = (r, st') \<Longrightarrow> only_waits st st'"
proof -
  assume w: "wait_for_adb_connect env p acc st = (r, st')"
  let ?s = "adb_connect_deadline_seconds env acc"
  have "clock (vq st) + to_ns ?s \<le> clock (vq st) + int (nat ?s) * ADB_CONNECT_POLL_NS"
    by (simp add: to_ns_def ADB_CONNECT_POLL_NS_def)
  from adb_loop_spec [OF _ this] w show ?thesis by (auto simp: wait_for_adb_connect_def split: if_splits)
qed

text \<open>
  C22: a booting guest is given its time and no more. Waiting makes at most four observations for
  each second of the budget, and when it gives up for lateness the configured number of seconds
  has gone by since it began, and at least 900 of them under software emulation; meanwhile no
  process, pidfile or disk of the instance changes.
\<close>

theorem adb_wait_bounded:
  assumes "wait_for_adb_connect env p acc st = (r, st')" and "0 < s_vm_adb_connect_timeout env"
  shows "tick (vq st') \<le> tick (vq st) + 4 * nat (max (s_vm_adb_connect_timeout env) (if acc = Tcg then 900 else 0)) + 3
    \<and> (r = Inl AdbDeadline \<longrightarrow> to_ns (max (s_vm_adb_connect_timeout env) (if acc = Tcg then 900 else 0))
         \<le> clock (vq st') - clock (vq st))
    \<and> only_waits st st'"
proof -
  have "adb_connect_deadline_seconds env acc = max (s_vm_adb_connect_timeout env) (if acc = Tcg then 900 else 0)"
    using assms(2) by (cases acc) (simp_all add: adb_connect_deadline_seconds_def TCG_ADB_CONNECT_FLOOR_SECONDS_def
        BOOT_COMPLETED_TIMEOUT_SECONDS_def)
  with wait_spec [OF assms(1)] assms(2) show ?thesis by auto
qed

section \<open>Launching\<close>

lemma start_cases:
  assumes "start e q argv s = (r, s')"
  obtains (launched) pid where "r = Inr pid" "spawned s' = spawned s @ [(pid, argv)]"
      "pidfile s' = Some (ReadOk (str_of_int pid))" "tick s \<le> tick s'"
  | (refused) x where "r = Inl x" "spawned s' = spawned s" "pidfile s' = pidfile s" "tick s \<le> tick s'"
  | (untracked) pid where "r = Inl OSErr" "spawned s' = spawned s @ [(pid, argv)]" "pidfile s' = pidfile s" "tick s \<le> tick s'"
proof -
  obtain a s1 where a: "is_running e q s = (a, s1)" by fastforce
  note f = is_running_frame [OF a]
  show thesis
    using assms a f launched refused untracked
    by (auto simp: start_def Let_def split: sum.splits bool.splits if_splits option.splits)
qed

lemma sleep_poll_spawned: "spawned (sleep_poll e s) = spawned s"
  by (simp add: sleep_poll_def)

lemma poll_until_keeps:
  "spawned (snd (poll_until e q pid dl s)) = spawned s \<and> tick s \<le> tick (snd (poll_until e q pid dl s))"
proof (induction e q pid dl s rule: poll_until.induct)
  case (1 e q pid dl s)
  show ?case
  proof (cases "clock s < dl \<and> fst (pid_is_qemu e q pid s) = Inr True")
    case True
    let ?s = "sleep_poll e (snd (pid_is_qemu e q pid s))"
    have "spawned (snd (poll_until e q pid dl ?s)) = spawned s \<and> tick s \<le> tick (snd (poll_until e q pid dl ?s))"
      using 1 [OF conjunct1 [OF True] conjunct2 [OF True]] by (simp add: sleep_poll_spawned)
    with True show ?thesis by (subst (1 2) poll_until.simps) simp
  next
    case False
    then show ?thesis by (subst (1 2) poll_until.simps) (auto split: sum.splits bool.splits)
  qed
qed

lemma kill_keeps: "kill e pid sg s = (r, s') \<Longrightarrow> spawned s' = spawned s \<and> tick s \<le> tick s'
    \<and> (\<forall>x. r = Inl x \<longrightarrow> x = qemu_error.OverflowErr)"
  by (auto simp: kill_def Let_def split: if_splits)

lemma pid_is_qemu_keeps: "pid_is_qemu e q pid s = (r, s') \<Longrightarrow> spawned s' = spawned s \<and> tick s \<le> tick s'
    \<and> (\<forall>x. r = Inl x \<longrightarrow> x = DecodeErr)"
  by (auto simp: pid_is_qemu_def split: read_result.splits)

lemma poll_until_error: "fst (poll_until e q pid dl s) = Inl x \<Longrightarrow> x = DecodeErr"
proof (induction e q pid dl s rule: poll_until.induct)
  case (1 e q pid dl s)
  have "fst (pid_is_qemu e q pid s) = Inl y \<Longrightarrow> y = DecodeErr" for y
    by (auto simp: pid_is_qemu_def split: read_result.splits)
  with 1 show ?case by (auto simp: poll_until.simps [of _ _ _ _ s] split: if_splits sum.splits bool.splits)
qed

lemma escalate_keeps:
  assumes "escalate_if_alive e q pid s = (r, s')"
  shows "spawned s' = spawned s \<and> tick s \<le> tick s' \<and> (\<forall>x. r = Inl x \<longrightarrow> x \<in> {qemu_error.OverflowErr, DecodeErr})"
proof -
  obtain r1 s1 where p: "poll_until e q pid (clock s + TERM_GRACE_NS) s = (r1, s1)" by fastforce
  have f: "spawned s1 = spawned s" "tick s \<le> tick s1" "\<forall>x. r1 = Inl x \<longrightarrow> x = DecodeErr"
    using poll_until_keeps [of e q pid "clock s + TERM_GRACE_NS" s]
      poll_until_error [of e q pid "clock s + TERM_GRACE_NS" s] p by auto
  obtain r2 s2 where i: "pid_is_qemu e q pid s1 = (r2, s2)" by fastforce
  obtain r3 s3 where k: "kill e pid SigKill s2 = (r3, s3)" by fastforce
  note g = pid_is_qemu_keeps [OF i] kill_keeps [OF k]
  show ?thesis
  proof (cases "r1 = Inr True \<and> r2 = Inr True")
    case True
    with assms p i k f g show ?thesis by (cases r3) (auto simp: escalate_if_alive_def)
  next
    case False
    with assms p i f g(1) show ?thesis
      by (cases r1; cases r2) (auto simp: escalate_if_alive_def split: bool.splits)
  qed
qed

lemma unlink_keeps: "spawned (unlink_pidfile e s) = spawned s" "tick (unlink_pidfile e s) = tick s"
  "(\<forall>k. e_unlink e k) \<longrightarrow> pidfile (unlink_pidfile e s) = None"
  by (simp_all add: unlink_pidfile_def)

lemma terminate_keeps:
  assumes "terminate e q s = (r, s')"
  shows "spawned s' = spawned s \<and> tick s \<le> tick s' \<and> (\<forall>x. r = Inl x \<longrightarrow> x \<in> {qemu_error.OverflowErr, DecodeErr})
    \<and> (\<forall>b. r = Inr b \<longrightarrow> (\<forall>k. e_unlink e k) \<longrightarrow> pidfile s' = None)"
proof (cases "read_pid s")
  case (Inl x)
  then have "x = DecodeErr" by (auto simp: read_pid_def split: option.splits read_result.splits)
  with Inl assms show ?thesis by (auto simp: terminate_def)
next
  case (Inr po)
  show ?thesis
  proof (cases po)
    case None
    with Inr assms show ?thesis by (auto simp: terminate_def unlink_keeps)
  next
    case (Some pid)
    obtain o1 s1 where i: "pid_is_qemu e q pid s = (o1, s1)" by fastforce
    obtain o2 s2 where k: "kill e pid SigTerm s1 = (o2, s2)" by fastforce
    obtain o3 s3 where c: "escalate_if_alive e q pid s2 = (o3, s3)" by fastforce
    note f = pid_is_qemu_keeps [OF i] kill_keeps [OF k] escalate_keeps [OF c]
    show ?thesis
    proof (cases "o1 = Inr True")
      case False
      with assms Inr Some i f(1) show ?thesis
        by (cases o1) (auto simp: terminate_def unlink_keeps)
    next
      case True
      show ?thesis
      proof (cases "o2 = Inr KillOk")
        case False
        with assms Inr Some i True k f(1,2) show ?thesis
          by (cases o2) (auto simp: terminate_def unlink_keeps split: kill_result.splits)
      next
        case True
        with \<open>o1 = Inr True\<close> assms Inr Some i k c f show ?thesis
          by (cases o3) (auto simp: terminate_def unlink_keeps)
      qed
    qed
  qed
qed

text \<open>A launch leaves the disk, the log of checkpoints and what was printed alone.\<close>

definition only_procs :: "vstate \<Rightarrow> vstate \<Rightarrow> bool" where
  "only_procs st st' \<longleftrightarrow> vcache st' = vcache st \<and> savevms st' = savevms st \<and> messages st' = messages st
     \<and> tick (vq st) \<le> tick (vq st')"

lemma only_procs_trans: "only_procs a b \<Longrightarrow> only_procs b c \<Longrightarrow> only_procs a c"
  by (auto simp: only_procs_def)

lemma waits_procs: "only_waits a b \<Longrightarrow> only_procs a b"
  by (simp add: only_waits_def only_procs_def)

lemma adb_port_error: "adb_port self = Inl e \<Longrightarrow> \<not> is_launch_error e \<and> e \<noteq> AdbMissing"
  by (auto simp: adb_port_def is_launch_error_def split: sum.splits prod.splits option.splits)

lemma vm_down_spec:
  assumes "vm_down env self st = (r, st')"
  shows "only_procs st st' \<and> spawned (vq st') = spawned (vq st)
    \<and> (r = Inr () \<longrightarrow> (\<forall>k. e_unlink (v_q env) k) \<longrightarrow> pidfile (vq st') = None)
    \<and> (\<forall>e. r = Inl e \<longrightarrow> \<not> is_launch_error e \<and> e \<noteq> AdbMissing)"
proof (cases "adb_port self")
  case (Inl e)
  with assms adb_port_error [OF Inl] show ?thesis by (auto simp: vm_down_def seq_def give_def only_procs_def)
next
  case (Inr p)
  obtain x s where x: "terminate (v_q env) (qemu_of p) (vq st) = (x, s)" by fastforce
  from terminate_keeps [OF x] assms Inr x show ?thesis
    by (cases x) (auto simp: vm_down_def seq_def give_def ok_def on_q_def only_procs_def is_launch_error_def)
qed

text \<open>One attempt to launch \<open>argv\<close>, with the processes it made.\<close>

definition launched_as :: "venv \<Rightarrow> string list \<Rightarrow> vm_error + unit \<Rightarrow> vstate \<Rightarrow> vstate \<Rightarrow> (int \<times> string list) list \<Rightarrow> bool" where
  "launched_as env argv r st st' new \<longleftrightarrow> spawned (vq st') = spawned (vq st) @ new \<and> map snd new \<in> {[], [argv]}
      \<and> (r = Inr () \<longrightarrow> map snd new = [argv])
      \<and> (\<forall>e. r = Inl e \<longrightarrow> is_launch_error e \<or> e = AdbMissing \<longrightarrow> (\<forall>k. e_unlink (v_q env) k) \<longrightarrow>
           pidfile (vq st') = None \<or> new = [] \<and> pidfile (vq st') = pidfile (vq st))"

lemma launch_spec:
  assumes "launch env self acc argv st = (r, st')"
  shows "only_procs st st' \<and> (\<exists>new. launched_as env argv r st st' new)"
proof (cases "adb_port self")
  case (Inl e)
  then have "st' = st" "r = Inl e" using assms by (simp_all add: launch_def seq_def give_def)
  then show ?thesis by (auto simp: only_procs_def launched_as_def)
next
  case (Inr p)
  obtain x s where x: "start (v_q env) (qemu_of p) argv (vq st) = (x, s)" by fastforce
  let ?st = "st\<lparr>vq := s\<rparr>"
  have go: "if \<exists>pid. x = Inr pid then on_error (wait_for_adb_connect env p acc) (vm_down env self) ?st = (r, st')
    else \<exists>y. x = Inl y \<and> r = Inl (VmQemu y) \<and> st' = ?st"
    using assms Inr x by (cases x) (auto simp: launch_def seq_def give_def on_q_def)
  from x show ?thesis
  proof (cases rule: start_cases)
    case (launched pid)
    with go have "on_error (wait_for_adb_connect env p acc) (vm_down env self) ?st = (r, st')" by simp
    then obtain r1 st1 where w: "wait_for_adb_connect env p acc ?st = (r1, st1)"
      and e: "r1 = Inr () \<and> r = Inr () \<and> st' = st1 \<or> (\<exists>e r2. r1 = Inl e \<and> vm_down env self st1 = (r2, st')
         \<and> (case r2 of Inl e' \<Rightarrow> r = Inl e' | Inr _ \<Rightarrow> r = Inl e))"
      by (cases "wait_for_adb_connect env p acc ?st") (auto simp: on_error_def split: sum.splits prod.splits)
    note w1 = wait_waits [OF w]
    then have p1: "only_procs st st1" "spawned (vq st1) = spawned (vq st) @ [(pid, argv)]"
      using launched by (auto simp: only_waits_def only_procs_def)
    from e show ?thesis
    proof (elim disjE exE conjE)
      fix e r2 assume d: "r1 = Inl e" "vm_down env self st1 = (r2, st')" "case r2 of Inl e' \<Rightarrow> r = Inl e' | Inr _ \<Rightarrow> r = Inl e"
      from vm_down_spec [OF d(2)] p1 d(3) show ?thesis
        using only_procs_trans by (intro conjI exI [of _ "[(pid, argv)]"]) (auto simp: launched_as_def split: sum.splits)
    qed (use p1 in \<open>auto simp: launched_as_def\<close>)
  next
    case (refused y)
    with go show ?thesis by (auto simp: only_procs_def launched_as_def)
  next
    case (untracked pid)
    with go show ?thesis by (auto simp: only_procs_def is_launch_error_def launched_as_def)
  qed
qed

section \<open>A whole start\<close>

definition booted_at :: "venv \<Rightarrow> vm_device \<Rightarrow> nat \<Rightarrow> bool" where
  "booted_at env self k \<longleftrightarrow> (\<exists>p rc out err. adb_port self = Inr p
     \<and> v_adb env k [''adb'', ''-s'', vm_adb_address p, ''shell'', ''getprop'', ''sys.boot_completed''] = Exited rc out err
     \<and> strip out = ''1'')"

lemma boot_completed_spec:
  assumes "boot_completed env target st = (b, st')"
  shows "only_waits st st' \<and> (b \<longrightarrow> (\<exists>k rc out err. instant st \<le> k \<and> k < instant st'
     \<and> v_adb env k [''adb'', ''-s'', target, ''shell'', ''getprop'', ''sys.boot_completed''] = Exited rc out err \<and> strip out = ''1''))"
proof -
  obtain r1 st1 where c: "adb_call env [''connect'', target] st = (r1, st1)" by fastforce
  obtain r2 st2 where g: "adb_call env [''-s'', target, ''shell'', ''getprop'', ''sys.boot_completed''] st1 = (r2, st2)"
    by fastforce
  note w = adb_call_waits [OF c] adb_call_waits [OF g]
  have w2: "only_waits st st2" using w only_waits_trans by blast
  from assms c g w w2 show ?thesis
    by (auto simp: boot_completed_def split: proc.splits intro!: exI [of _ "instant st1"])
qed

lemma boot_loop_spec:
  "boot_loop env target dl st = (b, st') \<Longrightarrow> only_waits st st' \<and> (b \<longrightarrow> (\<exists>k rc out err. instant st \<le> k \<and> k < instant st'
     \<and> v_adb env k [''adb'', ''-s'', target, ''shell'', ''getprop'', ''sys.boot_completed''] = Exited rc out err \<and> strip out = ''1''))"
proof (induction env target dl st rule: boot_loop.induct)
  case (1 env target dl st)
  obtain b1 st1 where c: "boot_completed env target st = (b1, st1)" by fastforce
  note w = boot_completed_spec [OF c]
  let ?st = "sleep_ns env BOOT_COMPLETED_POLL_NS st1"
  consider (late) "\<not> clock (vq st) < dl" | (yes) "clock (vq st) < dl" "b1" | (no) "clock (vq st) < dl" "\<not> b1" by blast
  then show ?case
  proof cases
    case no
    have l: "boot_loop env target dl ?st = (b, st')"
      using "1.prems" no c by (simp add: boot_loop.simps [of _ _ _ st])
    have w1: "only_waits st ?st" using w only_waits_trans sleep_waits by blast
    then have "instant st \<le> instant ?st" by (simp add: only_waits_def instant_def)
    with "1.IH" [OF no(1) c [symmetric] _ l] no(2) w1 show ?thesis
      by (meson le_trans only_waits_trans)
  qed (use "1.prems" w c in \<open>auto simp: boot_loop.simps [of _ _ _ st]\<close>)
qed

lemma cache_boot_spec:
  assumes "cache_boot env self st = (r, st')"
  shows "spawned (vq st') = spawned (vq st) \<and> tick (vq st) \<le> tick (vq st')
    \<and> (vcache st' = vcache st \<or> vcache st' = add_tag SNAPSHOT_TAG (vcache st))
    \<and> (\<forall>e. r = Inl e \<longrightarrow> \<not> is_launch_error e)
    \<and> (\<exists>ks. savevms st' = savevms st @ ks \<and> length ks \<le> 1
         \<and> (\<forall>k\<in>set ks. \<exists>j. instant st \<le> j \<and> j < k \<and> booted_at env self j))"
proof (cases "adb_port self")
  case (Inl e)
  with assms adb_port_error [OF Inl] show ?thesis by (auto simp: cache_boot_def seq_def give_def)
next
  case (Inr p)
  show ?thesis
  proof (cases "v_adb_found env (instant st)")
    case False
    with assms Inr show ?thesis
      by (auto simp: cache_boot_def wait_for_boot_completed_def seq_def give_def is_launch_error_def)
  next
    case True
    obtain b st1 where l: "boot_loop env (vm_adb_address p) (clock (vq st) + to_ns BOOT_COMPLETED_TIMEOUT_SECONDS) st = (b, st1)"
      by fastforce
    note w = boot_loop_spec [OF l]
    have bt: "b \<Longrightarrow> \<exists>j. instant st \<le> j \<and> j < instant st1 \<and> booted_at env self j"
      using w Inr unfolding booted_at_def by blast
    obtain cn sn evs where m: "v_monitor env (instant st1) = (cn, sn, evs)" by (cases "v_monitor env (instant st1)") auto
    have r: "r = Inr ()" and st': "st' = snd (say (if b then (if save_snapshot cn sn evs then InfoCheckpointed else WarnNotCheckpointed)
        else WarnNotBooted) (if b then snd (checkpoint env st1) else st1))"
      using assms Inr True l m
      by (auto simp: cache_boot_def wait_for_boot_completed_def seq_def give_def say_def checkpoint_def split: if_splits)
    show ?thesis
    proof (cases b)
      case b: True
      have "savevms st' = savevms st @ [instant st1]" "spawned (vq st') = spawned (vq st)" "tick (vq st) \<le> tick (vq st')"
        "vcache st' = vcache st \<or> vcache st' = add_tag SNAPSHOT_TAG (vcache st)"
        using st' b m w by (auto simp: say_def checkpoint_def only_waits_def add_tag_def)
      with r bt b show ?thesis by auto
    next
      case False
      with st' r w show ?thesis by (auto simp: say_def only_waits_def)
    qed
  qed
qed

definition argv_for :: "venv \<Rightarrow> vm_device \<Rightarrow> geometry \<Rightarrow> string option \<Rightarrow> string list" where
  "argv_for env self g l = (case adb_port self of Inr p \<Rightarrow> cached_argv env self g p l | Inl _ \<Rightarrow> [])"

text \<open>
  What a start does: the launches are one of \<open>A\<close>; a checkpoint is asked for at most once, after
  the launch of \<open>cold\<close> and after the guest said that it has booted; after a launch error the
  pidfile is gone, or nothing was launched and it is the one of before.
\<close>

definition start_run :: "venv \<Rightarrow> vm_device \<Rightarrow> string list list set \<Rightarrow> string list \<Rightarrow> vm_error + unit \<Rightarrow> vstate \<Rightarrow> vstate
    \<Rightarrow> (int \<times> string list) list \<Rightarrow> nat list \<Rightarrow> bool" where
  "start_run env self A cold r st st' new ks \<longleftrightarrow> instant st \<le> instant st'
     \<and> spawned (vq st') = spawned (vq st) @ new \<and> savevms st' = savevms st @ ks \<and> map snd new \<in> A
     \<and> (r = Inr () \<longrightarrow> new \<noteq> []) \<and> length ks \<le> 1
     \<and> (\<forall>k\<in>set ks. new \<noteq> [] \<and> snd (last new) = cold \<and> (\<exists>j. instant st \<le> j \<and> j < k \<and> booted_at env self j))
     \<and> (\<forall>e. r = Inl e \<longrightarrow> is_launch_error e \<longrightarrow> (\<forall>k. e_unlink (v_q env) k) \<longrightarrow>
          pidfile (vq st') = None \<or> new = [] \<and> pidfile (vq st') = pidfile (vq st))"

definition started :: "venv \<Rightarrow> vm_device \<Rightarrow> string list list set \<Rightarrow> string list \<Rightarrow> vm_error + unit \<Rightarrow> vstate \<Rightarrow> vstate \<Rightarrow> bool" where
  "started env self A cold r st st' \<longleftrightarrow> (\<exists>new ks. start_run env self A cold r st st' new ks)"

lemma launch_cached_spec:
  assumes "launch_cached env self g l st = (r, st')"
  shows "only_procs st st' \<and> (\<exists>new. launched_as env (argv_for env self g l) r st st' new)"
proof (cases "adb_port self")
  case (Inl e)
  with assms show ?thesis
    by (auto simp: launch_cached_def seq_def give_def only_procs_def launched_as_def)
next
  case (Inr p)
  then have "launch env self (g_accel g) (argv_for env self g l) st = (r, st')"
    using assms by (simp add: launch_cached_def seq_def give_def argv_for_def)
  then show ?thesis by (rule launch_spec)
qed

lemma launched_run:
  assumes "only_procs st st'" and "launched_as env argv r st st' new" and "[] \<in> A" and "[argv] \<in> A"
  shows "start_run env self A C r st st' new []"
  using assms by (auto simp: start_run_def launched_as_def only_procs_def instant_def)

lemma cold_boot_started:
  assumes "cold_boot env self g st = (r, st')"
  shows "started env self {[], [argv_for env self g None]} (argv_for env self g None) r st st'"
proof -
  let ?C = "argv_for env self g None"
  obtain r1 st1 where l: "launch_cached env self g None st = (r1, st1)" by fastforce
  from launch_cached_spec [OF l] obtain new where pr: "only_procs st st1" and new: "launched_as env ?C r1 st st1 new"
    by blast
  show ?thesis
  proof (cases r1)
    case (Inl e)
    then have "r = r1" "st' = st1" using assms l by (simp_all add: cold_boot_def seq_def)
    with launched_run [OF pr new] show ?thesis unfolding started_def by blast
  next
    case (Inr u)
    then have c: "cache_boot env self st1 = (r, st')" using assms l by (simp add: cold_boot_def seq_def)
    from cache_boot_spec [OF c] obtain ks where ks: "savevms st' = savevms st1 @ ks" "length ks \<le> 1"
      "\<forall>k\<in>set ks. \<exists>j. instant st1 \<le> j \<and> j < k \<and> booted_at env self j" by blast
    have cb: "instant st1 \<le> instant st'" "spawned (vq st') = spawned (vq st1)" "\<forall>e. r = Inl e \<longrightarrow> \<not> is_launch_error e"
      using cache_boot_spec [OF c] by (simp_all add: instant_def)
    have le: "instant st \<le> instant st1" "savevms st1 = savevms st" using pr by (simp_all add: only_procs_def instant_def)
    have n: "map snd new = [?C]" "spawned (vq st1) = spawned (vq st) @ new" using new Inr by (simp_all add: launched_as_def)
    then have "new \<noteq> []" "snd (last new) = ?C" by auto
    moreover have "\<forall>k\<in>set ks. \<exists>j. instant st \<le> j \<and> j < k \<and> booted_at env self j"
      using ks(3) le(1) by (meson le_trans)
    ultimately have "start_run env self {[], [?C]} ?C r st st' new ks"
      using n ks(1,2) cb le by (auto simp: start_run_def)
    then show ?thesis unfolding started_def by blast
  qed
qed

lemma started_mono: "started env self A C r st st' \<Longrightarrow> A \<subseteq> B \<Longrightarrow> started env self B C r st st'"
  unfolding started_def start_run_def by blast

text \<open>Steps before a start that launch nothing.\<close>

lemma started_after:
  assumes "started env self A C r st1 st'" and "vq st1 = vq st" and "savevms st1 = savevms st"
  shows "started env self A C r st st'"
  using assms unfolding started_def start_run_def by (simp add: instant_def)

lemma not_started:
  assumes "vq st' = vq st" and "savevms st' = savevms st" and "[] \<in> A"
  shows "started env self A C (Inl e) st st'"
proof -
  have "start_run env self A C (Inl e) st st' [] []" using assms by (simp add: start_run_def instant_def)
  then show ?thesis unfolding started_def by blast
qed

lemma renew_keeps: "renew env g st = (q, st1) \<Longrightarrow> vq st1 = vq st \<and> savevms st1 = savevms st"
  by (auto simp: renew_def on_cache_iff)

lemma say_keeps: "say n st = (r, st1) \<Longrightarrow> vq st1 = vq st \<and> savevms st1 = savevms st \<and> vcache st1 = vcache st \<and> r = Inr ()"
  by (auto simp: say_def)

lemma preserve_keeps:
  "preserve_warm_fail_console env st = (r, st1) \<Longrightarrow> vq st1 = vq st \<and> savevms st1 = savevms st \<and> vcache st1 = vcache st"
  by (auto simp: preserve_warm_fail_console_def split: option.splits if_splits)

lemma fall_back_started:
  assumes "fall_back env self g st = (r, st')"
  shows "started env self {[], [argv_for env self g None]} (argv_for env self g None) r st st'"
proof -
  consider (p) e where "preserve_warm_fail_console env st = (Inl e, st')" "r = Inl e"
    | (n) u st1 st2 e where "preserve_warm_fail_console env st = (Inr u, st1)" "say WarnWarmFailed st1 = (Inr (), st2)"
        "renew env g st2 = (Inl e, st')" "r = Inl e"
    | (c) u st1 st2 u' st3 where "preserve_warm_fail_console env st = (Inr u, st1)" "say WarnWarmFailed st1 = (Inr (), st2)"
        "renew env g st2 = (Inr u', st3)" "cold_boot env self g st3 = (r, st')"
    using assms by (auto simp: fall_back_def seq_iff say_def)
  then show ?thesis
  proof cases
    case p
    with preserve_keeps [OF p(1)] show ?thesis by (simp add: not_started)
  next
    case n
    with preserve_keeps [OF n(1)] say_keeps [OF n(2)] renew_keeps [OF n(3)] show ?thesis by (simp add: not_started)
  next
    case c
    with preserve_keeps [OF c(1)] say_keeps [OF c(2)] renew_keeps [OF c(3)] show ?thesis
      using started_after [OF cold_boot_started [OF c(4)], of st] by simp
  qed
qed

lemma warm_boot_started:
  assumes "warm_boot env self g st = (r, st')"
  defines "W \<equiv> argv_for env self g (Some SNAPSHOT_TAG)" and "C \<equiv> argv_for env self g None"
  shows "started env self {[], [W], [C], [W, C]} C r st st'"
proof -
  obtain r1 st1 where l: "launch_cached env self g (Some SNAPSHOT_TAG) st = (r1, st1)" by fastforce
  from launch_cached_spec [OF l] obtain new where pr: "only_procs st st1" and new: "launched_as env W r1 st st1 new"
    unfolding W_def by blast
  show ?thesis
  proof (cases "\<exists>e. r1 = Inl e \<and> is_launch_error e")
    case False
    then have "r = r1" "st' = st1" using assms(1) l by (auto simp: warm_boot_def split: sum.splits)
    moreover have "start_run env self {[], [W], [C], [W, C]} C r1 st st1 new []"
      by (rule launched_run [OF pr new]) simp_all
    ultimately show ?thesis unfolding started_def by blast
  next
    case True
    then have "fall_back env self g st1 = (r, st')" using assms(1) l by (auto simp: warm_boot_def)
    from fall_back_started [OF this] obtain new2 ks where n2: "start_run env self {[], [C]} C r st1 st' new2 ks"
      unfolding started_def C_def by blast
    have sv: "savevms st1 = savevms st" "instant st \<le> instant st1" using pr by (auto simp: only_procs_def instant_def)
    have a: "map snd (new @ new2) \<in> {[], [W], [C], [W, C]}" using new n2 by (auto simp: launched_as_def start_run_def)
    have k: "\<forall>k\<in>set ks. new @ new2 \<noteq> [] \<and> snd (last (new @ new2)) = C \<and> (\<exists>j. instant st \<le> j \<and> j < k \<and> booted_at env self j)"
    proof
      fix k assume "k \<in> set ks"
      then obtain j where j: "new2 \<noteq> []" "snd (last new2) = C" "instant st1 \<le> j" "j < k" "booted_at env self j"
        using n2 by (auto simp: start_run_def)
      with sv(2) show "new @ new2 \<noteq> [] \<and> snd (last (new @ new2)) = C \<and> (\<exists>j. instant st \<le> j \<and> j < k \<and> booted_at env self j)"
        using le_trans by (intro conjI exI [of _ j]) auto
    qed
    have e: "pidfile (vq st') = None \<or> new @ new2 = [] \<and> pidfile (vq st') = pidfile (vq st)"
      if "r = Inl e" "is_launch_error e" "\<forall>k. e_unlink (v_q env) k" for e
      using that n2 new True by (auto simp: launched_as_def start_run_def)
    have "start_run env self {[], [W], [C], [W, C]} C r st st' (new @ new2) ks"
      using n2 new sv a k e unfolding start_run_def launched_as_def by auto
    then show ?thesis unfolding started_def by blast
  qed
qed

lemma on_q_give: "on_q (give v) st = (r, st') \<Longrightarrow> st' = st"
  by (auto simp: on_q_def give_def split: sum.splits)

lemma geometry_keeps: "geometry_of env self acc st = (r, st') \<Longrightarrow> st' = st"
  by (auto simp: geometry_of_def seq_iff give_iff ok_iff smp_of_def dest!: on_q_give)

lemma build_argv_keeps: "build_argv env self acc st = (r, st') \<Longrightarrow> st' = st"
  by (auto simp: build_argv_def seq_iff give_iff ok_iff smp_of_def dest!: on_q_give)

lemma skew_keeps:
  "warn_on_rootfs_version_skew env self st = (r, st') \<Longrightarrow> vq st' = vq st \<and> savevms st' = savevms st \<and> vcache st' = vcache st"
  by (auto simp: warn_on_rootfs_version_skew_def seq_iff give_iff ok_iff fail_iff split: sum.splits if_splits option.splits
      dest!: say_keeps)

lemma revert_keeps:
  "warn_on_boot_cache_data_revert self st = (r, st') \<Longrightarrow>
   vq st' = vq st \<and> savevms st' = savevms st \<and> vcache st' = vcache st \<and> r = Inr ()"
  by (auto simp: warn_on_boot_cache_data_revert_def ok_iff split: if_splits dest!: say_keeps)

lemma note_stale_keeps: "vq (note_stale env g st) = vq st" "savevms (note_stale env g st) = savevms st"
  "vcache (note_stale env g st) = vcache st"
  by (simp_all add: note_stale_def say_def)

lemma prepare_keeps:
  "prepare env g st = (r, st') \<Longrightarrow> vq st' = vq st \<and> savevms st' = savevms st
     \<and> (\<exists>x. prepare_overlay (v_sha env) (v_list env) (v_create env (instant st)) (v_keyed env (instant st)) g (vcache st) = (x, vcache st')
        \<and> r = (case x of Inl e \<Rightarrow> Inl (VmCache e) | Inr a \<Rightarrow> Inr a))"
  by (auto simp: prepare_def on_cache_iff note_stale_keeps instant_def)

text \<open>The ways through a cached start.\<close>

lemma up_cached_cases:
  assumes "up_cached env self acc st = (r, st')"
  obtains (early) e where "r = Inl e" "st' = st"
  | (unprepared) g e where "prepare env g st = (Inl e, st')" "r = Inl e"
  | (warm) g st1 st2 st3 where "prepare env g st = (Inr True, st1)" "say InfoWarmStart st1 = (Inr (), st2)"
      "warn_on_boot_cache_data_revert self st2 = (Inr (), st3)" "warm_boot env self g st3 = (r, st')"
  | (cold) g st1 st2 where "prepare env g st = (Inr False, st1)" "say InfoColdStart st1 = (Inr (), st2)"
      "cold_boot env self g st2 = (r, st')"
proof -
  obtain rg stg where g: "geometry_of env self acc st = (rg, stg)" by fastforce
  have "stg = st" using geometry_keeps [OF g] .
  note g = g [unfolded this]
  show thesis
  proof (cases rg)
    case (Inl e)
    with assms g early show thesis by (auto simp: up_cached_def seq_def)
  next
    case (Inr geo)
    obtain rm stm where m: "free_monitor env st = (rm, stm)" by fastforce
    have "stm = st" using m by (auto simp: free_monitor_def split: if_splits)
    note m = m [unfolded this]
    show thesis
    proof (cases rm)
      case (Inl e)
      with assms g Inr m early show thesis by (auto simp: up_cached_def seq_def)
    next
      case rm: (Inr u)
      obtain rp stp where p: "prepare env geo st = (rp, stp)" by fastforce
      obtain rv stv where v: "warn_on_boot_cache_data_revert self (snd (say InfoWarmStart stp)) = (rv, stv)" by fastforce
      show thesis
      proof (cases rp)
        case (Inl e)
        with assms g Inr m rm p unprepared [of geo e] show thesis by (auto simp: up_cached_def seq_def)
      next
        case (Inr w)
        have "rv = Inr ()" using revert_keeps [OF v] by simp
        with assms g \<open>rg = Inr geo\<close> m rm p Inr v show thesis
          using warm [of geo stp "snd (say InfoWarmStart stp)" stv] cold [of geo stp "snd (say InfoColdStart stp)"]
          by (cases w) (simp_all add: up_cached_def seq_def say_def)
      qed
    qed
  qed
qed

definition cached_launches :: "venv \<Rightarrow> vm_device \<Rightarrow> geometry \<Rightarrow> string list list set" where
  "cached_launches env self g = (let W = argv_for env self g (Some SNAPSHOT_TAG); C = argv_for env self g None
     in {[], [W], [C], [W, C]})"

lemma up_cached_started:
  assumes "up_cached env self acc st = (r, st')"
  shows "\<exists>g. started env self (cached_launches env self g) (argv_for env self g None) r st st'"
  using assms
proof (cases rule: up_cached_cases)
  case (early e)
  then show ?thesis by (auto simp: cached_launches_def Let_def intro: not_started)
next
  case (unprepared g e)
  with prepare_keeps [OF unprepared(1)] show ?thesis by (auto simp: cached_launches_def Let_def intro: not_started)
next
  case (warm g st1 st2 st3)
  from started_after [OF warm_boot_started [OF warm(4)], of st] prepare_keeps [OF warm(1)] say_keeps [OF warm(2)]
    revert_keeps [OF warm(3)] show ?thesis by (auto simp: cached_launches_def Let_def)
next
  case (cold g st1 st2)
  from started_after [OF started_mono [OF cold_boot_started [OF cold(3)]], of "cached_launches env self g" st]
    prepare_keeps [OF cold(1)] say_keeps [OF cold(2)] show ?thesis by (auto simp: cached_launches_def Let_def)
qed

text \<open>The ways through a start.\<close>

lemma vm_up_cases:
  assumes "vm_up env self st = (r, st')"
  obtains (refused) e where "r = Inl e" "vq st' = vq st" "savevms st' = savevms st" "vcache st' = vcache st"
  | (cached) acc st1 where "boot_cache (vm (vd_cfg self))" "binder_mode (vd_cfg self) = BinderVm"
      "vq st1 = vq st" "savevms st1 = savevms st" "vcache st1 = vcache st" "up_cached env self acc st1 = (r, st')"
  | (plain) acc argv st1 where "\<not> boot_cache (vm (vd_cfg self))" "binder_mode (vd_cfg self) = BinderVm"
      "vq st1 = vq st" "savevms st1 = savevms st" "vcache st1 = vcache st" "launch env self acc argv st1 = (r, st')"
proof (cases "binder_mode (vd_cfg self) = BinderVm")
  case False
  with assms refused show thesis by (auto simp: vm_up_def fail_def)
next
  case True
  obtain rw st1 where w: "warn_on_rootfs_version_skew env self st = (rw, st1)" by fastforce
  note k = skew_keeps [OF w]
  obtain ra sta where a: "resolved_accel_of env self st1 = (ra, sta)" by fastforce
  have "sta = st1" using a by (auto simp: resolved_accel_of_def dest: on_q_give)
  note a = a [unfolded this]
  show thesis
  proof (cases "rw = Inr () \<and> (\<exists>acc. ra = Inr acc)")
    case False
    with assms True w k a refused show thesis by (cases rw; cases ra) (auto simp: vm_up_def seq_def)
  next
    case ok: True
    then obtain acc where acc: "rw = Inr ()" "ra = Inr acc" by blast
    show thesis
    proof (cases "boot_cache (vm (vd_cfg self))")
      case bc: True
      with assms True w a acc k show thesis by (intro cached [of st1 acc]) (simp_all add: vm_up_def seq_def)
    next
      case bc: False
      obtain rb stb where b: "build_argv env self acc st1 = (rb, stb)" by fastforce
      have "stb = st1" using build_argv_keeps [OF b] .
      with assms True w a acc k b bc refused plain show thesis by (cases rb) (auto simp: vm_up_def seq_def)
    qed
  qed
qed

lemma vm_up_cached:
  assumes "vm_up env self st = (r, st')" and "boot_cache (vm (vd_cfg self))"
  shows "\<exists>g. started env self (cached_launches env self g) (argv_for env self g None) r st st'"
  using assms(1)
proof (cases rule: vm_up_cases)
  case (refused e)
  then show ?thesis by (auto simp: cached_launches_def Let_def intro: not_started)
next
  case (cached acc st1)
  from up_cached_started [OF cached(6)] cached(3,4) show ?thesis using started_after by blast
qed (use assms(2) in simp)

lemma vm_up_plain:
  assumes "vm_up env self st = (r, st')" and "\<not> boot_cache (vm (vd_cfg self))"
  shows "savevms st' = savevms st \<and> vcache st' = vcache st \<and> (\<exists>argv new. launched_as env argv r st st' new)"
  using assms(1)
proof (cases rule: vm_up_cases)
  case (refused e)
  then have "launched_as env [] r st st' []" by (simp add: launched_as_def)
  with refused show ?thesis by blast
next
  case (plain acc argv st1)
  from launch_spec [OF plain(6)] obtain new where "only_procs st1 st'" "launched_as env argv r st1 st' new" by blast
  moreover from this have "launched_as env argv r st st' new" using plain(3) by (simp add: launched_as_def)
  ultimately show ?thesis using plain(4,5) by (auto simp: only_procs_def)
qed (use assms(2) in simp)

lemma start_without_pidfile:
  "pidfile s = None \<Longrightarrow> fst (start e q argv s) \<noteq> Inl (AlreadyRunning p)"
  by (simp add: start_def is_running_def read_pid_def Let_def split: option.split)

text \<open>
  C18: a start that fails leaves no emulator registered. When booting an emulated instance launched
  the emulator and then fails because the guest died or stayed away, or because the resume was
  retried in vain, the pidfile is gone again, so that the next start is not refused as already
  running.
\<close>

theorem vm_failed_up_restartable:
  assumes "vm_up env self st = (Inl e, st')" and "spawned (vq st') \<noteq> spawned (vq st)"
    and "is_launch_error e \<or> e = AdbMissing \<and> \<not> boot_cache (vm (vd_cfg self))"
    and "\<And>k. e_unlink (v_q env) k"
  shows "pidfile (vq st') = None \<and> (\<forall>q argv p. fst (start (v_q env) q argv (vq st')) \<noteq> Inl (AlreadyRunning p))"
proof -
  have "pidfile (vq st') = None"
  proof (cases "boot_cache (vm (vd_cfg self))")
    case True
    from vm_up_cached [OF assms(1) True] assms(2-4) True show ?thesis
      by (auto simp: started_def start_run_def)
  next
    case False
    from vm_up_plain [OF assms(1) False] assms(2-4) show ?thesis by (auto simp: launched_as_def)
  qed
  then show ?thesis using start_without_pidfile by blast
qed

text \<open>
  C19: a start launches the emulator once, or a second time cold after a dead resume. With the boot
  cache on, the launches of one call are at most a resume of the checkpoint followed by one boot
  of the same machine without it; with the cache off there is at most one. A start that returns
  has launched one.
\<close>

theorem vm_up_one_cold_retry:
  assumes "vm_up env self st = (r, st')"
  shows "\<exists>g new. spawned (vq st') = spawned (vq st) @ new \<and> (r = Inr () \<longrightarrow> new \<noteq> [])
    \<and> (if boot_cache (vm (vd_cfg self))
       then map snd new \<in> {[], [argv_for env self g (Some SNAPSHOT_TAG)], [argv_for env self g None],
              [argv_for env self g (Some SNAPSHOT_TAG), argv_for env self g None]}
       else length new \<le> 1)"
proof (cases "boot_cache (vm (vd_cfg self))")
  case True
  from vm_up_cached [OF assms True] obtain g new ks where
    "start_run env self (cached_launches env self g) (argv_for env self g None) r st st' new ks"
    by (auto simp: started_def)
  then show ?thesis using True
    by (intro exI [of _ g] exI [of _ new]) (simp add: start_run_def cached_launches_def Let_def)
next
  case False
  from vm_up_plain [OF assms False] obtain argv new where "launched_as env argv r st st' new" by blast
  then show ?thesis using False by (intro exI exI [of _ new]) (auto simp: launched_as_def)
qed

text \<open>
  C20: only a booted guest is checkpointed. A start asks for a checkpoint at most once, only with
  the boot cache on and after a launch that did not resume one, and only after the guest answered,
  since that start began, that it has finished booting.
\<close>

theorem vm_checkpoint_booted:
  assumes "vm_up env self st = (r, st')"
  shows "\<exists>ks. savevms st' = savevms st @ ks \<and> length ks \<le> 1
    \<and> (\<forall>k\<in>set ks. boot_cache (vm (vd_cfg self)) \<and> (\<exists>j. instant st \<le> j \<and> j < k \<and> booted_at env self j)
         \<and> (\<exists>g pid. last (spawned (vq st')) = (pid, argv_for env self g None)))"
proof (cases "boot_cache (vm (vd_cfg self))")
  case True
  from vm_up_cached [OF assms True] obtain g new ks where
    s: "start_run env self (cached_launches env self g) (argv_for env self g None) r st st' new ks"
    by (auto simp: started_def)
  have "\<exists>g pid. last (spawned (vq st')) = (pid, argv_for env self g None)" if "k \<in> set ks" for k
  proof -
    have "last (spawned (vq st')) = last new" "snd (last new) = argv_for env self g None"
      using s that by (auto simp: start_run_def)
    then show ?thesis by (intro exI [of _ g] exI [of _ "fst (last new)"]) (simp add: prod_eq_iff)
  qed
  with s True show ?thesis by (intro exI [of _ ks]) (auto simp: start_run_def)
next
  case False
  from vm_up_plain [OF assms False] show ?thesis by auto
qed

section \<open>Sample runs\<close>

definition sample_vm :: "bool \<Rightarrow> vm_device" where
  "sample_vm cached = \<lparr>vd_name = ''v'', vd_root = [''srv'', ''v''],
     vd_cfg = default_config\<lparr>binder_mode := BinderVm, vm := \<lparr>kernel = Some ''/vm/bzImage'', rootfs = Some ''/vm/rootfs.img'',
       accel = AccelTcg, smp = SmpCount 4, memory_mib = 4096, boot_cache = cached\<rparr>\<rparr>, vd_index = 0\<rparr>"

text \<open>A host whose guest attaches and boots at once, or dies as soon as it is launched.\<close>

definition sample_qenv :: "bool \<Rightarrow> qenv" where
  "sample_qenv alive = \<lparr>e_cmdline = (\<lambda>k pid. if alive then ReadOk ''qemu-system-x86_64 hostfwd=tcp:127.0.0.1:5555-:5555'' else ReadOSError),
     e_kill = (\<lambda>k pid sg. if alive then KillOk else KillErr), e_mkdir = (\<lambda>k. True), e_open_log = (\<lambda>k. True),
     e_spawn = (\<lambda>k argv. Some 77), e_write_pid = (\<lambda>k. True), e_unlink = (\<lambda>k. True), e_delay = (\<lambda>k. 0)\<rparr>"

definition sample_venv :: "bool \<Rightarrow> venv" where
  "sample_venv alive = \<lparr>v_q = sample_qenv alive, v_adb_found = (\<lambda>k. True),
     v_adb = (\<lambda>k args. if alive then Exited 0 ''1'' [] else Exited 1 [] ''cannot connect''),
     v_took = (\<lambda>k. 0), v_console = (\<lambda>k. ''panic''), v_copies = (\<lambda>k. True), v_sha = toy_sha, v_list = plain_listing,
     v_create = (\<lambda>k. ImgExit 0 []), v_keyed = (\<lambda>k. True), v_monitor_free = (\<lambda>k. True),
     v_monitor = (\<lambda>k. (True, True, [Chunk ''(qemu) '', Chunk ''(qemu) ''])), v_saved = (\<lambda>k. True),
     v_expanduser = Some, v_exists = (\<lambda>p. True), v_absolute = (\<lambda>p. p), v_marker = (\<lambda>p. None),
     v_machine = ''x86_64'', v_kvm = False, v_cpus = \<lparr>affinity = None, cpu_count = None, cpuinfo = ReadOSError\<rparr>,
     s_qemu_bin = ''qemu-system-x86_64'', s_vm_kernel = [], s_vm_rootfs = [], s_vm_adb_connect_timeout = 60\<rparr>"

definition sample_vstate :: vstate where
  "sample_vstate = \<lparr>vq = \<lparr>tick = 0, clock = 0, pidfile = None, console_log = None, sent = [], spawned = []\<rparr>,
     vcache = toy_state, warm_fail = None, messages = [], savevms = []\<rparr>"

text \<open>A first start with the boot cache, after which the checkpoint is there.\<close>

definition first_up :: "(vm_error + unit) \<times> vstate" where
  "first_up = vm_up (sample_venv True) (sample_vm True) sample_vstate"

lemma first_up_run:
  "case first_up of (r, st') \<Rightarrow> r = Inr () \<and> length (spawned (vq st')) = 1 \<and> savevms st' = [4]
     \<and> snapshot_present plain_listing SNAPSHOT_TAG (vcache st') \<and> messages st' = [InfoColdStart, InfoCheckpointed]
     \<and> pidfile (vq st') = Some (ReadOk ''77'')"
  by code_simp

text \<open>A second start whose resumed guest dies, and so does the cold one.\<close>

definition dying_up :: "(vm_error + unit) \<times> vstate" where
  "dying_up = vm_up (sample_venv False) (sample_vm True) ((snd first_up)\<lparr>vq := vq sample_vstate\<rparr>)"

lemma dying_up_run:
  "case dying_up of (r, st') \<Rightarrow> r = Inl GuestExited \<and> length (spawned (vq st')) = 2
     \<and> warm_fail st' = Some ''panic'' \<and> messages st' = [InfoColdStart, InfoCheckpointed, InfoWarmStart, NoteDataRevert, WarnWarmFailed]"
  by code_simp

lemma sample_vm_cached: "boot_cache (vm (vd_cfg (sample_vm b))) = b"
  by (simp add: sample_vm_def)

lemma dying_up_eq:
  obtains st' where "vm_up (sample_venv False) (sample_vm True) ((snd first_up)\<lparr>vq := vq sample_vstate\<rparr>) = (Inl GuestExited, st')"
    "length (spawned (vq st')) = 2" "snd dying_up = st'"
  using dying_up_run by (cases dying_up) (auto simp: dying_up_def)

theorem adb_wait_bounded_witness:
  "case wait_for_adb_connect (sample_venv False) 5555 Tcg sample_vstate of (r, st') \<Rightarrow> tick (vq st') \<le> 3603"
proof -
  obtain r st' where w: "wait_for_adb_connect (sample_venv False) 5555 Tcg sample_vstate = (r, st')" by fastforce
  have "0 < s_vm_adb_connect_timeout (sample_venv False)" by (simp add: sample_venv_def)
  from adb_wait_bounded [OF w this] w show ?thesis by (simp add: sample_venv_def sample_vstate_def)
qed

theorem vm_failed_up_restartable_witness:
  "pidfile (vq (snd dying_up)) = None"
proof -
  from dying_up_eq obtain st' where st': "vm_up (sample_venv False) (sample_vm True) ((snd first_up)\<lparr>vq := vq sample_vstate\<rparr>) = (Inl GuestExited, st')"
    "length (spawned (vq st')) = 2" "snd dying_up = st'" .
  have "spawned (vq st') \<noteq> spawned (vq ((snd first_up)\<lparr>vq := vq sample_vstate\<rparr>))" using st'(2) by (auto simp: sample_vstate_def)
  from vm_failed_up_restartable [OF st'(1) this] st'(3) show ?thesis
    by (simp add: is_launch_error_def sample_venv_def sample_qenv_def)
qed

theorem vm_up_one_cold_retry_witness:
  "\<exists>g. map snd (spawned (vq (snd dying_up))) = [argv_for (sample_venv False) (sample_vm True) g (Some SNAPSHOT_TAG),
     argv_for (sample_venv False) (sample_vm True) g None]"
proof -
  from dying_up_eq obtain st' where st': "vm_up (sample_venv False) (sample_vm True) ((snd first_up)\<lparr>vq := vq sample_vstate\<rparr>) = (Inl GuestExited, st')"
    "length (spawned (vq st')) = 2" "snd dying_up = st'" .
  from vm_up_one_cold_retry [OF st'(1), unfolded sample_vm_cached if_True] obtain g new where
    "spawned (vq st') = spawned (vq ((snd first_up)\<lparr>vq := vq sample_vstate\<rparr>)) @ new"
    "map snd new \<in> {[], [argv_for (sample_venv False) (sample_vm True) g (Some SNAPSHOT_TAG)], [argv_for (sample_venv False) (sample_vm True) g None],
              [argv_for (sample_venv False) (sample_vm True) g (Some SNAPSHOT_TAG), argv_for (sample_venv False) (sample_vm True) g None]}"
    by (elim exE conjE) (rule that)
  with st'(2,3) show ?thesis by (intro exI [of _ g]) (auto simp: sample_vstate_def)
qed

theorem vm_checkpoint_booted_witness:
  "savevms (snd first_up) = [4] \<and> (\<exists>j<4. booted_at (sample_venv True) (sample_vm True) j)"
proof -
  have sv: "savevms (snd first_up) = [4]" using first_up_run by (simp add: split_beta)
  obtain r st' where u: "vm_up (sample_venv True) (sample_vm True) sample_vstate = (r, st')" by fastforce
  from vm_checkpoint_booted [OF u] obtain ks where "savevms st' = savevms sample_vstate @ ks"
    "\<forall>k\<in>set ks. \<exists>j. j < k \<and> booted_at (sample_venv True) (sample_vm True) j" by blast
  with sv u show ?thesis by (simp add: first_up_def sample_vstate_def)
qed

end
