(* ===== verification/Vm_Life.thy ===== *)
theory Vm_Life
  imports Vm_Props
begin

text \<open>
  Starting an emulated instance against the history of its boot cache, and what a second start of a
  running one does.
\<close>

section \<open>A start is a history of the boot cache\<close>

lemma relabelled_Inl: "Inl e = (case x of Inl y \<Rightarrow> Inl (f y) | Inr a \<Rightarrow> Inr a) \<longleftrightarrow> (\<exists>y. x = Inl y \<and> e = f y)"
  by (auto split: sum.splits)

lemma relabelled_Inr: "Inr a = (case x of Inl y \<Rightarrow> Inl (f y) | Inr b \<Rightarrow> Inr b) \<longleftrightarrow> x = Inr a"
  by (auto split: sum.splits)

lemma launch_cached_cache: "launch_cached env self g l st = (r, st') \<Longrightarrow> vcache st' = vcache st"
  using launch_cached_spec [of env self g l st r st'] by (simp add: only_procs_def)

lemma cold_boot_cache:
  assumes "cold_boot env self g st = (r, st')"
  shows "vcache st' = vcache st \<or> vcache st' = add_tag SNAPSHOT_TAG (vcache st)"
proof -
  obtain r1 st1 where l: "launch_cached env self g None st = (r1, st1)" by fastforce
  note c = launch_cached_cache [OF l]
  from assms l c show ?thesis
    using cache_boot_spec [of env self st1 r st'] by (cases r1) (auto simp: cold_boot_def seq_def)
qed

lemma booted_reachable:
  assumes "cache_reachable sha ls V (c, b, Booting)" and "c' = c \<or> c' = add_tag SNAPSHOT_TAG c"
  shows "cache_reachable sha ls V (c', b, Idle)"
  using assms cache_reachable.step [OF assms(1) cache_step.checkpoint] cache_reachable.step [OF assms(1) cache_step.stop]
  by auto

lemma fall_back_reachable:
  assumes "fall_back env self g st = (r, st')" and "hex_digest (v_sha env)" and "listing_sound (v_list env)"
    and "cache_reachable (v_sha env) (v_list env) V (vcache st, b, Idle)"
  shows "\<exists>b'. cache_reachable (v_sha env) (v_list env) V (vcache st', b', Idle)"
proof -
  note inv = cache_reachable_inv [OF assms(4,2,3)]
  consider (p) e where "preserve_warm_fail_console env st = (Inl e, st')"
    | (n) u st1 st2 e where "preserve_warm_fail_console env st = (Inr u, st1)" "say WarnWarmFailed st1 = (Inr (), st2)"
        "renew env g st2 = (Inl e, st')"
    | (c) u st1 st2 u' st3 where "preserve_warm_fail_console env st = (Inr u, st1)" "say WarnWarmFailed st1 = (Inr (), st2)"
        "renew env g st2 = (Inr u', st3)" "cold_boot env self g st3 = (r, st')"
    using assms(1) by (auto simp: fall_back_def seq_iff say_def)
  then show ?thesis
  proof cases
    case p
    with preserve_keeps [OF p] assms(4) show ?thesis by auto
  next
    case n
    have "vcache st2 = vcache st" using preserve_keeps [OF n(1)] say_keeps [OF n(2)] by simp
    with n(3) obtain x where "renew_overlay (v_sha env) (v_create env (instant st2)) (v_keyed env (instant st2)) g
        (discard_overlay (vcache st)) = (Inl x, vcache st')"
      by (auto simp: renew_def on_cache_iff relabelled_Inl)
    from cache_reachable.step [OF assms(4) cache_step.retry_fail [OF this]] show ?thesis by blast
  next
    case c
    have "vcache st2 = vcache st" using preserve_keeps [OF c(1)] say_keeps [OF c(2)] by simp
    with c(3) have rn: "renew_overlay (v_sha env) (v_create env (instant st2)) (v_keyed env (instant st2)) g
        (discard_overlay (vcache st)) = (Inr (), vcache st3)"
      by (auto simp: renew_def on_cache_iff relabelled_Inr)
    have pre: "cache_ok (v_sha env) V (discard_overlay (vcache st))" "stat_determines V (inputs (discard_overlay (vcache st)))"
      using inv by (simp_all add: discard_overlay_def cache_ok_def)
    from renew_overlay_spec [OF pre rn] obtain b' where "input_bytes (v_sha env) g (inputs (vcache st)) = Some b'"
      by (auto simp: discard_overlay_def)
    from cache_reachable.step [OF assms(4) cache_step.retry [OF rn this]] cold_boot_cache [OF c(4)]
    show ?thesis using booted_reachable by blast
  qed
qed

lemma warm_boot_reachable:
  assumes "warm_boot env self g st = (r, st')" and "hex_digest (v_sha env)" and "listing_sound (v_list env)"
    and "cache_reachable (v_sha env) (v_list env) V (vcache st, b, Idle)"
  shows "\<exists>b'. cache_reachable (v_sha env) (v_list env) V (vcache st', b', Idle)"
proof -
  obtain r1 st1 where l: "launch_cached env self g (Some SNAPSHOT_TAG) st = (r1, st1)" by fastforce
  have c: "cache_reachable (v_sha env) (v_list env) V (vcache st1, b, Idle)"
    using launch_cached_cache [OF l] assms(4) by simp
  consider "st' = st1" | "fall_back env self g st1 = (r, st')"
    using assms(1) l by (auto simp: warm_boot_def split: sum.splits if_splits)
  then show ?thesis
  proof cases
    case 1
    with c show ?thesis by blast
  next
    case 2
    from fall_back_reachable [OF this assms(2,3) c] show ?thesis .
  qed
qed

text \<open>
  C21: booting through the cache refines the cache's own histories. Whatever the guest, the emulator
  and the host do, what a start makes of the overlay, its fingerprint and its checkpoint is a
  sequence of the boot cache's steps: so every checkpoint a later start resumes was taken from the
  inputs it is recorded with.
\<close>

theorem vm_up_refines_cache:
  assumes "vm_up env self st = (r, st')" and "hex_digest (v_sha env)" and "listing_sound (v_list env)"
    and "cache_reachable (v_sha env) (v_list env) V (vcache st, b, Idle)"
  shows "\<exists>b'. cache_reachable (v_sha env) (v_list env) V (vcache st', b', Idle)"
  using assms(1)
proof (cases rule: vm_up_cases)
  case refused
  with assms(4) show ?thesis by auto
next
  case (plain acc argv st1)
  with launch_spec [OF plain(6)] assms(4) show ?thesis by (auto simp: only_procs_def)
next
  case (cached acc st1)
  have start: "cache_reachable (v_sha env) (v_list env) V (vcache st1, b, Idle)" using cached(5) assms(4) by simp
  from cached(6) show ?thesis
  proof (cases rule: up_cached_cases)
    case early
    with start show ?thesis by blast
  next
    case (unprepared g e)
    then obtain x where "prepare_overlay (v_sha env) (v_list env) (v_create env (instant st1)) (v_keyed env (instant st1)) g
        (vcache st1) = (Inl x, vcache st')"
      using prepare_keeps [OF unprepared(1)] by (auto simp: relabelled_Inl)
    from cache_reachable.step [OF start cache_step.fail [OF this]] show ?thesis by blast
  next
    case (warm g st2 st3 st4)
    then have "prepare_overlay (v_sha env) (v_list env) (v_create env (instant st1)) (v_keyed env (instant st1)) g
        (vcache st1) = (Inr True, vcache st2)"
      using prepare_keeps [OF warm(1)] by (auto simp: relabelled_Inr)
    from cache_reachable.step [OF start cache_step.resume [OF this]]
    have "cache_reachable (v_sha env) (v_list env) V (vcache st4, b, Idle)"
      using say_keeps [OF warm(2)] revert_keeps [OF warm(3)] by simp
    from warm_boot_reachable [OF warm(4) assms(2,3) this] show ?thesis .
  next
    case (cold g st2 st3)
    then have p: "prepare_overlay (v_sha env) (v_list env) (v_create env (instant st1)) (v_keyed env (instant st1)) g
        (vcache st1) = (Inr False, vcache st2)"
      using prepare_keeps [OF cold(1)] by (auto simp: relabelled_Inr)
    from prepare_spec [OF assms(2,3) cache_reachable_inv [OF start assms(2,3)] p] obtain b' where
      "input_bytes (v_sha env) g (inputs (vcache st1)) = Some b'" by auto
    from cache_reachable.step [OF start cache_step.cold [OF p this]]
    have "cache_reachable (v_sha env) (v_list env) V (vcache st3, b', Booting)" using say_keeps [OF cold(2)] by simp
    from booted_reachable [OF this cold_boot_cache [OF cold(3)]] show ?thesis by blast
  qed
qed

theorem vm_up_refines_cache_witness:
  "\<exists>b'. cache_reachable toy_sha plain_listing toy_V (vcache (snd first_up), b', Idle)"
proof -
  obtain r st' where u: "vm_up (sample_venv True) (sample_vm True) sample_vstate = (r, st')" by fastforce
  have s: "v_sha (sample_venv True) = toy_sha" "v_list (sample_venv True) = plain_listing" by (simp_all add: sample_venv_def)
  have "cache_reachable toy_sha plain_listing toy_V (vcache sample_vstate, [], Idle)"
    unfolding sample_vstate_def toy_state_def by (simp add: cache_reachable.new toy_stat)
  with vm_up_refines_cache [OF u, of toy_V "[]"] toy_hex plain_listing_sound u show ?thesis
    by (simp add: s first_up_def)
qed

section \<open>Starting a running instance\<close>

text \<open>The recorded process is this instance's emulator and stays it.\<close>

definition keeps_running :: "venv \<Rightarrow> vm_device \<Rightarrow> int \<Rightarrow> vstate \<Rightarrow> bool" where
  "keeps_running env self pid st \<longleftrightarrow> read_pid (vq st) = Inr (Some pid) \<and> - (2 ^ 31) \<le> pid \<and> pid < 2 ^ 31
     \<and> (\<exists>p. adb_port self = Inr p \<and> (\<forall>k. owned (v_q env) (qemu_of p) k pid)) \<and> (\<forall>k. e_kill (v_q env) k pid Sig0 = KillOk)"

lemma launch_refused:
  assumes "keeps_running env self pid st"
  shows "\<exists>st'. launch_cached env self g l st = (Inl (VmQemu (AlreadyRunning (Some pid))), st')
    \<and> only_procs st st' \<and> spawned (vq st') = spawned (vq st) \<and> sent (vq st') = sent (vq st)
    \<and> console_log (vq st') = console_log (vq st) \<and> keeps_running env self pid st'"
proof -
  obtain p where p: "adb_port self = Inr p" "\<And>k. owned (v_q env) (qemu_of p) k pid"
    using assms by (auto simp: keeps_running_def)
  let ?s = "(vq st)\<lparr>tick := Suc (Suc (tick (vq st)))\<rparr>"
  have "kill (v_q env) pid Sig0 (vq st) = (Inr KillOk, (vq st)\<lparr>tick := Suc (tick (vq st))\<rparr>)"
    using assms by (simp add: kill_def keeps_running_def Let_def)
  then have "is_running (v_q env) (qemu_of p) (vq st) = (Inr True, ?s)"
    using assms p(2) by (simp add: is_running_def keeps_running_def owned_pid_is_qemu)
  moreover have r: "read_pid ?s = Inr (Some pid)" using assms by (simp add: read_pid_def keeps_running_def)
  ultimately have s: "start (v_q env) (qemu_of p) argv (vq st) = (Inl (AlreadyRunning (Some pid)), ?s)" for argv
    by (simp add: start_def)
  show ?thesis
    using assms p r
    by (intro exI [of _ "st\<lparr>vq := ?s\<rparr>"])
       (auto simp: launch_cached_def launch_def seq_def give_def on_q_def s only_procs_def keeps_running_def)
qed

lemma base_identity_succeeds:
  assumes "inputs st (g_kernel g) \<noteq> None" and "inputs st (g_rootfs g) \<noteq> None"
  shows "\<exists>d c. base_identity sha g st = (Inr d, st\<lparr>hash_cache := c\<rparr>)"
proof -
  have h: "\<exists>d c. hash_file sha q s = (Inr d, s\<lparr>hash_cache := c\<rparr>)" if "inputs s q \<noteq> None" for q s
  proof (cases "dict_get (hash_cache s) (q, int (length (content (the (inputs s q)))), mtime (the (inputs s q)))")
    case None
    with that show ?thesis by (auto simp: hash_file_def Let_def)
  next
    case (Some d)
    with that have "hash_file sha q s = (Inr d, s\<lparr>hash_cache := hash_cache s\<rparr>)" by (auto simp: hash_file_def Let_def)
    then show ?thesis by blast
  qed
  obtain d1 c1 where 1: "hash_file sha (g_kernel g) st = (Inr d1, st\<lparr>hash_cache := c1\<rparr>)" using h assms(1) by blast
  obtain d2 c2 where 2: "hash_file sha (g_rootfs g) (st\<lparr>hash_cache := c1\<rparr>) = (Inr d2, st\<lparr>hash_cache := c2\<rparr>)"
    using h [of "st\<lparr>hash_cache := c1\<rparr>" "g_rootfs g"] assms(2) by auto
  show ?thesis using 1 2 by (auto simp: base_identity_def hash_inputs_def)
qed

lemma base_identity_inputs: "base_identity sha g s = (r, s') \<Longrightarrow> inputs s' = inputs s"
  by (auto simp: base_identity_def hash_inputs_def hash_file_def Let_def split: option.splits prod.splits sum.splits)

lemma invalidate_inputs: "invalidate_overlay sha ls g s = (r, s') \<Longrightarrow> inputs s' = inputs s"
  by (auto simp: invalidate_overlay_def overlay_is_stale_def discard_overlay_def
      split: if_splits prod.splits sum.splits bool.splits dest!: base_identity_inputs)

lemma renew_inputs: "renew_overlay sha c w g s = (r, s') \<Longrightarrow> inputs s' = inputs s"
  by (auto simp: renew_overlay_def create_overlay_def record_identity_def
      split: if_splits prod.splits sum.splits img_result.splits dest!: base_identity_inputs)

lemma prepare_inputs:
  assumes "prepare_overlay sha ls c w g s = (r, s')"
  shows "inputs s' = inputs s"
proof -
  obtain q1 s1 where i: "invalidate_overlay sha ls g s = (q1, s1)" by fastforce
  obtain q2 s2 where n: "renew_overlay sha c w g s1 = (q2, s2)" by fastforce
  from assms i n invalidate_inputs [OF i] renew_inputs [OF n] show ?thesis
    by (auto simp: prepare_overlay_def split: sum.splits if_splits)
qed

lemma renew_succeeds:
  assumes "inputs (vcache st) (g_kernel g) \<noteq> None" and "inputs (vcache st) (g_rootfs g) \<noteq> None"
    and "v_create env (instant st) = ImgExit 0 out" and "v_keyed env (instant st)"
  shows "\<exists>c. renew env g st = (Inr (), st\<lparr>vcache := c\<rparr>) \<and> overlay c = Some \<lparr>img_base = g_rootfs g, img_tags = []\<rparr>"
proof -
  let ?c = "(discard_overlay (vcache st))\<lparr>overlay := Some \<lparr>img_base = g_rootfs g, img_tags = []\<rparr>\<rparr>"
  obtain d h where "base_identity (v_sha env) g ?c = (Inr d, ?c\<lparr>hash_cache := h\<rparr>)"
    using base_identity_succeeds [of ?c g "v_sha env"] assms(1,2) by (auto simp: discard_overlay_def)
  then show ?thesis
    using assms(3,4) by (auto simp: renew_def on_cache_def renew_overlay_def create_overlay_def record_identity_def)
qed

lemma second_warm_boot:
  assumes "keeps_running env self pid st" and "\<And>k. v_copies env k"
    and "\<And>k. v_create env k = ImgExit 0 []" and "\<And>k. v_keyed env k"
    and "inputs (vcache st) (g_kernel g) \<noteq> None" and "inputs (vcache st) (g_rootfs g) \<noteq> None"
  shows "\<exists>st'. warm_boot env self g st = (Inl (VmQemu (AlreadyRunning (Some pid))), st')
    \<and> overlay (vcache st') = Some \<lparr>img_base = g_rootfs g, img_tags = []\<rparr>
    \<and> spawned (vq st') = spawned (vq st) \<and> sent (vq st') = sent (vq st)"
proof -
  obtain st1 where l: "launch_cached env self g (Some SNAPSHOT_TAG) st = (Inl (VmQemu (AlreadyRunning (Some pid))), st1)"
    "only_procs st st1" "spawned (vq st1) = spawned (vq st)" "sent (vq st1) = sent (vq st)" "keeps_running env self pid st1"
    using launch_refused [OF assms(1)] by blast
  obtain st2 where p: "preserve_warm_fail_console env st1 = (Inr (), st2)" "vq st2 = vq st1" "vcache st2 = vcache st1"
    using assms(2) by (cases "console_log (vq st1)") (auto simp: preserve_warm_fail_console_def)
  let ?st3 = "snd (say WarnWarmFailed st2)"
  have "inputs (vcache ?st3) = inputs (vcache st)" using l(2) p by (simp add: say_def only_procs_def)
  then obtain c where rn: "renew env g ?st3 = (Inr (), ?st3\<lparr>vcache := c\<rparr>)" "overlay c = Some \<lparr>img_base = g_rootfs g, img_tags = []\<rparr>"
    using renew_succeeds [of ?st3 g env "[]"] assms(3-6) by auto
  have "keeps_running env self pid (?st3\<lparr>vcache := c\<rparr>)" using l(5) p(2) by (simp add: keeps_running_def say_def)
  from launch_refused [OF this, of g None] obtain st5 where
    "launch_cached env self g None (?st3\<lparr>vcache := c\<rparr>) = (Inl (VmQemu (AlreadyRunning (Some pid))), st5)"
    "vcache st5 = c" "spawned (vq st5) = spawned (vq st)" "sent (vq st5) = sent (vq st)"
    using l(3,4) p(2) by (auto simp: only_procs_def say_def)
  with l(1) p(1) rn show ?thesis
    by (auto simp: warm_boot_def is_launch_error_def fall_back_def cold_boot_def seq_def say_def)
qed

text \<open>
  Starting an instance that runs costs it its checkpoint. With the boot cache on and a checkpoint
  that fits, a second start is refused because the emulator is running, but the refusal is taken for
  a failed resume: before the error is reported the overlay that the running emulator has open is
  deleted with its checkpoint and an empty one is put in its place. Nothing is launched or stopped.
\<close>

theorem second_up_drops_checkpoint:
  assumes "keeps_running env self pid st" and "binder_mode (vd_cfg self) = BinderVm" and "boot_cache (vm (vd_cfg self))"
    and "kernel_artifact env self = Inr (g_kernel g)" and "rootfs_artifact env self = Inr (g_rootfs g)"
    and "v_marker env (g_rootfs g @ ''.android-version'') = None"
    and "detect_accel (v_machine env) (v_kvm env) (accel (vm (vd_cfg self))) = Inr (g_accel g)"
    and "resolve_smp (v_cpus env) (smp (vm (vd_cfg self))) = Inr (g_smp g)" and "g_memory_mib g = memory_mib (vm (vd_cfg self))"
    and "\<And>k. v_monitor_free env k" and "\<And>k. v_copies env k" and "\<And>k. v_create env k = ImgExit 0 []" and "\<And>k. v_keyed env k"
    and "inputs (vcache st) (g_kernel g) \<noteq> None" and "inputs (vcache st) (g_rootfs g) \<noteq> None"
    and "fst (prepare env g st) = Inr True"
  shows "\<exists>st'. vm_up env self st = (Inl (VmQemu (AlreadyRunning (Some pid))), st')
    \<and> overlay (vcache st') = Some \<lparr>img_base = g_rootfs g, img_tags = []\<rparr>
    \<and> spawned (vq st') = spawned (vq st) \<and> sent (vq st') = sent (vq st)"
proof -
  obtain st1 where p: "prepare env g st = (Inr True, st1)" using assms(16) by (cases "prepare env g st") auto
  have "\<exists>x. prepare_overlay (v_sha env) (v_list env) (v_create env (instant st)) (v_keyed env (instant st)) g (vcache st) = (x, vcache st1)"
    and q: "vq st1 = vq st" using prepare_keeps [OF p] by blast+
  then have i: "inputs (vcache st1) = inputs (vcache st)" using prepare_inputs by blast
  obtain rv st2 where "warn_on_boot_cache_data_revert self (snd (say InfoWarmStart st1)) = (rv, st2)" by fastforce
  then have v: "warn_on_boot_cache_data_revert self (snd (say InfoWarmStart st1)) = (Inr (), st2)"
    "vq st2 = vq st" "vcache st2 = vcache st1"
    using q revert_keeps [of self "snd (say InfoWarmStart st1)" rv st2] by (simp_all add: say_def)
  have "keeps_running env self pid st2" using assms(1) v(2) by (simp add: keeps_running_def)
  from second_warm_boot [OF this assms(11-13), of g] assms(14,15) i v obtain st' where
    w: "warm_boot env self g st2 = (Inl (VmQemu (AlreadyRunning (Some pid))), st')"
    "overlay (vcache st') = Some \<lparr>img_base = g_rootfs g, img_tags = []\<rparr>" "spawned (vq st') = spawned (vq st)" "sent (vq st') = sent (vq st)"
    by auto
  have "geometry_of env self (g_accel g) st = (Inr g, st)"
    using assms(4,5,8,9) by (cases g) (simp add: geometry_of_def seq_def give_def ok_def smp_of_def on_q_def)
  with p v(1) w(1) assms(10) have "up_cached env self (g_accel g) st = (Inl (VmQemu (AlreadyRunning (Some pid))), st')"
    by (simp add: up_cached_def seq_def free_monitor_def say_def)
  then have "vm_up env self st = (Inl (VmQemu (AlreadyRunning (Some pid))), st')"
    using assms(2,3,5,6,7) by (simp add: vm_up_def warn_on_rootfs_version_skew_def read_rootfs_version_def
        resolved_accel_of_def seq_def give_def ok_def on_q_def)
  with w(2-4) show ?thesis by blast
qed

lemma second_up_prepare: "fst (prepare (sample_venv True) toy_geometry (snd first_up)) = Inr True"
  by code_simp

lemma adb_port_sample: "adb_port (sample_vm True) = Inr 5555"
  by code_simp

lemma owned_sample: "owned (sample_qenv True) (qemu_of 5555) k 77"
proof -
  have "names_instance (Some 5555) ''qemu-system-x86_64 hostfwd=tcp:127.0.0.1:5555-:5555''" by code_simp
  then show ?thesis by (simp add: owned_def sample_qenv_def qemu_of_def)
qed

theorem second_up_drops_checkpoint_witness:
  "\<exists>st'. vm_up (sample_venv True) (sample_vm True) (snd first_up) = (Inl (VmQemu (AlreadyRunning (Some 77))), st')
     \<and> snapshot_present plain_listing SNAPSHOT_TAG (vcache (snd first_up))
     \<and> overlay (vcache st') = Some \<lparr>img_base = ''/vm/rootfs.img'', img_tags = []\<rparr>"
proof -
  let ?e = "sample_venv True" and ?s = "sample_vm True" and ?st = "snd first_up"
  have f: "snapshot_present plain_listing SNAPSHOT_TAG (vcache ?st)" "pidfile (vq ?st) = Some (ReadOk ''77'')"
    using first_up_run by (simp_all add: split_beta)
  have "py_int (strip ''77'') = Some 77" by code_simp
  then have run: "keeps_running ?e ?s 77 ?st"
    using f(2) owned_sample adb_port_sample by (simp add: keeps_running_def read_pid_def sample_venv_def sample_qenv_def)
  have art: "kernel_artifact ?e ?s = Inr (g_kernel toy_geometry)" "rootfs_artifact ?e ?s = Inr (g_rootfs toy_geometry)"
    by code_simp+
  have acc: "detect_accel (v_machine ?e) (v_kvm ?e) (accel (vm (vd_cfg ?s))) = Inr (g_accel toy_geometry)"
    "resolve_smp (v_cpus ?e) (smp (vm (vd_cfg ?s))) = Inr (g_smp toy_geometry)" "g_memory_mib toy_geometry = memory_mib (vm (vd_cfg ?s))"
    by code_simp+
  have inp: "inputs (vcache ?st) (g_kernel toy_geometry) \<noteq> None" "inputs (vcache ?st) (g_rootfs toy_geometry) \<noteq> None"
    by code_simp+
  have cfg: "binder_mode (vd_cfg ?s) = BinderVm" "boot_cache (vm (vd_cfg ?s))" by (simp_all add: sample_vm_def)
  have env: "v_marker ?e (g_rootfs toy_geometry @ ''.android-version'') = None" "\<And>k. v_monitor_free ?e k" "\<And>k. v_copies ?e k"
    "\<And>k. v_create ?e k = ImgExit 0 []" "\<And>k. v_keyed ?e k" by (simp_all add: sample_venv_def)
  from second_up_drops_checkpoint [OF run cfg art env(1) acc env(2-5) inp second_up_prepare] f(1)
  show ?thesis by (auto simp: toy_geometry_def)
qed

end
