(* ===== verification/Vm_Operations.thy ===== *)
theory Vm_Operations
  imports Vm_Life Operations_Life
begin

text \<open>
  The operations of a \<open>VmDeviceBackend\<close> object that touch its directory and the registry: applying an
  edited configuration, staging, destroying, and the verbs it refuses. The state joins the object and
  the registry of \<open>Operations\<close> with the emulator of \<open>Vm_Backend\<close>.
\<close>

section \<open>State\<close>

record vmobj =
  vo :: ostate
  vv :: vstate

datatype vmop_error =
    FromOp op_error
  | FromVm vm_error
  | Unsupported
  | Unconfirmed

type_synonym 'a vmop = "vmobj \<Rightarrow> (vmop_error + 'a) \<times> vmobj"

definition on_o :: "'a op \<Rightarrow> 'a vmop" where
  "on_o c st = (case c (vo st) of
     (Inl e, s) \<Rightarrow> (Inl (FromOp e), st\<lparr>vo := s\<rparr>) | (Inr a, s) \<Rightarrow> (Inr a, st\<lparr>vo := s\<rparr>))"

definition vm_view :: "device \<Rightarrow> int \<Rightarrow> vm_device" where
  "vm_view self i = \<lparr>vd_name = dev_name self, vd_root = dev_root self, vd_cfg = dev_cfg self, vd_index = i\<rparr>"

text \<open>A step of the emulator's part; the index was fixed when the object was made.\<close>

definition on_v :: "'d oenv \<Rightarrow> (vm_device \<Rightarrow> 'a vop) \<Rightarrow> 'a vmop" where
  "on_v env c = seq (on_o (index_of env)) (\<lambda>i st. case c (vm_view (obj (vo st)) i) (vv st) of
     (Inl e, s) \<Rightarrow> (Inl (FromVm e), st\<lparr>vv := s\<rparr>) | (Inr a, s) \<Rightarrow> (Inr a, st\<lparr>vv := s\<rparr>))"

section \<open>Operations\<close>

definition vm_check_port_collisions :: "'d oenv \<Rightarrow> string \<Rightarrow> resolved_port list \<Rightarrow> unit op" where
  "vm_check_port_collisions env name new_ports =
     seq (on_inst (with_registry (o_io env) (all_resolved_host_ports (io_pyd (o_io env))))) (\<lambda>all_ports.
     case find_port_collision new_ports (dict_pop name all_ports) of
       None \<Rightarrow> ok ()
     | Some (port, other, kind) \<Rightarrow> fail (OpInst (RegistryErr (PortCollision port other kind))))"

definition disk_steps :: "'d oenv \<Rightarrow> int \<Rightarrow> (tree \<Rightarrow> tree option) list \<Rightarrow> unit op" where
  "disk_steps env k steps = on_inst (\<lambda>i. case run_steps (io_fails_at (o_io env)) k steps (tree i) of (r, t) \<Rightarrow> (r, i\<lparr>tree := t\<rparr>))"

definition vm_stage :: "'d oenv \<Rightarrow> unit op" where
  "vm_stage env = on_self (\<lambda>self.
     seq (disk_steps env 0
       [mkdir_parents (instance_data (dev_root self)),
        mkdir_parents (instance_modules (dev_root self)),
        write_text (instance_env (dev_root self))
          (render_env (io_float (o_io env)) (io_render_node (o_io env)) (dev_name self) (dev_cfg self) None)]) (\<lambda>_.
     seq (index_of env) (\<lambda>i.
     seq (resolve_all i (dev_cfg self)) (\<lambda>ps.
     seq (disk_steps env 3 [write_text (instance_compose_override (dev_root self)) (render_compose_ports_override ps)]) (\<lambda>_.
     seq (on_files (modules_stage_for_instance (o_menv env) (dev_root self) (modules (dev_cfg self)))) (\<lambda>_. ok ()))))))"

definition vm_reload :: "'d oenv \<Rightarrow> unit op" where
  "vm_reload env = on_self (\<lambda>self.
     seq (on_inst (load_config (o_io env) (dev_root self))) (\<lambda>cfg.
     seq (set_cfg cfg) (\<lambda>_.
     seq (index_of env) (\<lambda>i.
     seq (resolve_all i cfg) (\<lambda>new_ports.
     vm_check_port_collisions env (dev_name self) new_ports)))))"

definition vm_apply :: "'d oenv \<Rightarrow> venv \<Rightarrow> unit vmop" where
  "vm_apply env ve =
     seq (on_o (vm_reload env)) (\<lambda>_.
     seq (on_o (vm_stage env)) (\<lambda>_.
     seq (on_v env (warn_on_rootfs_version_skew ve)) (\<lambda>_.
     seq (on_o warn_inert_op) (\<lambda>_.
     seq (on_o (reconcile_op env)) (\<lambda>_. ok ())))))"

definition vm_up_op :: "'d oenv \<Rightarrow> venv \<Rightarrow> unit vmop" where
  "vm_up_op env ve = on_v env (vm_up ve)"

definition vm_down_op :: "'d oenv \<Rightarrow> venv \<Rightarrow> unit vmop" where
  "vm_down_op env ve = on_v env (vm_down ve)"

text \<open>\<open>shutil.rmtree\<close> of a file raises.\<close>

definition remove_root :: "path \<Rightarrow> tree \<Rightarrow> tree option" where
  "remove_root rdir t = (if \<not> exists_at rdir t then Some t else if is_file_at rdir t then None else Some (rmtree rdir t))"

definition vm_destroy :: "'d oenv \<Rightarrow> venv \<Rightarrow> bool \<Rightarrow> unit vmop" where
  "vm_destroy env ve yes = (if \<not> yes then fail Unconfirmed else
     seq (vm_down_op env ve) (\<lambda>_.
     on_o (on_self (\<lambda>self.
       seq (on_inst (with_registry (o_io env) (remove (io_pyd (o_io env)) (dev_name self)))) (\<lambda>_.
       disk_steps env 0 [remove_root (dev_root self)])))))"

definition FRIDA_ADDRESS_UNSUPPORTED :: string where
  "FRIDA_ADDRESS_UNSUPPORTED = ''unsupported''"

definition vm_frida_address :: string where
  "vm_frida_address = FRIDA_ADDRESS_UNSUPPORTED"

definition vm_install_frida :: "string option \<Rightarrow> unit vmop" where
  "vm_install_frida ver = fail Unsupported"

definition vm_frida_cli :: "string list \<Rightarrow> int vmop" where
  "vm_frida_cli args = fail Unsupported"

section \<open>Applying\<close>

definition rows_kept :: "'d oenv \<Rightarrow> ostate \<Rightarrow> ostate \<Rightarrow> bool" where
  "rows_kept env st0 s \<longleftrightarrow> orows env s = orows env st0 \<and> classes (reg (inst s)) = classes (reg (inst st0))"

lemma rows_kept_same: "same (o_io env) (inst st) (inst s) \<Longrightarrow> rows_kept env st s"
  by (simp add: same_def rows_kept_def)

lemma rows_kept_inst:
  "(\<And>i r i'. c i = (r, i') \<Longrightarrow> irows (o_io env) i' = irows (o_io env) i \<and> classes (reg i') = classes (reg i)) \<Longrightarrow>
   hoare (rows_kept env st) (on_inst c) (\<lambda>_. True)"
  by (rule hoareI) (auto simp: on_inst_def rows_kept_def split: prod.splits sum.splits)

lemma rows_kept_index: "hoare (rows_kept env st) (index_of env) (\<lambda>_. True)"
proof -
  have get: "hoare (rows_kept env st) (on_inst (with_registry (o_io env) (get (io_pyd (o_io env)) n))) (\<lambda>_. True)" for n
    by (rule rows_kept_inst) (auto simp: same_def dest: get_same)
  have memo: "hoare (rows_kept env st) (memo_index i) (\<lambda>_. True)" for i
    by (simp add: hoare_def memo_index_def rows_kept_def)
  have "hoare (rows_kept env st) (meta_of env) (\<lambda>_. True)"
    unfolding meta_of_def by (intro hoare_self hoare_seq [OF get]) (simp add: hoare_ok hoare_fail split: option.split)
  then show ?thesis
    unfolding index_of_def by (intro hoare_self) (auto split: option.split intro: hoare_ok hoare_seq memo)
qed

lemma rows_kept_steps:
  "hoare (rows_kept env st) (disk_steps env k ss) (\<lambda>_. True)"
  "hoare (rows_kept env st) (resolve_all i cfg) (\<lambda>_. True)"
  "hoare (rows_kept env st) (on_files c) (\<lambda>_. True)"
  "hoare (rows_kept env st) (set_cfg cfg) (\<lambda>_. True)"
  "hoare (rows_kept env st) (on_inst (load_config (o_io env) d)) (\<lambda>_. True)"
  "hoare (rows_kept env st) (on_inst (with_registry (o_io env) (all_resolved_host_ports (io_pyd (o_io env))))) (\<lambda>_. True)"
proof -
  show "hoare (rows_kept env st) (disk_steps env k ss) (\<lambda>_. True)"
    unfolding disk_steps_def by (rule rows_kept_inst) (auto split: prod.splits)
  show "hoare (rows_kept env st) (resolve_all i cfg) (\<lambda>_. True)" "hoare (rows_kept env st) (set_cfg cfg) (\<lambda>_. True)"
    by (auto simp: hoare_def resolve_all_def set_cfg_def rows_kept_def split: sum.splits)
  show "hoare (rows_kept env st) (on_files c) (\<lambda>_. True)"
    by (auto simp: hoare_def on_files_def with_tree_def rows_kept_def split: prod.splits sum.splits)
  show "hoare (rows_kept env st) (on_inst (load_config (o_io env) d)) (\<lambda>_. True)"
    by (rule rows_kept_inst) (auto simp: same_def dest: load_config_same)
  show "hoare (rows_kept env st) (on_inst (with_registry (o_io env) (all_resolved_host_ports (io_pyd (o_io env))))) (\<lambda>_. True)"
    by (rule rows_kept_inst) (auto simp: same_def dest: all_ports_same)
qed

lemma vm_reload_rows: "hoare (rows_kept env st) (vm_reload env) (\<lambda>_. True)"
  unfolding vm_reload_def vm_check_port_collisions_def
  by (intro hoare_self hoare_seq [OF rows_kept_steps(5)] hoare_seq [OF rows_kept_steps(4)] hoare_seq [OF rows_kept_index]
      hoare_seq [OF rows_kept_steps(2)] hoare_seq [OF rows_kept_steps(6)])
    (auto intro: hoare_ok hoare_fail split: option.split)

lemma vm_stage_rows: "hoare (rows_kept env st) (vm_stage env) (\<lambda>_. True)"
  unfolding vm_stage_def
  by (intro hoare_self hoare_seq [OF rows_kept_steps(1)] hoare_seq [OF rows_kept_index]
      hoare_seq [OF rows_kept_steps(2)] hoare_seq [OF rows_kept_steps(1)] hoare_seq [OF rows_kept_steps(3)] hoare_ok) simp

text \<open>The configuration and the index an object holds once its file was loaded.\<close>

definition settled :: "instance_config \<Rightarrow> ostate \<Rightarrow> bool" where
  "settled cfg s \<longleftrightarrow> dev_cfg (obj s) = cfg \<and> dev_index (obj s) \<noteq> None"

lemma index_settles:
  assumes "index_of env s = (Inr i, s')"
  shows "dev_cfg (obj s') = dev_cfg (obj s) \<and> dev_index (obj s') \<noteq> None"
proof (cases "dev_index (obj s)")
  case None
  then obtain m s1 where m: "meta_of env s = (Inr m, s1)" "memo_index (index m) s1 = (Inr i, s')"
    using assms by (auto simp: index_of_def on_self_def seq_iff)
  have "obj s1 = obj s"
    using m(1) by (auto simp: meta_of_def on_self_def seq_def on_inst_def ok_def fail_def split: prod.splits sum.splits option.splits)
  with m(2) show ?thesis by (auto simp: memo_index_def)
next
  case (Some j)
  with assms show ?thesis by (auto simp: index_of_def on_self_def ok_def)
qed

lemma settled_index: "hoare (settled cfg) (index_of env) (\<lambda>_. True)"
proof (rule hoareI)
  fix s r s' assume s: "settled cfg s" "index_of env s = (r, s')"
  then obtain i where "dev_index (obj s) = Some i" by (auto simp: settled_def)
  with s show "settled cfg s' \<and> (\<forall>a. r = Inr a \<longrightarrow> True)" by (auto simp: index_of_def on_self_def ok_def)
qed

lemma settled_steps: "hoare (settled cfg) (on_inst c) (\<lambda>_. True)" "hoare (settled cfg) (resolve_all i cfg') (\<lambda>_. True)"
  "hoare (settled cfg) (on_files f) (\<lambda>_. True)"
proof -
  show "hoare (settled cfg) (on_inst c) (\<lambda>_. True)"
    by (rule hoareI) (auto simp: settled_def on_inst_def split: prod.splits sum.splits)
  show "hoare (settled cfg) (resolve_all i cfg') (\<lambda>_. True)"
    by (rule hoareI) (auto simp: settled_def resolve_all_def split: prod.splits sum.splits)
  show "hoare (settled cfg) (on_files f) (\<lambda>_. True)"
    by (rule hoareI) (auto simp: settled_def on_files_def with_tree_def split: prod.splits sum.splits)
qed

lemma vm_reload_settles:
  assumes "vm_reload env s = (Inr u, s')"
  shows "settled (dev_cfg (obj s')) s'"
proof -
  obtain cfg s1 s2 i s3 where steps: "on_inst (load_config (o_io env) (dev_root (obj s))) s = (Inr cfg, s1)"
    "set_cfg cfg s1 = (Inr (), s2)" "index_of env s2 = (Inr i, s3)"
    and rest: "seq (resolve_all i cfg) (vm_check_port_collisions env (dev_name (obj s))) s3 = (Inr u, s')"
    using assms by (auto simp: vm_reload_def on_self_def seq_iff set_cfg_def)
  have s3: "settled cfg s3" using index_settles [OF steps(3)] steps(2) by (auto simp: settled_def set_cfg_def)
  have "hoare (settled cfg) (vm_check_port_collisions env n ps) (\<lambda>_. True)" for n ps
    unfolding vm_check_port_collisions_def by (intro hoare_seq [OF settled_steps(1)]) (auto intro: hoare_ok hoare_fail split: option.split)
  then have h: "hoare (settled cfg) (seq (resolve_all i cfg) (vm_check_port_collisions env (dev_name (obj s)))) (\<lambda>_. True)"
    by (intro hoare_seq [OF settled_steps(2)])
  from hoareD [OF h s3 rest] show ?thesis by (auto simp: settled_def)
qed

lemma vm_stage_settled: "hoare (settled cfg) (vm_stage env) (\<lambda>_. True)"
  unfolding vm_stage_def disk_steps_def
  by (intro hoare_self hoare_seq [OF settled_steps(1)] hoare_seq [OF settled_index]
      hoare_seq [OF settled_steps(2)] hoare_seq [OF settled_steps(1)] hoare_seq [OF settled_steps(3)] hoare_ok) simp

text \<open>
  A failed download strands an emulated instance between two backends. When its file was edited
  away from the emulator and staging fails, for instance because a module cannot be fetched, the
  object already holds the new configuration but the registry still has the old row, since the row's
  kind is settled only after staging; starting it is then refused as out of step.
\<close>

theorem vm_apply_strands_row:
  assumes "vm_reload env (vo st) = (Inr (), s1)" and "vm_stage env s1 = (Inl e, s2)"
    and "binder_mode (dev_cfg (obj s1)) \<noteq> BinderVm"
  shows "\<exists>st'. vm_apply env ve st = (Inl (FromOp e), st') \<and> orows env (vo st') = orows env (vo st)
     \<and> dev_cfg (obj (vo st')) = dev_cfg (obj s1) \<and> fst (vm_up_op env ve st') = Inl (FromVm OutOfSync)"
proof -
  let ?st = "st\<lparr>vo := s2\<rparr>"
  have a: "vm_apply env ve st = (Inl (FromOp e), ?st)" using assms(1,2) by (simp add: vm_apply_def seq_def on_o_def)
  have "rows_kept env (vo st) s1" using hoareD [OF vm_reload_rows _ assms(1)] by (auto simp: rows_kept_def)
  then have r: "orows env s2 = orows env (vo st)" using hoareD [OF vm_stage_rows _ assms(2)] by (simp add: rows_kept_def)
  have "settled (dev_cfg (obj s1)) s2" using hoareD [OF vm_stage_settled vm_reload_settles [OF assms(1)] assms(2)] by simp
  then obtain i where i: "dev_index (obj s2) = Some i" "dev_cfg (obj s2) = dev_cfg (obj s1)" by (auto simp: settled_def)
  then have "fst (vm_up_op env ve ?st) = Inl (FromVm OutOfSync)"
    using assms(3) by (simp add: vm_up_op_def on_v_def on_o_def index_of_def on_self_def ok_def seq_def vm_up_def vm_view_def fail_def)
  with a r i show ?thesis by (intro exI [of _ ?st]) simp
qed

section \<open>Destroying\<close>

lemma index_of_same:
  assumes "index_of env st = (r, s)"
  shows "same (o_io env) (inst st) (inst s) \<and> dev_name (obj s) = dev_name (obj st) \<and> dev_root (obj s) = dev_root (obj st)"
  using hoareD [OF rows_kept_index _ assms, of st] index_of_quiet [OF assms]
  by (simp add: rows_kept_def same_def quiet_def)

lemma vm_down_op_keeps:
  assumes "vm_down_op env ve st = (r, st')"
  shows "same (o_io env) (inst (vo st)) (inst (vo st')) \<and> dev_name (obj (vo st')) = dev_name (obj (vo st))
    \<and> dev_root (obj (vo st')) = dev_root (obj (vo st))"
proof -
  obtain q s where q: "index_of env (vo st) = (q, s)" by fastforce
  have "vo st' = s"
    using assms q by (auto simp: vm_down_op_def on_v_def seq_def on_o_def split: prod.splits sum.splits)
  with index_of_same [OF q] show ?thesis by simp
qed

text \<open>
  C23: destroying an emulated instance removes it and nothing else. Without confirmation, or when its
  emulator cannot be stopped, rows and files stay as they were; otherwise the other rows and every
  file outside its directory are untouched, and when it returns the row is gone and so is everything
  at and below the directory.
\<close>

theorem vm_destroy_isolated:
  assumes "pyd_laws (io_pyd (o_io env))" and "classes_ok (classes (reg (inst (vo st))))"
    and "vm_destroy env ve yes st = (r, st')"
  shows "(\<forall>n. n \<noteq> dev_name (obj (vo st)) \<longrightarrow> dict_get (orows env (vo st')) n = dict_get (orows env (vo st)) n)
    \<and> (\<forall>q. \<not> prefix (dev_root (obj (vo st))) q \<longrightarrow> dict_get (tree (inst (vo st'))) q = dict_get (tree (inst (vo st))) q)
    \<and> (\<not> yes \<or> (\<exists>e. r = Inl (FromVm e)) \<longrightarrow> same (o_io env) (inst (vo st)) (inst (vo st')))
    \<and> (r = Inr () \<longrightarrow> yes \<and> dict_get (orows env (vo st')) (dev_name (obj (vo st))) = None
         \<and> (\<forall>q. prefix (dev_root (obj (vo st))) q \<longrightarrow> exists_at (dev_root (obj (vo st))) (tree (inst (vo st))) \<longrightarrow>
              dict_get (tree (inst (vo st'))) q = None))"
proof (cases yes)
  case False
  with assms(3) show ?thesis by (auto simp: vm_destroy_def fail_def same_def)
next
  case True
  obtain q1 st1 where d: "vm_down_op env ve st = (q1, st1)" by fastforce
  note k = vm_down_op_keeps [OF d]
  let ?n = "dev_name (obj (vo st))" and ?d = "dev_root (obj (vo st))"
  show ?thesis
  proof (cases q1)
    case (Inl e)
    then have "r = Inl e" "st' = st1" using assms(3) True d by (simp_all add: vm_destroy_def seq_def)
    with k show ?thesis by (simp add: same_def)
  next
    case (Inr u)
    obtain q2 i2 where g: "with_registry (o_io env) (remove (io_pyd (o_io env)) ?n) (inst (vo st1)) = (q2, i2)" by fastforce
    have c: "classes_ok (classes (reg (inst (vo st1))))" using k assms(2) by (simp add: same_def)
    have "irows (o_io env) i2 = (case q2 of Inl _ \<Rightarrow> orows env (vo st1) | Inr _ \<Rightarrow> dict_pop ?n (orows env (vo st1)))
      \<and> tree i2 = tree (inst (vo st1))"
      using g
    proof (cases rule: with_registry_cases)
      case (ok v)
      have "classes_ok (classes (view (o_io env) (inst (vo st1))))" using c by simp
      from remove_rows [OF assms(1) this ok(1)] ok(2,3) show ?thesis by simp
    next
      case (err e)
      with remove_failed [OF err(1)] show ?thesis by simp
    qed
    then have rows: "irows (o_io env) i2 = (case q2 of Inl _ \<Rightarrow> orows env (vo st1) | Inr _ \<Rightarrow> dict_pop ?n (orows env (vo st1)))"
      "tree i2 = tree (inst (vo st1))" by simp_all
    obtain q3 t3 where s3: "run_steps (io_fails_at (o_io env)) 0 [remove_root ?d] (tree i2) = (q3, t3)" by fastforce
    have t3: "q3 = Inr () \<and> remove_root ?d (tree i2) = Some t3 \<or> (\<exists>e. q3 = Inl e) \<and> t3 = tree i2"
      using s3 by (auto split: if_splits option.splits)
    have out: "if \<exists>v. q2 = Inr v then inst (vo st') = i2\<lparr>tree := t3\<rparr> \<and> (r = Inr () \<longleftrightarrow> q3 = Inr ()) \<and> (\<forall>e. r \<noteq> Inl (FromVm e))
      else inst (vo st') = i2 \<and> (\<exists>e. r = Inl (FromOp e))"
      using assms(3) True d Inr g s3 k
      by (cases q2; cases q3)
        (auto simp del: run_steps.simps simp: vm_destroy_def seq_def on_o_def on_self_def on_inst_def disk_steps_def)
    show ?thesis
    proof (cases "\<exists>v. q2 = Inr v")
      case False
      with out rows k True show ?thesis by (auto simp: same_def split: sum.splits)
    next
      case gone: True
      then have fin: "orows env (vo st') = dict_pop ?n (orows env (vo st))" "tree (inst (vo st')) = t3"
        "r = Inr () \<longleftrightarrow> q3 = Inr ()" "\<forall>e. r \<noteq> Inl (FromVm e)"
        using out rows k by (auto simp: same_def)
      have tr: "tree i2 = tree (inst (vo st))" using rows(2) k by (simp add: same_def)
      have keep: "dict_get t3 q = dict_get (tree (inst (vo st))) q" if "\<not> prefix ?d q" for q
        using t3 that tr by (auto simp: remove_root_def rmtree_get split: if_splits)
      have wiped: "dict_get t3 q = None" if "q3 = Inr ()" "prefix ?d q" "exists_at ?d (tree (inst (vo st)))" for q
        using t3 that tr by (auto simp: remove_root_def rmtree_get split: if_splits)
      show ?thesis using fin keep wiped True by auto
    qed
  qed
qed

section \<open>Sample runs\<close>

definition host_edit :: instance_config where
  "host_edit = default_config\<lparr>modules := [\<lparr>module_url = Some ''https://x.org/m.zip'', module_path = None, module_sha256 = None\<rparr>]\<rparr>"

text \<open>The file of \<open>alpha\<close> no longer asks for the emulator and names a module; its row says \<open>vm\<close>.\<close>

definition stranded_obj :: vmobj where
  "stranded_obj = \<lparr>vo = \<lparr>inst = \<lparr>reg = example_world\<lparr>registry_json := Some (Json (registry_to_json
         [(''alpha'', \<lparr>backend = VmBackend ''/srv/a'', index = 0, created_at = ''t0''\<rparr>)])),
       yaml := example_env PNone\<lparr>safe_load := (\<lambda>_. Some (PDict (dump_config_fields host_edit))), coerce := const_coercer host_edit\<rparr>\<rparr>,
     tree = [([''srv''], Dir), ([''srv'', ''a''], Dir), ([''srv'', ''a'', ''beetroot.yaml''], File []), ([''srv'', ''b''], File [])]\<rparr>,
     ocalls = [], obj = \<lparr>dev_name = ''alpha'', dev_root = [''srv'', ''a''], dev_cfg = vm_edit, dev_index = Some 0\<rparr>\<rparr>,
     vv = sample_vstate\<rparr>"

lemma stranded_reload:
  "case vm_reload offline (vo stranded_obj) of (r, s1) \<Rightarrow> r = Inr () \<and> binder_mode (dev_cfg (obj s1)) = BinderAuto
     \<and> (case vm_stage offline s1 of (q, s2) \<Rightarrow> \<not> is_ok q)"
  by code_simp

lemma stranded_row: "map_option (\<lambda>m. kind_of (backend m)) (dict_get (orows offline (vo stranded_obj)) ''alpha'') = Some ''vm''"
  by code_simp

theorem vm_apply_strands_row_witness:
  "\<exists>e st'. vm_apply offline (sample_venv True) stranded_obj = (Inl (FromOp e), st')
     \<and> map_option (\<lambda>m. kind_of (backend m)) (dict_get (orows offline (vo st')) ''alpha'') = Some ''vm''
     \<and> binder_mode (dev_cfg (obj (vo st'))) = BinderAuto
     \<and> fst (vm_up_op offline (sample_venv True) st') = Inl (FromVm OutOfSync)"
proof -
  obtain s1 where r: "vm_reload offline (vo stranded_obj) = (Inr (), s1)" "binder_mode (dev_cfg (obj s1)) = BinderAuto"
    and n: "\<not> is_ok (fst (vm_stage offline s1))"
    using stranded_reload by (auto simp: split_beta prod_eq_iff)
  obtain e s2 where s: "vm_stage offline s1 = (Inl e, s2)"
    using n by (cases "vm_stage offline s1"; cases "fst (vm_stage offline s1)") (auto simp: is_ok_def)
  have "binder_mode (dev_cfg (obj s1)) \<noteq> BinderVm" using r(2) by simp
  from vm_apply_strands_row [OF r(1) s this, of "sample_venv True"] obtain st' where
    "vm_apply offline (sample_venv True) stranded_obj = (Inl (FromOp e), st')" "orows offline (vo st') = orows offline (vo stranded_obj)"
    "dev_cfg (obj (vo st')) = dev_cfg (obj s1)" "fst (vm_up_op offline (sample_venv True) st') = Inl (FromVm OutOfSync)" by blast
  then show ?thesis using stranded_row r(2) by (intro exI [of _ e] exI [of _ st']) simp
qed

lemma destroy_run:
  "case vm_destroy offline (sample_venv False) True stranded_obj of (r, st') \<Rightarrow> r = Inr ()
     \<and> exists_at [''srv'', ''a''] (tree (inst (vo stranded_obj)))"
  by code_simp

theorem vm_destroy_isolated_witness:
  "\<exists>st'. vm_destroy offline (sample_venv False) True stranded_obj = (Inr (), st')
     \<and> dict_get (orows offline (vo st')) ''alpha'' = None \<and> dict_get (tree (inst (vo st'))) [''srv'', ''a'', ''beetroot.yaml''] = None
     \<and> dict_get (tree (inst (vo st'))) [''srv'', ''b''] = Some (File [])"
proof -
  obtain st' where d: "vm_destroy offline (sample_venv False) True stranded_obj = (Inr (), st')"
    and e: "exists_at [''srv'', ''a''] (tree (inst (vo stranded_obj)))"
    using destroy_run by (auto simp: split_beta prod_eq_iff)
  have laws: "pyd_laws (io_pyd (o_io offline))" "classes_ok (classes (reg (inst (vo stranded_obj))))"
    using demo_laws by (simp_all add: offline_def stranded_obj_def example_world_def in_tree_classes_ok)
  have o: "dev_name (obj (vo stranded_obj)) = ''alpha''" "dev_root (obj (vo stranded_obj)) = [''srv'', ''a'']"
    "dict_get (tree (inst (vo stranded_obj))) [''srv'', ''b''] = Some (File [])" by (simp_all add: stranded_obj_def)
  from vm_destroy_isolated [OF laws d, unfolded o(1,2)] d e o(3) show ?thesis
    by (intro exI [of _ st']) auto
qed

end
