(* ===== verification/Adb_Backend.thy ===== *)
theory Adb_Backend
  imports Frida_Download Modules_Download Hostcheck
begin

text \<open>
  \<open>backends/adb.py\<close>: driving a rooted device over the \<open>adb\<close> command. What each invocation answers is a
  function of the instant; the calls made are kept in the state. Commands run as root pass through two
  shells on the device, so the quoting of Python's \<open>shlex\<close> is modelled as well.
\<close>

section \<open>State\<close>

datatype adb_run = Ran int string string | TimedOut string string | RunRaises

record 'd aenv =
  a_found :: "nat \<Rightarrow> bool"
  a_run :: "nat \<Rightarrow> string list \<Rightarrow> adb_run"
  a_path :: "string \<Rightarrow> path"
  a_readable :: "string \<Rightarrow> bool"
  a_denv :: denv
  a_penv :: penv
  a_host :: fhost
  a_lz :: "'d lzma"

record astate =
  a_tick :: nat
  a_calls :: "string list list"
  a_files :: tree

record adb_device =
  ad_name :: string
  ad_serial :: string
  ad_forward_port :: int

datatype zip_fault = NoSuchFile | IsDirectory | NotAZip

datatype install_detail =
    InstalledBy string
  | RefusedZip zip_fault
  | DigestMismatch
  | AdbFailure int string
  | WentOffline int string

record install_row =
  row_source :: string
  row_ok :: bool
  row_detail :: install_detail

datatype preflight = NoRoot | NoMagisk | Offline string int

text \<open>\<open>AdbRaised\<close> is the \<open>RuntimeError\<close> of a command that failed, \<open>AdbOs\<close> an \<open>OSError\<close>.\<close>

datatype adb_error =
    AdbCliMissing
  | NeedsVersion
  | DigestCount nat nat
  | BadZip zip_fault
  | BadDigest
  | AdbRaised int string
  | AdbOs
  | AdbFetch fetch_error
  | AdbHangs
  | PreflightFailed preflight "install_row list"

type_synonym 'a aop = "astate \<Rightarrow> (adb_error + 'a) \<times> astate"

definition REMOTE_FRIDA_SERVER :: string where "REMOTE_FRIDA_SERVER = ''/data/local/tmp/frida-server''"
definition DEVICE_PORT :: int where "DEVICE_PORT = 27042"
definition MAGISK_MODULE_DROP :: string where "MAGISK_MODULE_DROP = ''/sdcard/Download''"
definition MAGISK_MODULE_TMP :: string where "MAGISK_MODULE_TMP = ''/data/local/tmp''"
definition TIMEOUT_RC :: int where "TIMEOUT_RC = 124"

section \<open>Quoting\<close>

text \<open>\<open>shlex.quote\<close>.\<close>

definition safe_char :: "char \<Rightarrow> bool" where
  "safe_char c \<longleftrightarrow> is_digit c \<or> (let n = of_char c :: int in 65 \<le> n \<and> n \<le> 90 \<or> 97 \<le> n \<and> n \<le> 122)
     \<or> c \<in> set ''_@%+=:,./-''"

definition quote_char :: "char \<Rightarrow> string" where
  "quote_char c = (if c = CHR 0x27 then [CHR 0x27, CHR 0x22, CHR 0x27, CHR 0x22, CHR 0x27] else [c])"

definition shlex_quote :: "string \<Rightarrow> string" where
  "shlex_quote s = (if s \<noteq> [] \<and> list_all safe_char s then s
     else [CHR 0x27] @ concat (map quote_char s) @ [CHR 0x27])"

section \<open>Running adb\<close>

definition run_adb :: "'d aenv \<Rightarrow> string list \<Rightarrow> astate \<Rightarrow> adb_run \<times> astate" where
  "run_adb env argv st = (a_run env (a_tick st) (''adb'' # argv),
     st\<lparr>a_tick := Suc (a_tick st), a_calls := a_calls st @ [argv]\<rparr>)"

definition adb_unchecked :: "'d aenv \<Rightarrow> adb_device \<Rightarrow> string list \<Rightarrow> (int \<times> string \<times> string) aop" where
  "adb_unchecked env self argv st = (case run_adb env ([''-s'', ad_serial self] @ argv) st of
     (Ran rc out err, st') \<Rightarrow> (Inr (rc, out, err), st')
   | (TimedOut out err, st') \<Rightarrow> (Inr (TIMEOUT_RC, out, if err = [] then ''timed out'' else err), st')
   | (RunRaises, st') \<Rightarrow> (Inl AdbOs, st'))"

definition adb_checked :: "'d aenv \<Rightarrow> adb_device \<Rightarrow> string list \<Rightarrow> unit aop" where
  "adb_checked env self argv = seq (adb_unchecked env self argv) (\<lambda>(rc, out, err).
     if rc \<noteq> 0 then fail (AdbRaised rc (strip err)) else ok ())"

definition adb_shell :: "'d aenv \<Rightarrow> adb_device \<Rightarrow> string list \<Rightarrow> unit aop" where
  "adb_shell env self argv = adb_checked env self (''shell'' # argv)"

definition need_adb :: "'d aenv \<Rightarrow> unit aop" where
  "need_adb env st = (if a_found env (a_tick st) then (Inr (), st) else (Inl AdbCliMissing, st))"

section \<open>Availability\<close>

definition listed_as_device :: "string \<Rightarrow> string \<Rightarrow> bool" where
  "listed_as_device serial line = (case split_ws line of s # state # _ \<Rightarrow> s = serial \<and> state = ''device'' | _ \<Rightarrow> False)"

definition serial_is_available :: "'d aenv \<Rightarrow> string \<Rightarrow> bool aop" where
  "serial_is_available env serial st =
     (if \<not> a_found env (a_tick st) then (Inr False, st)
      else case run_adb env [''devices''] st of
        (Ran rc out _, st') \<Rightarrow> (Inr (rc = 0 \<and> list_ex (listed_as_device serial) (splitlines out)), st')
      | (TimedOut _ _, st') \<Rightarrow> (Inr False, st')
      | (RunRaises, st') \<Rightarrow> (Inl AdbOs, st'))"

section \<open>Frida\<close>

definition on_frida :: "(tree \<Rightarrow> ((fetch_error + 'a) \<times> tree) option) \<Rightarrow> 'a aop" where
  "on_frida c st = (case c (a_files st) of
     None \<Rightarrow> (Inl AdbHangs, st)
   | Some (Inl e, t) \<Rightarrow> (Inl (AdbFetch e), st\<lparr>a_files := t\<rparr>)
   | Some (Inr a, t) \<Rightarrow> (Inr a, st\<lparr>a_files := t\<rparr>))"

definition adb_install_frida :: "'d aenv \<Rightarrow> adb_device \<Rightarrow> string option \<Rightarrow> unit aop" where
  "adb_install_frida env self ver = (case ver of
     None \<Rightarrow> fail NeedsVersion
   | Some v \<Rightarrow>
       seq (need_adb env) (\<lambda>_.
       seq (on_frida (download (a_denv env) (a_penv env) (a_host env) (a_lz env) v None None)) (\<lambda>cached.
       seq (adb_checked env self [''push'', path_str cached, REMOTE_FRIDA_SERVER]) (\<lambda>_.
       seq (adb_shell env self [''chmod'', ''755'', REMOTE_FRIDA_SERVER]) (\<lambda>_.
       seq (adb_shell env self [''su'', ''-c'', REMOTE_FRIDA_SERVER @ '' </dev/null >/dev/null 2>&1 &'']) (\<lambda>_.
       adb_checked env self [''forward'', ''tcp:'' @ str_of_int (ad_forward_port self), ''tcp:'' @ str_of_int DEVICE_PORT]))))))"

section \<open>Modules\<close>

text \<open>\<open>str(Path(s))\<close>, \<open>Path(s).name\<close> and \<open>Path(s).suffix\<close>.\<close>

definition path_parts :: "string \<Rightarrow> string list" where
  "path_parts s = filter (\<lambda>p. p \<noteq> [] \<and> p \<noteq> ''.'') (split_on (CHR ''/'') s)"

definition pure_path :: "string \<Rightarrow> string" where
  "pure_path s = (let lead = (if startswith s ''//'' \<and> \<not> startswith s ''///'' then ''//'' else if startswith s ''/'' then ''/'' else [])
     in if lead = [] \<and> path_parts s = [] then ''.'' else lead @ join ''/'' (path_parts s))"

definition pure_name :: "string \<Rightarrow> string" where
  "pure_name s = (if path_parts s = [] then [] else last (path_parts s))"

definition suffix_of :: "string \<Rightarrow> string" where
  "suffix_of name = (let ext = takeWhile (\<lambda>c. c \<noteq> CHR ''.'') (rev name)
     in if ext = [] \<or> length name \<le> Suc (length ext) then [] else CHR ''.'' # rev ext)"

definition validated_zip_source :: "'d aenv \<Rightarrow> string \<Rightarrow> string aop" where
  "validated_zip_source env source st =
     (if \<not> exists_at (a_path env source) (a_files st) then (Inl (BadZip NoSuchFile), st)
      else if \<not> is_file_at (a_path env source) (a_files st) then (Inl (BadZip IsDirectory), st)
      else if lower (suffix_of (pure_name source)) \<noteq> ''.zip'' then (Inl (BadZip NotAZip), st)
      else (Inr (pure_path source), st))"

definition adb_add_module :: "'d aenv \<Rightarrow> adb_device \<Rightarrow> string \<Rightarrow> string option \<Rightarrow> unit aop" where
  "adb_add_module env self source sha =
     seq (need_adb env) (\<lambda>_.
     seq (validated_zip_source env source) (\<lambda>src.
     adb_checked env self [''push'', src, MAGISK_MODULE_DROP @ ''/'' @ pure_name source]))"

definition check_digest :: "'d aenv \<Rightarrow> string \<Rightarrow> string option \<Rightarrow> unit aop" where
  "check_digest env source sha st = (case sha of
     None \<Rightarrow> (Inr (), st)
   | Some d \<Rightarrow> if \<not> a_readable env source then (Inl AdbOs, st) else (case verify_sha256 (a_denv env) (a_path env source) d (a_files st) of
       (Inr _, _) \<Rightarrow> (Inr (), st)
     | (Inl (Sha_mismatch _ _), _) \<Rightarrow> (Inl BadDigest, st)
     | (Inl _, _) \<Rightarrow> (Inl AdbOs, st)))"

definition remote_zip :: "nat \<Rightarrow> string" where
  "remote_zip i = MAGISK_MODULE_TMP @ ''/beetroot-module-'' @ str_of_int (int i) @ ''.zip''"

definition install_cmd :: "nat \<Rightarrow> string" where
  "install_cmd i = ''magisk --install-module '' @ shlex_quote (remote_zip i)"

definition install_argv :: "nat \<Rightarrow> string list" where
  "install_argv i = [''su'', ''-c'', shlex_quote (install_cmd i)]"

definition cleanup_argv :: "nat \<Rightarrow> string list" where
  "cleanup_argv i = [''su'', ''-c'', shlex_quote (''rm -f '' @ shlex_quote (remote_zip i))]"

text \<open>The \<open>finally\<close> clause: a failing \<open>rm\<close> is ignored, one that cannot be run is not.\<close>

definition install_and_clean :: "'d aenv \<Rightarrow> adb_device \<Rightarrow> nat \<Rightarrow> unit aop" where
  "install_and_clean env self i st = (case adb_shell env self (install_argv i) st of
     (r, st1) \<Rightarrow> (case adb_shell env self (cleanup_argv i) st1 of
       (Inl AdbOs, st2) \<Rightarrow> (Inl AdbOs, st2) | (_, st2) \<Rightarrow> (r, st2)))"

definition auto_install_one :: "'d aenv \<Rightarrow> adb_device \<Rightarrow> string \<Rightarrow> string option \<Rightarrow> nat \<Rightarrow> string aop" where
  "auto_install_one env self source sha i =
     seq (validated_zip_source env source) (\<lambda>src.
     seq (check_digest env source sha) (\<lambda>_.
     seq (adb_checked env self [''push'', src, remote_zip i]) (\<lambda>_.
     seq (install_and_clean env self i) (\<lambda>_.
     ok (''su -c '' @ shlex_quote (install_cmd i))))))"

definition abort_if_unavailable :: "'d aenv \<Rightarrow> adb_device \<Rightarrow> string \<Rightarrow> unit aop" where
  "abort_if_unavailable env self err = seq (serial_is_available env (ad_serial self)) (\<lambda>up.
     if up then ok () else fail (PreflightFailed (Offline (strip err) 0) []))"

definition preflight_root_and_magisk :: "'d aenv \<Rightarrow> adb_device \<Rightarrow> unit aop" where
  "preflight_root_and_magisk env self =
     seq (adb_unchecked env self [''shell'', ''su'', ''-c'', shlex_quote ''true'']) (\<lambda>(rc, out, err).
     if rc \<noteq> 0 then seq (abort_if_unavailable env self err) (\<lambda>_. fail (PreflightFailed NoRoot []))
     else seq (adb_unchecked env self [''shell'', ''su'', ''-c'', shlex_quote ''command -v magisk'']) (\<lambda>(rc, out, err).
     if rc \<noteq> 0 then seq (abort_if_unavailable env self err) (\<lambda>_. fail (PreflightFailed NoMagisk []))
     else ok ()))"

text \<open>The batch: which failures become a row, and which end it.\<close>

fun install_batch :: "'d aenv \<Rightarrow> adb_device \<Rightarrow> nat \<Rightarrow> (string \<times> string option) list \<Rightarrow> install_row list \<Rightarrow> install_row list aop" where
  "install_batch env self i [] rows st = (Inr rows, st)"
| "install_batch env self i ((source, sha) # rest) rows st = (case auto_install_one env self source sha i st of
     (Inr how, st1) \<Rightarrow> install_batch env self (Suc i) rest (rows @ [\<lparr>row_source = source, row_ok = True, row_detail = InstalledBy how\<rparr>]) st1
   | (Inl (BadZip z), st1) \<Rightarrow> install_batch env self (Suc i) rest (rows @ [\<lparr>row_source = source, row_ok = False, row_detail = RefusedZip z\<rparr>]) st1
   | (Inl BadDigest, st1) \<Rightarrow> install_batch env self (Suc i) rest (rows @ [\<lparr>row_source = source, row_ok = False, row_detail = DigestMismatch\<rparr>]) st1
   | (Inl (AdbRaised rc err), st1) \<Rightarrow> (case serial_is_available env (ad_serial self) st1 of
       (Inl e, st2) \<Rightarrow> (Inl e, st2)
     | (Inr False, st2) \<Rightarrow> (Inl (PreflightFailed (Offline [] (int (length rest)))
         (rows @ [\<lparr>row_source = source, row_ok = False, row_detail = WentOffline rc err\<rparr>])), st2)
     | (Inr True, st2) \<Rightarrow> install_batch env self (Suc i) rest (rows @ [\<lparr>row_source = source, row_ok = False, row_detail = AdbFailure rc err\<rparr>]) st2)
   | (Inl e, st1) \<Rightarrow> (Inl e, st1))"

definition auto_install_modules :: "'d aenv \<Rightarrow> adb_device \<Rightarrow> string list \<Rightarrow> string option list option \<Rightarrow> install_row list aop" where
  "auto_install_modules env self sources shas =
     seq (need_adb env) (\<lambda>_.
     case shas of
       Some ds \<Rightarrow> if length ds \<noteq> length sources then fail (DigestCount (length ds) (length sources))
                  else seq (preflight_root_and_magisk env self) (\<lambda>_. install_batch env self 0 (zip sources ds) [])
     | None \<Rightarrow> seq (preflight_root_and_magisk env self) (\<lambda>_.
                  install_batch env self 0 (zip sources (replicate (length sources) None)) []))"

end
