(* ===== verification/Health.thy ===== *)
theory Health
  imports Adb_Backend Vm_Backend Capabilities
begin

text \<open>
  The health reports of the three backends (\<open>api.py\<close>, \<open>backends/vm.py\<close>): one row per check, each from
  one probe of the host or the device. Within a report a command is answered by its command line.
\<close>

section \<open>Rows\<close>

datatype check_status = CheckPass | CheckFail | CheckSkip

record check_result =
  cr_status :: check_status
  cr_reason :: "string option"

definition pass_row :: check_result where
  "pass_row = \<lparr>cr_status = CheckPass, cr_reason = None\<rparr>"

definition fail_row :: "string \<Rightarrow> check_result" where
  "fail_row reason = \<lparr>cr_status = CheckFail, cr_reason = Some reason\<rparr>"

definition skip_row :: "string \<Rightarrow> check_result" where
  "skip_row reason = \<lparr>cr_status = CheckSkip, cr_reason = Some reason\<rparr>"

record henv =
  h_adb_found :: bool
  h_run :: "string list \<Rightarrow> proc"
  h_exc :: "string list \<Rightarrow> string"
  h_repr :: "string \<Rightarrow> string"
  h_listens :: "string \<Rightarrow> int \<Rightarrow> bool"
  h_files :: host_files
  h_qemu_found :: bool
  h_msg :: "vm_error \<Rightarrow> string"

datatype health_error = HealthProbe probe_error | HealthKey string | HealthPorts port_error | HealthVm vm_error

section \<open>Checks\<close>

definition check_host_binder :: "henv \<Rightarrow> binder_mode \<Rightarrow> health_error + check_result" where
  "check_host_binder env mode =
     (if mode = BinderVm
      then Inr (skip_row (''binder: vm '' @ em_dash @ '' host binder not required (emulated micro-VM provides its own)''))
      else case get_binder_status (h_files env) of
        Inl e \<Rightarrow> Inl (HealthProbe e)
      | Inr s \<Rightarrow> Inr (if bs_state s = Ready then pass_row
          else if bs_state s = Unknown \<and> mode \<noteq> BinderHost then skip_row (bs_reason s)
          else fail_row (bs_reason s @ ''. '' @ bs_remedy s @ '' Run `beetroot modes` for this host's options.'')))"

definition or_text :: "string \<Rightarrow> string \<Rightarrow> string" where
  "or_text a b = (if a \<noteq> [] then a else b)"

definition check_adb_connect :: "henv \<Rightarrow> string \<Rightarrow> check_result" where
  "check_adb_connect env target =
     (if \<not> h_adb_found env then skip_row ''adb not on PATH''
      else case h_run env [''adb'', ''connect'', target] of
        proc.Exited rc out err \<Rightarrow>
          let combined = lower (out @ [CHR 0x0A] @ err)
          in if rc \<noteq> 0 \<or> contains combined ''cannot connect'' \<or> contains combined ''failed''
             then fail_row (''exit '' @ str_of_int rc @ ''; '' @ or_text (strip out) (strip err)) else pass_row
      | _ \<Rightarrow> fail_row (h_exc env [''adb'', ''connect'', target]))"

definition check_frida_socket :: "henv \<Rightarrow> string \<Rightarrow> int \<Rightarrow> bool \<Rightarrow> check_result" where
  "check_frida_socket env addr port enabled =
     (if \<not> enabled then skip_row ''frida not configured''
      else if h_listens env addr port then pass_row
      else fail_row (''no listener at '' @ addr @ '':'' @ str_of_int port))"

text \<open>The arguments after \<open>adb -s target\<close>.\<close>

definition magisk_sqlite_argv :: "string \<Rightarrow> bool \<Rightarrow> string list" where
  "magisk_sqlite_argv sql use_su =
     (if use_su then [''su'', ''-c'', shlex_quote (''magisk --sqlite '' @ shlex_quote sql)]
      else [''magisk'', ''--sqlite'', sql])"

definition magisk_sqlite_value_over_adb :: "henv \<Rightarrow> string \<Rightarrow> string \<Rightarrow> bool \<Rightarrow> string + (int \<times> string \<times> string)" where
  "magisk_sqlite_value_over_adb env target sql use_su =
     (let argv = [''adb'', ''-s'', target, ''shell''] @ magisk_sqlite_argv sql use_su
      in case h_run env argv of proc.Exited rc out err \<Rightarrow> Inr (rc, out, err) | _ \<Rightarrow> Inl (h_exc env argv))"

definition ZYGISK_SQL :: string where
  "ZYGISK_SQL = ''SELECT value FROM settings WHERE key='' @ [CHR 0x27] @ ''zygisk'' @ [CHR 0x27]"

definition check_magisk_zygisk_over_adb :: "henv \<Rightarrow> string \<Rightarrow> bool \<Rightarrow> check_result" where
  "check_magisk_zygisk_over_adb env target use_su =
     (if \<not> h_adb_found env then skip_row ''adb not on PATH''
      else case magisk_sqlite_value_over_adb env target ZYGISK_SQL use_su of
        Inl e \<Rightarrow> fail_row e
      | Inr (rc, out, err) \<Rightarrow>
          if rc \<noteq> 0 then fail_row (''exit '' @ str_of_int rc @ ''; '' @ strip (or_text err out))
          else let t = strip out
               in if contains t ''value=1'' then pass_row
                  else if contains t ''value=0'' then fail_row ''expected 1, got 0''
                  else fail_row (''unexpected output: '' @ h_repr env t))"

definition denylist_sql :: "string \<Rightarrow> string" where
  "denylist_sql pkg = ''SELECT package_name FROM denylist WHERE package_name='' @ [CHR 0x27] @ pkg @ [CHR 0x27]"

definition check_magisk_denylist_over_adb :: "henv \<Rightarrow> string \<Rightarrow> string \<Rightarrow> bool \<Rightarrow> bool \<Rightarrow> check_result" where
  "check_magisk_denylist_over_adb env target pkg enrolled use_su =
     (if \<not> enrolled then skip_row (pkg @ '' not in magisk.denylist'')
      else if \<not> h_adb_found env then skip_row ''adb not on PATH''
      else case magisk_sqlite_value_over_adb env target (denylist_sql pkg) use_su of
        Inl e \<Rightarrow> fail_row e
      | Inr (rc, out, err) \<Rightarrow>
          if rc \<noteq> 0 then fail_row (''exit '' @ str_of_int rc @ ''; '' @ strip (or_text err out))
          else if contains out pkg then pass_row else fail_row (pkg @ '' not enrolled''))"

fun serial_row :: "string \<Rightarrow> string list \<Rightarrow> check_result" where
  "serial_row serial [] = fail_row (serial @ '' not listed'')"
| "serial_row serial (line # ls) = (case split_ws line of
     s # state # _ \<Rightarrow> if s = serial then (if state = ''device'' then pass_row else fail_row (''state='' @ state))
                      else serial_row serial ls
   | _ \<Rightarrow> serial_row serial ls)"

definition check_adb_serial_listed :: "henv \<Rightarrow> string \<Rightarrow> check_result" where
  "check_adb_serial_listed env serial =
     (if \<not> h_adb_found env then skip_row ''adb not on PATH''
      else case h_run env [''adb'', ''devices''] of
        proc.Exited rc out _ \<Rightarrow> if rc \<noteq> 0 then fail_row (''adb devices exit '' @ str_of_int rc) else serial_row serial (splitlines out)
      | _ \<Rightarrow> fail_row (h_exc env [''adb'', ''devices'']))"

section \<open>Reports\<close>

definition GMS_PKG :: string where "GMS_PKG = ''com.google.android.gms''"

definition status_text :: "compose_status \<Rightarrow> string" where
  "status_text s = (case s of CRunning \<Rightarrow> ''running'' | CExited \<Rightarrow> ''exited'' | CStarting \<Rightarrow> ''starting''
     | CCreated \<Rightarrow> ''created'' | CPaused \<Rightarrow> ''paused'' | CNotCreated \<Rightarrow> ''not-created''
     | CDockerUnreachable \<Rightarrow> ''docker-unreachable'' | CUnknown \<Rightarrow> ''unknown'')"

definition gms_enrolled :: "instance_config \<Rightarrow> bool" where
  "gms_enrolled cfg = list_ex (\<lambda>entry. fst (str_partition (CHR ''/'') entry) = GMS_PKG) (denylist (magisk cfg))"

text \<open>\<open>live\<close> is what \<open>compose.ps_status\<close> answered.\<close>

definition instance_health :: "henv \<Rightarrow> int \<Rightarrow> instance_config \<Rightarrow> compose_status \<Rightarrow> health_error + (string, check_result) dict" where
  "instance_health env i cfg live = (case resolve_ports i (ports cfg) False of
     Inl e \<Rightarrow> Inl (HealthPorts e)
   | Inr (ps, _) \<Rightarrow> (case dict_get (well_known ps) ''adb'' of
       None \<Rightarrow> Inl (HealthKey ''adb'')
     | Some p \<Rightarrow>
         let target = ''localhost:'' @ str_of_int p;
             frida_port = (case dict_get (well_known ps) ''frida'' of None \<Rightarrow> 0 | Some f \<Rightarrow> f)
         in and_then (check_host_binder env (binder_mode cfg)) (\<lambda>binder_row.
            Inr [(''compose.status'', if live = CRunning then pass_row else fail_row (status_text live)),
                 (''host.binder'', binder_row),
                 (''adb.connect'', check_adb_connect env target),
                 (''frida.handshake'', check_frida_socket env ''localhost'' frida_port (frida cfg \<noteq> None)),
                 (''magisk.zygisk'', check_magisk_zygisk_over_adb env target False),
                 (''magisk.denylist.'' @ GMS_PKG, check_magisk_denylist_over_adb env target GMS_PKG (gms_enrolled cfg) False)])))"

definition adb_device_health :: "henv \<Rightarrow> adb_device \<Rightarrow> (string, check_result) dict" where
  "adb_device_health env device =
     (case str_partition (CHR '':'') (''localhost:'' @ str_of_int (ad_forward_port device)) of (addr, _, port_str) \<Rightarrow>
        let frida_port = (case py_int port_str of Some n \<Rightarrow> n | None \<Rightarrow> 0)
        in [(''adb.serial'', check_adb_serial_listed env (ad_serial device)),
            (''frida.handshake'', check_frida_socket env (or_text addr ''localhost'') frida_port (frida_port > 0)),
            (''magisk.zygisk'', check_magisk_zygisk_over_adb env (ad_serial device) True),
            (''magisk.denylist.'' @ GMS_PKG, check_magisk_denylist_over_adb env (ad_serial device) GMS_PKG False True)])"

definition accel_check :: "henv \<Rightarrow> venv \<Rightarrow> accel \<Rightarrow> check_result" where
  "accel_check env ve requested = (case detect_accel (v_machine ve) (v_kvm ve) requested of
     Inl e \<Rightarrow> fail_row (h_msg env (VmQemu e))
   | Inr Kvm \<Rightarrow> \<lparr>cr_status = CheckPass, cr_reason = Some ''KVM-accelerated (near-native)''\<rparr>
   | Inr Tcg \<Rightarrow> \<lparr>cr_status = CheckPass, cr_reason = Some (''TCG software emulation '' @ em_dash @ '' no /dev/kvm; expect ~5-20x slower boots'')\<rparr>)"

definition qemu_binary_check :: "henv \<Rightarrow> venv \<Rightarrow> check_result" where
  "qemu_binary_check env ve =
     (if h_qemu_found env then pass_row
      else fail_row (''QEMU ('' @ s_qemu_bin ve @ '') not found on PATH '' @ em_dash @ '' '' @ QEMU_INSTALL))"

text \<open>Only a launch error becomes a row.\<close>

definition artifacts_check :: "henv \<Rightarrow> venv \<Rightarrow> vm_device \<Rightarrow> health_error + check_result" where
  "artifacts_check env ve self = (case and_then (kernel_artifact ve self) (\<lambda>_. rootfs_artifact ve self) of
     Inr _ \<Rightarrow> Inr pass_row
   | Inl e \<Rightarrow> if is_launch_error e then Inr (fail_row (h_msg env e)) else Inl (HealthVm e))"

definition vm_health :: "henv \<Rightarrow> venv \<Rightarrow> vm_device \<Rightarrow> vstate \<Rightarrow> (health_error + (string, check_result) dict) \<times> vstate" where
  "vm_health env ve self st = (case adb_port self of
     Inl e \<Rightarrow> (Inl (HealthVm e), st)
   | Inr p \<Rightarrow> (case on_q (is_running (v_q ve) (qemu_of p)) st of
       (Inl e, st1) \<Rightarrow> (Inl (HealthVm e), st1)
     | (Inr running, st1) \<Rightarrow> (and_then (artifacts_check env ve self) (\<lambda>artifacts.
         Inr [(''vm.process'', if running then pass_row else fail_row ''QEMU micro-VM is not running''),
              (''vm.accel'', accel_check env ve (accel (vm (vd_cfg self)))),
              (''vm.qemu'', qemu_binary_check env ve),
              (''vm.artifacts'', artifacts),
              (''adb.connect'', check_adb_connect env (vm_adb_address p))]), st1)))"

end
