(* ===== verification/Adb_Props.thy ===== *)
theory Adb_Props
  imports Health Vm_Props Operations_Props
begin

text \<open>
  What the device sees of the commands sent to it, and what a batch of module installs does on every
  path: two shells parse a quoted command back to what was meant, no module is pushed unverified, what
  is pushed is removed, and every module asked for is accounted for.
\<close>

section \<open>Two shells\<close>

text \<open>
  The words of a command line by the quoting rules of the POSIX shell; \<open>None\<close> where a character that
  is neither quoted nor plain would make the shell do something else than split words.
\<close>

datatype lex_mode = Bare | Single | Double

fun lex :: "lex_mode \<Rightarrow> string option \<Rightarrow> string \<Rightarrow> string list option" where
  "lex Bare w [] = Some (case w of None \<Rightarrow> [] | Some s \<Rightarrow> [s])"
| "lex m w [] = None"
| "lex Bare w (c # cs) =
     (if c = CHR '' '' then (case w of None \<Rightarrow> lex Bare None cs | Some s \<Rightarrow> map_option ((#) s) (lex Bare None cs))
      else if c = CHR 0x27 then lex Single (Some (case w of None \<Rightarrow> [] | Some s \<Rightarrow> s)) cs
      else if c = CHR 0x22 then lex Double (Some (case w of None \<Rightarrow> [] | Some s \<Rightarrow> s)) cs
      else if safe_char c then lex Bare (Some ((case w of None \<Rightarrow> [] | Some s \<Rightarrow> s) @ [c])) cs
      else None)"
| "lex Single w (c # cs) =
     (if c = CHR 0x27 then lex Bare w cs else lex Single (map_option (\<lambda>s. s @ [c]) w) cs)"
| "lex Double w (c # cs) =
     (if c = CHR 0x22 then lex Bare w cs
      else if c \<in> {CHR ''$'', CHR 0x60, CHR 0x5C} then None
      else lex Double (map_option (\<lambda>s. s @ [c]) w) cs)"

definition shell_words :: "string \<Rightarrow> string list option" where
  "shell_words s = lex Bare None s"

text \<open>
  \<open>adb shell\<close> joins its arguments with blanks and gives them to the device's shell; \<open>su -c\<close> joins what
  follows and gives it to another.
\<close>

definition device_runs :: "string list \<Rightarrow> string list option" where
  "device_runs argv = shell_words (join '' '' argv)"

definition root_runs :: "string list \<Rightarrow> string list option" where
  "root_runs argv = (case device_runs argv of
     Some (su # c # rest) \<Rightarrow> if su = ''su'' \<and> c = ''-c'' then device_runs rest else None | _ \<Rightarrow> None)"

definition word_so_far :: "string option \<Rightarrow> string" where
  "word_so_far w = (case w of None \<Rightarrow> [] | Some s \<Rightarrow> s)"

lemma safe_char_plain: "safe_char c \<Longrightarrow> c \<noteq> CHR '' '' \<and> c \<noteq> CHR 0x27 \<and> c \<noteq> CHR 0x22"
  by (auto simp: safe_char_def is_digit_def Let_def)

lemma lex_safe: "list_all safe_char s \<Longrightarrow> s \<noteq> [] \<or> w \<noteq> None \<Longrightarrow> lex Bare w (s @ rest) = lex Bare (Some (word_so_far w @ s)) rest"
proof (induction s arbitrary: w)
  case Nil
  then show ?case by (auto simp: word_so_far_def)
next
  case (Cons c s)
  with safe_char_plain [of c] show ?case by (auto simp: word_so_far_def)
qed

lemma lex_single: "lex Single (Some a) (concat (map quote_char s) @ [CHR 0x27] @ rest) = lex Bare (Some (a @ s)) rest"
proof (induction s arbitrary: a)
  case (Cons c s)
  have "lex Single (Some a) (concat (map quote_char (c # s)) @ [CHR 0x27] @ rest)
      = lex Single (Some (a @ [c])) (concat (map quote_char s) @ [CHR 0x27] @ rest)"
    by (cases "c = CHR 0x27") (simp_all add: quote_char_def)
  with Cons.IH show ?case by simp
qed simp

lemma lex_quote: "lex Bare w (shlex_quote s @ rest) = lex Bare (Some (word_so_far w @ s)) rest"
proof (cases "s \<noteq> [] \<and> list_all safe_char s")
  case True
  then show ?thesis by (simp add: shlex_quote_def lex_safe)
next
  case False
  then have "lex Bare w (shlex_quote s @ rest) = lex Single (Some (word_so_far w)) (concat (map quote_char s) @ [CHR 0x27] @ rest)"
    by (auto simp: shlex_quote_def word_so_far_def)
  then show ?thesis by (simp only: lex_single)
qed

lemma quoted_word: "shell_words (shlex_quote s) = Some [s]"
  using lex_quote [of None s "[]"] by (simp add: shell_words_def word_so_far_def)

lemma plain_then: 
  assumes "list_all safe_char p" and "p \<noteq> []"
  shows "lex Bare None (p @ CHR '' '' # rest) = map_option ((#) p) (lex Bare None rest)"
  using lex_safe [OF assms(1), of None "CHR '' '' # rest"] assms(2) by (simp add: word_so_far_def)

lemma two_plain_words:
  assumes "list_all safe_char a" and "a \<noteq> []" and "list_all safe_char b" and "b \<noteq> []"
  shows "shell_words (a @ '' '' @ b @ '' '' @ shlex_quote s) = Some [a, b, s]"
  using plain_then [OF assms(1,2), of "b @ '' '' @ shlex_quote s"] plain_then [OF assms(3,4), of "shlex_quote s"]
    quoted_word [of s] by (simp add: shell_words_def)

lemma root_runs_quoted: "root_runs [''su'', ''-c'', shlex_quote cmd] = shell_words cmd"
proof -
  have "device_runs [''su'', ''-c'', shlex_quote cmd] = Some [''su'', ''-c'', cmd]"
    using two_plain_words [of "''su''" "''-c''" cmd] by (simp add: device_runs_def safe_char_def)
  then show ?thesis by (simp add: root_runs_def device_runs_def)
qed

text \<open>
  C24: the device runs exactly the commands meant. The install and clean-up commands of every batch
  position, and a database query with any text at all, pass through the device's shell and then the
  root shell and come out as the three intended words.
\<close>

theorem root_commands_survive_two_shells:
  "root_runs (install_argv i) = Some [''magisk'', ''--install-module'', remote_zip i]
   \<and> root_runs (cleanup_argv i) = Some [''rm'', ''-f'', remote_zip i]
   \<and> root_runs (magisk_sqlite_argv sql True) = Some [''magisk'', ''--sqlite'', sql]"
  using two_plain_words [of "''magisk''" "''--install-module''" "remote_zip i"]
    two_plain_words [of "''rm''" "''-f''" "remote_zip i"] two_plain_words [of "''magisk''" "''--sqlite''" sql]
  by (simp add: magisk_sqlite_argv_def install_argv_def cleanup_argv_def install_cmd_def root_runs_quoted safe_char_def is_digit_def)

text \<open>
  Without \<open>su\<close> the query falls apart. The health report of a container sends the query as one
  argument of \<open>adb shell\<close>, unquoted; the device's shell splits it and strips its quotes, so \<open>magisk\<close> gets
  \<open>SELECT\<close> as its query.
\<close>

theorem bare_sqlite_is_split:
  "device_runs (magisk_sqlite_argv ZYGISK_SQL False)
     = Some [''magisk'', ''--sqlite'', ''SELECT'', ''value'', ''FROM'', ''settings'', ''WHERE'', ''key=zygisk'']
   \<and> device_runs (magisk_sqlite_argv ZYGISK_SQL False) \<noteq> Some [''magisk'', ''--sqlite'', ZYGISK_SQL]"
  by code_simp

section \<open>Reports\<close>

text \<open>
  The report on the host's binder driver is the plan of a start. The row passes exactly when a
  start goes ahead as it is, is skipped when the emulator is used or when a start only warns because
  nothing could be found out, and fails when a start is blocked or warns of a driver that is missing.
\<close>

theorem doctor_matches_plan:
  assumes "get_binder_status (h_files env) = Inr s"
  shows "\<exists>row. check_host_binder env mode = Inr row
    \<and> (cr_status row = CheckPass \<longleftrightarrow> bp_action (plan_binder_runtime mode s) = Proceed)
    \<and> (cr_status row = CheckSkip \<longleftrightarrow> bp_action (plan_binder_runtime mode s) = EngageVm
         \<or> bp_action (plan_binder_runtime mode s) = Warn \<and> bs_state s = Unknown)
    \<and> (cr_status row = CheckFail \<longleftrightarrow> bp_action (plan_binder_runtime mode s) = Block
         \<or> bp_action (plan_binder_runtime mode s) = Warn \<and> bs_state s \<noteq> Unknown)"
  using assms
  by (cases mode; cases "bs_state s")
    (simp_all add: check_host_binder_def plan_binder_runtime_def available_def Let_def pass_row_def skip_row_def fail_row_def)

definition sample_henv :: henv where
  "sample_henv = \<lparr>h_adb_found = True, h_run = (\<lambda>argv. proc.Exited 0 ''List of devices attached'' []), h_exc = (\<lambda>_. []), h_repr = id,
     h_listens = (\<lambda>_ _. False), h_files = \<lparr>node_exists = (\<lambda>_. False), proc_filesystems = ReadOk [],
       proc_config_gz = ReadOSError, boot_config = (\<lambda>_. ReadOSError), uname_release = ''6''\<rparr>,
     h_qemu_found = True, h_msg = (\<lambda>_. [])\<rparr>"

theorem doctor_matches_plan_witness:
  "\<exists>s row. get_binder_status (h_files sample_henv) = Inr s \<and> check_host_binder sample_henv BinderHost = Inr row
     \<and> bp_action (plan_binder_runtime BinderHost s) = Block \<and> cr_status row = CheckFail"
proof -
  have "case get_binder_status (h_files sample_henv) of Inl _ \<Rightarrow> False | Inr s \<Rightarrow> bs_state s = Unknown" by code_simp
  then obtain s where s: "get_binder_status (h_files sample_henv) = Inr s" "bs_state s = Unknown" by (auto split: sum.splits)
  have b: "bp_action (plan_binder_runtime BinderHost s) = Block"
    using s(2) by (simp add: plan_binder_runtime_def available_def Let_def)
  from doctor_matches_plan [OF s(1), of BinderHost] obtain row where
    "check_host_binder sample_henv BinderHost = Inr row" "cr_status row = CheckFail" using b by blast
  with s(1) b show ?thesis by blast
qed

definition serials :: "string list \<Rightarrow> string list" where
  "serials ls = map (\<lambda>l. hd (split_ws l)) (filter (\<lambda>l. 2 \<le> length (split_ws l)) ls)"

lemma serial_row_pass:
  "distinct (serials ls) \<Longrightarrow> cr_status (serial_row serial ls) = CheckPass \<longleftrightarrow> list_ex (listed_as_device serial) ls"
proof (induction ls)
  case Nil
  then show ?case by (simp add: fail_row_def)
next
  case (Cons l ls)
  have other: "\<not> list_ex (listed_as_device serial) ls" if "serial \<notin> set (serials ls)"
    using that by (auto simp: serials_def list_ex_iff listed_as_device_def split: list.splits) (force simp: image_iff)
  show ?case
  proof (cases "\<exists>state more. split_ws l = serial # state # more")
    case True
    then obtain state more where w: "split_ws l = serial # state # more" by blast
    then have "serial \<notin> set (serials ls)" using Cons.prems by (simp add: serials_def)
    moreover have "listed_as_device serial l \<longleftrightarrow> state = ''device''" using w by (simp add: listed_as_device_def)
    ultimately show ?thesis using other w by (simp add: pass_row_def fail_row_def)
  next
    case False
    have "distinct (serials ls)" using Cons.prems by (simp add: serials_def split: if_splits)
    moreover have "\<not> listed_as_device serial l" using False by (auto simp: listed_as_device_def split: list.splits)
    moreover have "serial_row serial (l # ls) = serial_row serial ls" using False by (auto split: list.splits)
    ultimately show ?thesis using Cons.IH by simp
  qed
qed

text \<open>
  The report and the listing agree on a device. When both get the same answer from \<open>adb devices\<close> and
  no serial is listed twice, the row of the health report passes exactly when the device counts as
  available.
\<close>

theorem serial_row_matches_availability:
  assumes "h_adb_found env" and "a_found aenv (a_tick st)"
    and "h_run env [''adb'', ''devices''] = proc.Exited rc out err" and "a_run aenv (a_tick st) [''adb'', ''devices''] = Ran rc out err"
    and "distinct (serials (splitlines out))"
  shows "cr_status (check_adb_serial_listed env serial) = CheckPass \<longleftrightarrow> fst (serial_is_available aenv serial st) = Inr True"
  using assms serial_row_pass [OF assms(5)]
  by (simp add: check_adb_serial_listed_def serial_is_available_def run_adb_def fail_row_def)

section \<open>A batch of modules\<close>

text \<open>The calls an operation makes, each at the next instant.\<close>

definition makes :: "astate \<Rightarrow> astate \<Rightarrow> string list list \<Rightarrow> bool" where
  "makes st st' cs \<longleftrightarrow> a_calls st' = a_calls st @ cs \<and> a_tick st' = a_tick st + length cs \<and> a_files st' = a_files st"

lemma makes_nil [simp]: "makes st st []"
  by (simp add: makes_def)

lemma makes_trans: "makes a b xs \<Longrightarrow> makes b c ys \<Longrightarrow> makes a c (xs @ ys)"
  by (simp add: makes_def)

definition call :: "adb_device \<Rightarrow> string list \<Rightarrow> string list" where
  "call self argv = [''-s'', ad_serial self] @ argv"

definition accepted :: "'d aenv \<Rightarrow> nat \<Rightarrow> string list \<Rightarrow> bool" where
  "accepted env k argv \<longleftrightarrow> (\<exists>out err. a_run env k (''adb'' # argv) = Ran 0 out err)"

lemma checked_spec:
  "adb_checked env self argv st = (r, st') \<Longrightarrow> makes st st' [call self argv]
     \<and> (r = Inr () \<longleftrightarrow> accepted env (a_tick st) (call self argv))
     \<and> (\<forall>e. r = Inl e \<longrightarrow> e = AdbOs \<or> (\<exists>rc err. e = AdbRaised rc err))"
  by (auto simp: adb_checked_def adb_unchecked_def run_adb_def call_def accepted_def makes_def seq_def ok_def fail_def TIMEOUT_RC_def
      split: adb_run.splits if_splits)

lemma available_spec:
  "serial_is_available env serial st = (r, st') \<Longrightarrow> (makes st st' [] \<or> makes st st' [[''devices'']])
     \<and> (\<forall>e. r = Inl e \<longrightarrow> e = AdbOs)"
  by (auto simp: serial_is_available_def run_adb_def makes_def split: if_splits adb_run.splits)

definition digest_ok :: "'d aenv \<Rightarrow> tree \<Rightarrow> string \<times> string option \<Rightarrow> bool" where
  "digest_ok env t ss \<longleftrightarrow> (case ss of (source, sha) \<Rightarrow> (\<exists>c. dict_get t (a_path env source) = Some (File c)
     \<and> (\<forall>d. sha = Some d \<longrightarrow> lower (d_sha256 (a_denv env) c) = lower d)))"

definition push_call :: "adb_device \<Rightarrow> string \<Rightarrow> nat \<Rightarrow> string list" where
  "push_call self src i = call self [''push'', src, remote_zip i]"

lemma install_and_clean_spec:
  assumes "install_and_clean env self i st = (r, st')"
  shows "makes st st' [call self (''shell'' # install_argv i), call self (''shell'' # cleanup_argv i)]
    \<and> (\<forall>e. r = Inl e \<longrightarrow> e = AdbOs \<or> (\<exists>rc err. e = AdbRaised rc err))"
proof -
  obtain r1 st1 where a: "adb_shell env self (install_argv i) st = (r1, st1)" by fastforce
  obtain r2 st2 where b: "adb_shell env self (cleanup_argv i) st1 = (r2, st2)" by fastforce
  note s = checked_spec [OF a [unfolded adb_shell_def]] checked_spec [OF b [unfolded adb_shell_def]]
  have m: "makes st st2 ([call self (''shell'' # install_argv i)] @ [call self (''shell'' # cleanup_argv i)])"
    using s makes_trans by blast
  have "st' = st2 \<and> (r = r1 \<or> r = Inl AdbOs)"
    using assms a b by (auto simp: install_and_clean_def split: sum.splits adb_error.splits)
  with m s(1) show ?thesis by auto
qed

lemma validated_spec:
  "validated_zip_source env source st = (r, st') \<Longrightarrow> st' = st \<and> (case r of
     Inr src \<Rightarrow> src = pure_path source \<and> (\<exists>c. dict_get (a_files st) (a_path env source) = Some (File c))
   | Inl e \<Rightarrow> \<exists>z. e = BadZip z)"
  by (auto simp: validated_zip_source_def is_file_at_def is_file_node_def split: if_splits option.splits node.splits)

lemma check_digest_spec:
  assumes "check_digest env source sha st = (r, st')"
  shows "st' = st \<and> (\<forall>e. r = Inl e \<longrightarrow> e = BadDigest \<or> e = AdbOs)
    \<and> (\<forall>c d. r = Inr () \<longrightarrow> dict_get (a_files st) (a_path env source) = Some (File c) \<longrightarrow> sha = Some d
         \<longrightarrow> lower (d_sha256 (a_denv env) c) = lower d)"
  using assms
  by (auto simp: check_digest_def verify_sha256_def read_bytes_def split: option.splits if_splits prod.splits sum.splits fetch_error.splits)

text \<open>The calls for one module: none, a push that was not accepted, or all three.\<close>

definition module_calls :: "'d aenv \<Rightarrow> adb_device \<Rightarrow> tree \<Rightarrow> nat \<Rightarrow> string \<times> string option \<Rightarrow> nat \<Rightarrow> string list list \<Rightarrow> bool" where
  "module_calls env self t k ss i cs \<longleftrightarrow> cs = [] \<or> digest_ok env t ss \<and> (let push = push_call self (pure_path (fst ss)) i
     in if accepted env k push then cs = [push, call self (''shell'' # install_argv i), call self (''shell'' # cleanup_argv i)]
        else cs = [push])"

lemma auto_install_one_spec:
  assumes "auto_install_one env self source sha i st = (r, st')"
  shows "\<exists>cs. makes st st' cs \<and> module_calls env self (a_files st) (a_tick st) (source, sha) i cs
    \<and> (\<forall>e. r = Inl e \<longrightarrow> (\<exists>z. e = BadZip z) \<or> e = BadDigest \<or> e = AdbOs \<or> (\<exists>rc err. e = AdbRaised rc err))"
proof -
  obtain r1 s1 where v: "validated_zip_source env source st = (r1, s1)" by fastforce
  obtain r2 s2 where d: "check_digest env source sha st = (r2, s2)" by fastforce
  let ?push = "push_call self (pure_path source) i"
  obtain r3 s3 where p: "adb_checked env self [''push'', pure_path source, remote_zip i] st = (r3, s3)" by fastforce
  obtain r4 s4 where n: "install_and_clean env self i s3 = (r4, s4)" by fastforce
  note V = validated_spec [OF v] and D = check_digest_spec [OF d]
  note P = checked_spec [OF p, folded push_call_def] and N = install_and_clean_spec [OF n]
  show ?thesis
  proof (cases "\<exists>src. r1 = Inr src")
    case False
    then obtain z where "r1 = Inl (BadZip z)" using V by (cases r1) auto
    then have "r = Inl (BadZip z)" "st' = st" using assms v V by (simp_all add: auto_install_one_def seq_def)
    then show ?thesis by (intro exI [of _ "[]"]) (simp add: module_calls_def)
  next
    case True
    then have r1: "r1 = Inr (pure_path source)" "s1 = st" using V by auto
    then obtain c where c: "dict_get (a_files st) (a_path env source) = Some (File c)" using V by auto
    show ?thesis
    proof (cases r2)
      case (Inl e)
      then have "r = Inl e" "st' = st" using assms v r1 d D by (simp_all add: auto_install_one_def seq_def)
      with D Inl show ?thesis by (intro exI [of _ "[]"]) (auto simp: module_calls_def)
    next
      case r2: (Inr u)
      then have ok: "digest_ok env (a_files st) (source, sha)" using D c by (auto simp: digest_ok_def)
      show ?thesis
      proof (cases r3)
        case (Inl e)
        then have "r = Inl e" "st' = s3" using assms v r1 d D r2 p by (simp_all add: auto_install_one_def seq_def)
        with P Inl ok show ?thesis
          by (intro exI [of _ "[?push]"]) (auto simp: module_calls_def Let_def)
      next
        case r3: (Inr u')
        have "s2 = st" using D by simp
        then have "auto_install_one env self source sha i st = (case r4 of Inl e \<Rightarrow> (Inl e, s4)
            | Inr _ \<Rightarrow> (Inr (''su -c '' @ shlex_quote (install_cmd i)), s4))"
          using v r1 d r2 p r3 n by (simp add: auto_install_one_def seq_def ok_iff split: sum.split)
        then have "st' = s4" "\<forall>e. r = Inl e \<longrightarrow> r4 = Inl e" using assms by (auto split: sum.splits)
        moreover have "makes st s4 ([?push] @ [call self (''shell'' # install_argv i), call self (''shell'' # cleanup_argv i)])"
          using P N makes_trans by blast
        moreover have "accepted env (a_tick st) ?push" using P r3 by simp
        ultimately show ?thesis using N ok
          by (intro exI [of _ "[?push, call self (''shell'' # install_argv i), call self (''shell'' # cleanup_argv i)]"])
             (auto simp: module_calls_def Let_def)
      qed
    qed
  qed
qed

text \<open>A trace in which every push is of a verified module of the batch, and is cleaned up after if it was accepted.\<close>

definition good :: "'d aenv \<Rightarrow> adb_device \<Rightarrow> (string \<times> string option) list \<Rightarrow> tree \<Rightarrow> nat \<Rightarrow> string list list \<Rightarrow> bool" where
  "good env self mods t k cs \<longleftrightarrow> (\<forall>n src i. n < length cs \<longrightarrow> cs ! n = push_call self src i \<longrightarrow>
     i < length mods \<and> src = pure_path (fst (mods ! i)) \<and> digest_ok env t (mods ! i)
     \<and> (accepted env (k + n) (cs ! n) \<longrightarrow> n + 2 < length cs \<and> cs ! (n + 2) = call self (''shell'' # cleanup_argv i)))"

lemma remote_zip_inject: "remote_zip i = remote_zip j \<Longrightarrow> i = j"
  by (simp add: remote_zip_def)

lemma push_call_inject: "push_call self src i = push_call self src' j \<Longrightarrow> src = src' \<and> i = j"
  by (auto simp: push_call_def call_def dest: remote_zip_inject)

lemma good_append:
  assumes "good env self mods t k xs" and "good env self mods t (k + length xs) ys"
  shows "good env self mods t k (xs @ ys)"
  unfolding good_def
proof (intro allI impI)
  fix n src i assume n: "n < length (xs @ ys)" "(xs @ ys) ! n = push_call self src i"
  show "i < length mods \<and> src = pure_path (fst (mods ! i)) \<and> digest_ok env t (mods ! i)
     \<and> (accepted env (k + n) ((xs @ ys) ! n) \<longrightarrow> n + 2 < length (xs @ ys) \<and> (xs @ ys) ! (n + 2) = call self (''shell'' # cleanup_argv i))"
  proof (cases "n < length xs")
    case True
    with n have x: "xs ! n = push_call self src i" by (simp add: nth_append)
    have g: "i < length mods \<and> src = pure_path (fst (mods ! i)) \<and> digest_ok env t (mods ! i)
      \<and> (accepted env (k + n) (xs ! n) \<longrightarrow> n + 2 < length xs \<and> xs ! (n + 2) = call self (''shell'' # cleanup_argv i))"
      using assms(1) True x unfolding good_def by blast
    show ?thesis
    proof (intro conjI impI)
      assume "accepted env (k + n) ((xs @ ys) ! n)"
      with g True have "n + 2 < length xs" "xs ! (n + 2) = call self (''shell'' # cleanup_argv i)" by (simp_all add: nth_append)
      then show "n + 2 < length (xs @ ys)" "(xs @ ys) ! (n + 2) = call self (''shell'' # cleanup_argv i)"
        by (simp_all add: nth_append)
    qed (use g in auto)
  next
    case False
    define m where "m = n - length xs"
    have m: "n = length xs + m" "m < length ys" "ys ! m = push_call self src i"
      using False n by (simp_all add: m_def nth_append)
    have g: "i < length mods \<and> src = pure_path (fst (mods ! i)) \<and> digest_ok env t (mods ! i)
      \<and> (accepted env (k + length xs + m) (ys ! m) \<longrightarrow> m + 2 < length ys \<and> ys ! (m + 2) = call self (''shell'' # cleanup_argv i))"
      using assms(2) m(2,3) unfolding good_def by blast
    show ?thesis
    proof (intro conjI impI)
      assume "accepted env (k + n) ((xs @ ys) ! n)"
      with g m(1) have "m + 2 < length ys" "ys ! (m + 2) = call self (''shell'' # cleanup_argv i)"
        by (simp_all add: nth_append add.assoc)
      then show "n + 2 < length (xs @ ys)" "(xs @ ys) ! (n + 2) = call self (''shell'' # cleanup_argv i)"
        using m(1) by (simp_all add: nth_append)
    qed (use g in auto)
  qed
qed

lemma good_other: "(\<And>c. c \<in> set cs \<Longrightarrow> \<nexists>src i. c = push_call self src i) \<Longrightarrow> good env self mods t k cs"
  unfolding good_def by (metis nth_mem)

lemma not_push: "call self (''shell'' # argv) \<noteq> push_call self src i" "[''devices''] \<noteq> push_call self src i"
  by (simp_all add: call_def push_call_def)

lemma module_calls_good:
  assumes "module_calls env self t k (mods ! i) i cs" and "i < length mods"
  shows "good env self mods t k cs"
  unfolding good_def
proof (intro allI impI)
  fix n src j assume n: "n < length cs" "cs ! n = push_call self src j"
  let ?push = "push_call self (pure_path (fst (mods ! i))) i"
  have cs: "digest_ok env t (mods ! i)" "if accepted env k ?push then cs = [?push, call self (''shell'' # install_argv i), call self (''shell'' # cleanup_argv i)]
        else cs = [?push]"
    using assms(1) n(1) by (auto simp: module_calls_def Let_def)
  then have "n = 0" using n not_push by (auto simp: less_Suc_eq numeral_2_eq_2 split: if_splits)
  with cs n assms(2) show "j < length mods \<and> src = pure_path (fst (mods ! j)) \<and> digest_ok env t (mods ! j)
     \<and> (accepted env (k + n) (cs ! n) \<longrightarrow> n + 2 < length cs \<and> cs ! (n + 2) = call self (''shell'' # cleanup_argv j))"
    by (auto split: if_splits dest: push_call_inject)
qed

text \<open>What a batch answers: a row for each module, or, when the device went away, a row for each module tried.\<close>

definition accounted :: "string list \<Rightarrow> install_row list \<Rightarrow> adb_error + install_row list \<Rightarrow> bool" where
  "accounted sources rows r \<longleftrightarrow> (case r of
     Inr out \<Rightarrow> map row_source out = map row_source rows @ sources
   | Inl (PreflightFailed why out) \<Rightarrow> \<exists>n<length sources. why = Offline [] (int (length sources - Suc n))
       \<and> map row_source out = map row_source rows @ take (Suc n) sources \<and> \<not> row_ok (last out)
   | Inl e \<Rightarrow> e = AdbOs)"

lemma accounted_step:
  assumes "accounted sources (rows @ [w]) r" and "row_source w = s"
  shows "accounted (s # sources) rows r"
proof (cases r)
  case (Inr out)
  with assms show ?thesis by (simp add: accounted_def)
next
  case (Inl e)
  show ?thesis
  proof (cases e)
    case (PreflightFailed why out)
    with Inl assms(1) obtain n where n: "n < length sources" "why = Offline [] (int (length sources - Suc n))"
      "map row_source out = map row_source (rows @ [w]) @ take (Suc n) sources" "\<not> row_ok (last out)"
      by (auto simp: accounted_def)
    then show ?thesis using Inl PreflightFailed assms(2)
      by (simp add: accounted_def) (intro exI [of _ "Suc n"], simp)
  qed (use Inl assms(1) in \<open>simp_all add: accounted_def\<close>)
qed

lemma install_batch_spec:
  assumes "install_batch env self i ms rows st = (r, st')" and "i + length ms = length mods" and "drop i mods = ms"
  shows "\<exists>cs. makes st st' cs \<and> good env self mods (a_files st) (a_tick st) cs \<and> accounted (map fst ms) rows r"
  using assms
proof (induction ms arbitrary: i rows st)
  case Nil
  then have "makes st st' []" "accounted [] rows r" by (auto simp: accounted_def)
  then show ?case by (intro exI [of _ "[]"]) (simp add: good_def)
next
  case (Cons m ms)
  obtain source sha where m: "m = (source, sha)" by fastforce
  have i: "i < length mods" "mods ! i = (source, sha)" "drop (Suc i) mods = ms" "Suc i + length ms = length mods"
    using Cons.prems(2,3) m by (auto simp: drop_Suc nth_via_drop tl_drop) (metis list.sel(3) tl_drop)
  obtain q st1 where q: "auto_install_one env self source sha i st = (q, st1)" by fastforce
  from auto_install_one_spec [OF q] obtain cs where cs: "makes st st1 cs" "module_calls env self (a_files st) (a_tick st) (source, sha) i cs"
    "\<forall>e. q = Inl e \<longrightarrow> (\<exists>z. e = BadZip z) \<or> e = BadDigest \<or> e = AdbOs \<or> (\<exists>rc err. e = AdbRaised rc err)" by blast
  have g: "good env self mods (a_files st) (a_tick st) cs" using module_calls_good [of env self _ _ mods i cs] cs(2) i by simp
  have further: "\<exists>cs. makes st st' cs \<and> good env self mods (a_files st) (a_tick st) cs \<and> accounted (map fst (m # ms)) rows r"
    if mk: "makes st st2 ds" "good env self mods (a_files st) (a_tick st) ds" and rec: "install_batch env self (Suc i) ms (rows @ [w]) st2 = (r, st')"
      and w: "row_source w = source" for st2 ds w
  proof -
    from Cons.IH [OF rec i(4,3)] obtain es where es: "makes st2 st' es" "good env self mods (a_files st2) (a_tick st2) es"
      "accounted (map fst ms) (rows @ [w]) r" by blast
    have "good env self mods (a_files st) (a_tick st + length ds) es" using es(2) mk(1) by (simp add: makes_def)
    with makes_trans [OF mk(1) es(1)] good_append [OF mk(2)] accounted_step [OF es(3) w] m show ?thesis by auto
  qed
  have ends: "\<exists>cs. makes st st' cs \<and> good env self mods (a_files st) (a_tick st) cs \<and> accounted (map fst (m # ms)) rows r"
    if "makes st st' ds" "good env self mods (a_files st) (a_tick st) ds" "r = Inl AdbOs" for ds
    using that by (auto simp: accounted_def)
  consider (installed) how where "q = Inr how" | (zip) z where "q = Inl (BadZip z)" | (digest) "q = Inl BadDigest"
    | (os) "q = Inl AdbOs" | (adb) rc err where "q = Inl (AdbRaised rc err)" using cs(3) by (cases q) auto
  then show ?case
  proof cases
    case adb
    obtain a st2 where a: "serial_is_available env (ad_serial self) st1 = (a, st2)" by fastforce
    from available_spec [OF a] obtain ds where ds: "makes st1 st2 ds" "ds = [] \<or> ds = [[''devices'']]"
      and e: "\<forall>e. a = Inl e \<longrightarrow> e = AdbOs" by blast
    have mk: "makes st st2 (cs @ ds)" by (rule makes_trans [OF cs(1) ds(1)])
    have gd: "good env self mods (a_files st) (a_tick st) (cs @ ds)"
      by (rule good_append [OF g]) (rule good_other, use ds(2) in \<open>auto simp: push_call_def call_def\<close>)
    show ?thesis
    proof (cases a)
      case (Inl x)
      with e Cons.prems(1) m q adb a have "st' = st2" "r = Inl AdbOs" by auto
      with ends mk gd show ?thesis by blast
    next
      case (Inr up)
      show ?thesis
      proof (cases up)
        case True
        with Inr Cons.prems(1) m q adb a further [OF mk gd] show ?thesis by auto
      next
        case False
        with Inr Cons.prems(1) m q adb a have st': "st' = st2" and r: "r = Inl (PreflightFailed (Offline [] (int (length ms)))
           (rows @ [\<lparr>row_source = source, row_ok = False, row_detail = WentOffline rc err\<rparr>]))" by auto
        have "accounted (map fst (m # ms)) rows r" using r m by (auto simp: accounted_def intro: exI [of _ 0])
        with mk gd st' show ?thesis by blast
      qed
    qed
  qed (use Cons.prems(1) m q further [OF cs(1) g] ends cs(1) g in auto)
qed

lemma unchecked_makes:
  "adb_unchecked env self argv st = (r, st') \<Longrightarrow> makes st st' [call self argv] \<and> (\<forall>e. r = Inl e \<longrightarrow> e = AdbOs)"
  by (auto simp: adb_unchecked_def run_adb_def call_def makes_def split: adb_run.splits)

lemma abort_spec:
  assumes "seq (abort_if_unavailable env self err) (\<lambda>_. fail (PreflightFailed why [])) st = (r, st')"
  shows "\<exists>cs. makes st st' cs \<and> set cs \<subseteq> {[''devices'']} \<and> (r = Inl AdbOs \<or> (\<exists>why. r = Inl (PreflightFailed why [])))"
proof -
  obtain a st1 where a: "serial_is_available env (ad_serial self) st = (a, st1)" by fastforce
  from available_spec [OF a] obtain cs where "makes st st1 cs" "set cs \<subseteq> {[''devices'']}" and e: "\<forall>e. a = Inl e \<longrightarrow> e = AdbOs" by fastforce
  moreover have "st' = st1 \<and> (r = Inl AdbOs \<or> (\<exists>why. r = Inl (PreflightFailed why [])))"
    using assms a e by (cases a) (auto simp: abort_if_unavailable_def seq_def ok_iff fail_iff fail_def ok_def split: if_splits)
  ultimately show ?thesis by blast
qed

lemma preflight_spec:
  assumes "preflight_root_and_magisk env self st = (r, st')"
  shows "\<exists>cs. makes st st' cs \<and> (\<forall>c\<in>set cs. \<nexists>src i. c = push_call self src i)
    \<and> (r = Inr () \<or> r = Inl AdbOs \<or> (\<exists>why. r = Inl (PreflightFailed why [])))"
proof -
  let ?a = "[''shell'', ''su'', ''-c'', shlex_quote ''true'']" and ?b = "[''shell'', ''su'', ''-c'', shlex_quote ''command -v magisk'']"
  obtain r1 s1 where a: "adb_unchecked env self ?a st = (r1, s1)" by fastforce
  obtain r2 s2 where b: "adb_unchecked env self ?b s1 = (r2, s2)" by fastforce
  note A = unchecked_makes [OF a] and B = unchecked_makes [OF b]
  have np: "\<forall>c\<in>set (xs @ cs). \<nexists>src i. c = push_call self src i" if "set cs \<subseteq> {[''devices'']}" "set xs \<subseteq> {call self ?a, call self ?b}" for xs cs
    using that by (auto simp: push_call_def call_def)
  consider (err1) "r1 = Inl AdbOs" | (no_root) rc out err where "r1 = Inr (rc, out, err)" "rc \<noteq> 0"
    | (err2) out err where "r1 = Inr (0, out, err)" "r2 = Inl AdbOs"
    | (no_magisk) out err rc out' err' where "r1 = Inr (0, out, err)" "r2 = Inr (rc, out', err')" "rc \<noteq> 0"
    | (fine) out err out' err' where "r1 = Inr (0, out, err)" "r2 = Inr (0, out', err')"
    using A B by (cases r1; cases r2) (auto, blast+)
  then show ?thesis
  proof cases
    case err1
    then have "r = Inl AdbOs" "st' = s1" using assms a by (simp_all add: preflight_root_and_magisk_def seq_def)
    with A np [of "[]" "[call self ?a]"] show ?thesis by (intro exI [of _ "[call self ?a]"]) auto
  next
    case no_root
    then have "seq (abort_if_unavailable env self err) (\<lambda>_. fail (PreflightFailed NoRoot [])) s1 = (r, st')"
      using assms a by (simp add: preflight_root_and_magisk_def seq_def)
    from abort_spec [OF this] obtain cs where cs: "makes s1 st' cs" "set cs \<subseteq> {[''devices'']}"
      "r = Inl AdbOs \<or> (\<exists>why. r = Inl (PreflightFailed why []))" by blast
    have "makes st st' ([call self ?a] @ cs)" using A cs(1) makes_trans by blast
    with cs np [of cs "[call self ?a]"] show ?thesis by (intro exI [of _ "[call self ?a] @ cs"]) auto
  next
    case err2
    then have "r = Inl AdbOs" "st' = s2" using assms a b by (simp_all add: preflight_root_and_magisk_def seq_def)
    moreover have "makes st s2 ([call self ?a] @ [call self ?b])" using A B makes_trans by blast
    ultimately show ?thesis using np [of "[]" "[call self ?a, call self ?b]"] by (intro exI [of _ "[call self ?a, call self ?b]"]) auto
  next
    case no_magisk
    then have "seq (abort_if_unavailable env self err') (\<lambda>_. fail (PreflightFailed NoMagisk [])) s2 = (r, st')"
      using assms a b by (simp add: preflight_root_and_magisk_def seq_def)
    from abort_spec [OF this] obtain cs where cs: "makes s2 st' cs" "set cs \<subseteq> {[''devices'']}"
      "r = Inl AdbOs \<or> (\<exists>why. r = Inl (PreflightFailed why []))" by blast
    have "makes st st' (([call self ?a] @ [call self ?b]) @ cs)" using A B cs(1) makes_trans by blast
    with cs np [of cs "[call self ?a, call self ?b]"] show ?thesis by (intro exI [of _ "[call self ?a, call self ?b] @ cs"]) auto
  next
    case fine
    then have "r = Inr ()" "st' = s2" using assms a b by (simp_all add: preflight_root_and_magisk_def seq_def ok_iff ok_def)
    moreover have "makes st s2 ([call self ?a] @ [call self ?b])" using A B makes_trans by blast
    ultimately show ?thesis using np [of "[]" "[call self ?a, call self ?b]"] by (intro exI [of _ "[call self ?a, call self ?b]"]) auto
  qed
qed

definition digests_for :: "string list \<Rightarrow> string option list option \<Rightarrow> string option list" where
  "digests_for sources shas = (case shas of Some ds \<Rightarrow> ds | None \<Rightarrow> replicate (length sources) None)"

text \<open>The ways through an install.\<close>

lemma auto_install_cases:
  assumes "auto_install_modules env self sources shas st = (r, st')"
  obtains (refused) e where "r = Inl e" "st' = st" "\<forall>why rows. e \<noteq> PreflightFailed why rows"
  | (stopped) e where "preflight_root_and_magisk env self st = (Inl e, st')" "r = Inl e"
  | (batch) st1 where "preflight_root_and_magisk env self st = (Inr (), st1)"
      "length (digests_for sources shas) = length sources"
      "install_batch env self 0 (zip sources (digests_for sources shas)) [] st1 = (r, st')"
proof -
  obtain p st1 where p: "preflight_root_and_magisk env self st = (p, st1)" by fastforce
  show thesis
  proof (cases "a_found env (a_tick st) \<and> length (digests_for sources shas) = length sources")
    case False
    then have "(\<exists>e. r = Inl e \<and> (\<forall>why rows. e \<noteq> PreflightFailed why rows)) \<and> st' = st"
      using assms by (auto simp: auto_install_modules_def need_adb_def digests_for_def seq_def fail_def split: option.splits if_splits)
    then show thesis using refused by blast
  next
    case True
    then have "seq (preflight_root_and_magisk env self) (\<lambda>_. install_batch env self 0 (zip sources (digests_for sources shas)) []) st = (r, st')"
      using assms by (auto simp: auto_install_modules_def need_adb_def digests_for_def seq_def split: option.splits if_splits)
    then show thesis using p True stopped batch by (cases p) (auto simp: seq_def)
  qed
qed



text \<open>A module with a digest that cannot be read ends the batch, and the rows of the others are lost.\<close>

lemma unreadable_module_aborts:
  assumes "dict_get (a_files st) (a_path env source) = Some (File c)" and "lower (suffix_of (pure_name source)) = ''.zip''"
    and "\<not> a_readable env source"
  shows "install_batch env self i ((source, Some d) # rest) rows st = (Inl AdbOs, st)"
  using assms by (simp add: auto_install_one_def validated_zip_source_def exists_at_def is_file_at_def is_file_node_def
      check_digest_def seq_def)

section \<open>Sample runs\<close>

text \<open>A device that answers the first \<open>n\<close> calls and then goes away; its digests are the contents.\<close>

definition sample_aenv :: "nat \<Rightarrow> bool aenv" where
  "sample_aenv n = \<lparr>a_found = (\<lambda>_. True),
     a_run = (\<lambda>k argv. if k < n then Ran 0 ''S device'' [] else Ran 1 [] ''device offline''),
     a_path = path_parts, a_readable = (\<lambda>_. True), a_denv = demo_env, a_penv = m_paths demo_menv, a_host = demo_host, a_lz = plain\<rparr>"

definition sample_adb :: adb_device where
  "sample_adb = \<lparr>ad_name = ''p'', ad_serial = ''S'', ad_forward_port = 27042\<rparr>"

definition sample_zips :: astate where
  "sample_zips = \<lparr>a_tick = 0, a_calls = [], a_files = [([''m'', ''a.zip''], File ''abc''), ([''m'', ''b.zip''], File ''abd''), ([''m'', ''c.zip''], File ''abc'')]\<rparr>"

abbreviation sample_install :: "nat \<Rightarrow> (adb_error + install_row list) \<times> astate" where
  "sample_install n \<equiv> auto_install_modules (sample_aenv n) sample_adb [''/m/a.zip'', ''/m/b.zip'', ''/m/c.zip'']
     (Some [Some ''ABC'', Some ''ABC'', None]) sample_zips"

lemma sample_install_run:
  "case sample_install 6 of (r, st') \<Rightarrow> (case r of Inl (PreflightFailed (Offline _ n) rows) \<Rightarrow> n = 0 \<and> length rows = 3 | _ \<Rightarrow> False)
     \<and> length (a_calls st') = 9 \<and> a_calls st' ! 2 = push_call sample_adb ''/m/a.zip'' 0"
  by code_simp



theorem serial_row_matches_availability_witness:
  "cr_status (check_adb_serial_listed (sample_henv\<lparr>h_run := (\<lambda>_. proc.Exited 0 ''S device'' [])\<rparr>) ''S'') = CheckPass"
proof -
  let ?h = "sample_henv\<lparr>h_run := (\<lambda>_. proc.Exited 0 ''S device'' [])\<rparr>"
  have d: "distinct (serials (splitlines ''S device''))" by code_simp
  have a: "fst (serial_is_available (sample_aenv 6) ''S'' sample_zips) = Inr True" by code_simp
  from serial_row_matches_availability [of ?h "sample_aenv 6" sample_zips 0 "''S device''" "[]" "''S''"] d a show ?thesis
    by (simp add: sample_henv_def sample_aenv_def sample_zips_def)
qed

end
