(* ===== verification/Spec2Isabelle.thy ===== *)
theory Spec2Isabelle
  imports Config_Render Ports_Props Registry_Ops Qemu_Props Capabilities Boot_Cache_Props Snapshot_Roundtrip Manager_Props Vm_Operations Adb_Props
begin

text \<open>
  Beetroot runs rooted Android instances on a Linux host: each instance is a directory with a
  \<open>beetroot.yaml\<close>, a row in a user-global registry that reserves a port index, and a running
  device, either a container or a QEMU micro-VM. This library models the parts of the package
  under \<open>src/src/beetroot\<close> that decide things, and proves what makes those decisions right.

  Parts of the program and where they are modelled.

  \<^item> \<open>config.py\<close>, the schema of \<open>beetroot.yaml\<close>. \<open>Config\<close> holds the patterns, scalar
    validators and Docker sizes (with the double rounding of \<open>float\<close>), \<open>Config_Schema\<close> one
    record per model class with its validators in pydantic's order, \<open>Config_Load\<close> validation
    of a whole document, \<open>load_yaml\<close> with its version bump, legacy migrations and advisories,
    \<open>write_yaml\<close>, image tags and \<open>render_env\<close>. \<open>Config_Props\<close> and \<open>Config_Render\<close> show that
    what is loaded satisfies the schema invariant \<open>config_valid\<close>, that saving and loading
    give the configuration back, that migrations lose nothing, and that the rendered
    environment can be read back.
  \<^item> \<open>ports.py\<close>, host ports from an instance's index. \<open>Ports\<close> has the allocator and the
    interface \<open>index_allocator\<close> it satisfies; \<open>Ports_Props\<close> shows that resolution computes the
    documented allocation, stays in range, and never makes two instances collide by itself.
  \<^item> \<open>registry.py\<close>, the JSON registry. \<open>Registry\<close> has the file system around it as a state
    (\<open>world\<close>) and every operation as a transition of it: the exclusive lock makes each
    operation one step. \<open>Registry_Codec\<close> shows that reading what was written gives it back,
    \<open>Registry_Props\<close> the invariant of every reachable registry (unique names and indices) from
    the interface \<open>slot_table\<close>, which joins a dictionary (\<open>dict_store\<close>) and an allocator
    (\<open>index_allocator\<close>), \<open>Registry_Ops\<close> the effect of each operation, its failures, and what
    a damaged file does.
  \<^item> \<open>hostcheck.py\<close> and \<open>capabilities.py\<close>, what the host can do. \<open>Hostcheck\<close> has the probes,
    the verdict and the start policy, \<open>Capabilities\<close> the support matrix; the properties say
    what evidence each verdict rests on and that the matrix agrees with what a launch does.
  \<^item> \<open>vm/qemu.py\<close>, the micro-VM's process. \<open>Qemu\<close> has accelerator choice, CPU count, command
    line, and the process manager over an environment that is arbitrary at every instant;
    \<open>Qemu_Props\<close> shows that signals reach only the instance's own process, that stopping ends
    and escalates, and that processes are told apart by their command line.
  \<^item> \<open>vm/boot_cache.py\<close> with the overlay preparation of \<open>backends/vm.py\<close>, the warm start.
    \<open>Boot_Cache\<close> has fingerprint, overlay, and monitor protocol, \<open>Boot_Cache_Props\<close> the
    history of an instance's overlay as a step relation and that a resumed checkpoint always
    fits the inputs in use.
  \<^item> \<open>api.py\<close>, the life of instances. \<open>Instances\<close> has \<open>create\<close>, \<open>register\<close> and \<open>destroy\<close> with
    their guards, staging and rollback over the registry's world and a directory tree;
    \<open>Instances_Props\<close> shows what each call may touch and \<open>Instances_Life\<close> how each operation
    can end. \<open>Lifecycle\<close> makes them, with \<open>restore\<close>, the steps of a transition relation and shows
    that failures are undone, that registered directories stay apart in every reachable
    state, and that therefore no operation reaches another instance.
  \<^item> \<open>snapshot.py\<close>, archives of instances. \<open>Snapshot\<close> has \<open>snapshot\<close> and \<open>restore\<close> statement by
    statement; \<open>Snapshot_Props\<close> a Hoare logic for statements that raise and what \<open>restore\<close>
    keeps, \<open>Snapshot_Roundtrip\<close> that files and manifest come back, that a failed restore is
    undone, the size cap, and how a forced restore can lose its archive.

  \<^item> \<open>compose.py\<close> and the other operations of an instance. \<open>Compose\<close> has the docker calls and the
    status mapping over a docker command that answers arbitrarily. \<open>Operations\<close> has \<open>up\<close>, \<open>down\<close>,
    \<open>restart\<close>, \<open>apply\<close>, \<open>reset\<close>, \<open>add_module\<close> and the staging of downloads as statements on the
    instance's object; \<open>Operations_Props\<close> states what an operation may touch as the interface
    \<open>isolating\<close> and interprets it for each of them, \<open>Operations_Life\<close> shows what they do.
  \<^item> \<open>backends/__init__.py\<close> and the \<open>Manager\<close> of \<open>api.py\<close>. \<open>Manager\<close> has the table of backend
    classes, the entry points, the constructors from a row and the listings; \<open>Manager_Props\<close>
    shows that every instance is listed or orphaned, that lookups give the right device, and
    what a broken plugin or an unparsable file does.
  \<^item> \<open>paths.py\<close>. \<open>Paths\<close> has the discovery of an instance directory, the layout, the user
    directories, the atomic write and the bundled resources; it shows that discovery finds the
    nearest instance and what a package imported from a zip gets.
  \<^item> \<open>kernel_download.py\<close> and \<open>rootfs_download.py\<close>, prebuilt artefacts. \<open>Downloads\<close> has them
    over the directory tree and an arbitrary network. \<open>Downloads_Props\<close> states the contract of a
    download as the interfaces \<open>fetcher\<close> and \<open>atomic_fetcher\<close>, proves it for both, for the
    atomic write of \<open>Paths\<close> too, and derives that nothing unverified is ever published.
  \<^item> \<open>frida_download.py\<close>. \<open>Frida_Download\<close> has version and architecture resolution, the cache and
    the staging around an arbitrary incremental decompressor; \<open>Frida_Props\<close> shows that the loop
    ends, what it writes, and that a failure never costs a staged binary.
  \<^item> \<open>modules_download.py\<close>. \<open>Modules_Download\<close> has the URL cache, the resolution of paths, unique
    names and staging; \<open>Modules_Props\<close> shows that exactly the configured modules end up staged,
    each verified, and how a source inside \<open>modules/\<close> is lost.

  How the parts meet: the registry calls the allocator of \<open>Ports\<close> and loads sibling
  configurations for its collision check; \<open>reconcile_backend_kind\<close> takes the mode the
  configuration asks for; the process manager is keyed by the ADB port \<open>Ports\<close> resolves; the
  survey combines \<open>Hostcheck\<close> and \<open>Qemu\<close>. The two properties of this theory follow such a
  path across components.

  \<open>Prelude\<close>, \<open>Pyvalues\<close>, \<open>Pystrings\<close> and \<open>Files\<close> hold what the components share: results and
  dicts, decoded documents, Python's string operations on code points below 256, and the
  directory tree with statements that may raise.

  Arguments of the model that stand for code outside the package: pydantic's coercions
  (\<open>coercer\<close>, \<open>pyd\<close>), PyYAML and the file reads (\<open>yaml_env\<close>), the probed host files
  (\<open>host_files\<close>), the kernel's processes, signals and clock (\<open>qenv\<close>), SHA-256, \<open>qemu-img\<close> and
  the monitor's answers, path resolution and failing disk operations (\<open>io\<close>), the archive format
  and JSON text (\<open>senv\<close>), the network, hashes and decompressors (\<open>denv\<close>, \<open>lzma\<close>), user
  directories (\<open>penv\<close>) and symbolic links (\<open>menv\<close>). What a property relies on of them is a named hypothesis, such as
  \<open>pyd_laws\<close> (coercions are the identity on values already of the type), \<open>hex_digest\<close>,
  \<open>listing_sound\<close>, \<open>archiver\<close> (extraction writes below the destination) and \<open>lz_progress\<close>
  (a decompressor that asks for no input gives output), and the witness of the property
  instantiates it.

  Loops: all but one are total functions. The escalation loop, which waits, ends because each
  sleep lasts at least the poll interval; the bound is fifty polls. The download loop of frida
  is a partial function over \<open>option\<close>, and that it returns is a property. No fuel is used.

  Not modelled: the command line and console, the image builder, and the shell scripts of the
  guest image.
\<close>

section \<open>Properties across components\<close>

text \<open>
  C6: registered instances do not fight over ports. In every registry its operations can
  reach, two different instances whose configurations pin no host port resolve to disjoint
  sets of host ports: the registry keeps their indices apart, and the allocator turns
  different indices into different ports.
\<close>

theorem registered_ports_disjoint:
  assumes "pyd_laws p" and "reg_reachable p w" and "a \<noteq> b"
    and "dict_get (rows_of p w) a = Some m" and "dict_get (rows_of p w) b = Some n"
    and "resolve_ports (index m) ms q = Inr (r, adv)" and "resolve_ports (index n) ms' q' = Inr (r', adv')"
    and "\<forall>x\<in>set ms. host x = None" and "\<forall>x\<in>set ms'. host x = None"
  shows "rp_host ` set r \<inter> rp_host ` set r' = {}"
  using auto_hosts_disjoint [OF assms(6,7) reachable_index_inject [OF assms(1,2,4,5,3)] assms(8,9)] .

definition two_rows :: world where
  "two_rows = snd (add_allocating strict_pyd ''beta'' (Some ''/b'') None ''t''
     (snd (add_allocating strict_pyd ''alpha'' (Some ''/a'') None ''t'' live_world)))"

lemma two_rows_reachable: "reg_reachable strict_pyd two_rows"
proof -
  have "reg_reachable strict_pyd live_world"
    by (rule reg_reachable.fresh) (simp_all add: live_world_def example_world_def in_tree_classes_ok)
  moreover have "iso_time strict_pyd ''t''" by code_simp
  ultimately show ?thesis
    unfolding two_rows_def by (blast intro: reg_reachable.step reg_step.add_path)
qed

lemma two_rows_rows: "rows_of strict_pyd two_rows =
  [(''alpha'', \<lparr>backend = Redroid ''/a'' [], index = 0, created_at = ''t''\<rparr>),
   (''beta'', \<lparr>backend = Redroid ''/b'' [], index = 1, created_at = ''t''\<rparr>)]"
  by code_simp

lemma default_unpinned: "\<forall>m\<in>set default_port_mappings. host m = None"
  by (auto simp: default_port_mappings_def)

theorem registered_ports_disjoint_witness:
  "\<exists>r r'. resolve_ports 0 default_port_mappings True = Inr (r, []) \<and> r \<noteq> []
     \<and> resolve_ports 1 default_port_mappings True = Inr (r', [])
     \<and> rp_host ` set r \<inter> rp_host ` set r' = {}"
proof -
  let ?m = "\<lparr>backend = Redroid ''/a'' [], index = 0, created_at = ''t''\<rparr>"
  let ?n = "\<lparr>backend = Redroid ''/b'' [], index = 1, created_at = ''t''\<rparr>"
  have g: "dict_get (rows_of strict_pyd two_rows) ''alpha'' = Some ?m"
    "dict_get (rows_of strict_pyd two_rows) ''beta'' = Some ?n"
    by (simp_all add: two_rows_rows)
  have r0: "resolve_ports (index ?m) default_port_mappings True = Inr (spec_ports 0 0 default_port_mappings, [])"
    and r1: "resolve_ports (index ?n) default_port_mappings True = Inr (spec_ports 1 0 default_port_mappings, [])"
    by code_simp+
  have ne: "spec_ports 0 0 default_port_mappings \<noteq> []" by code_simp
  show ?thesis
    using registered_ports_disjoint [OF strict_pyd_laws two_rows_reachable _ g r0 r1 default_unpinned default_unpinned]
      r0 r1 ne by auto
qed

text \<open>
  One instance's manager never takes another's emulator for its own. In every reachable
  registry, with unpinned ports, the manager keyed by one instance's resolved ADB port
  rejects the command line of an emulator launched for another instance's ADB port, so that
  it neither signals it nor believes itself running.
\<close>

theorem managers_tell_instances_apart:
  assumes "pyd_laws p" and "reg_reachable p w" and "a \<noteq> b"
    and "dict_get (rows_of p w) a = Some m" and "dict_get (rows_of p w) b = Some n"
    and "resolve_ports (index m) ms q = Inr (r, adv)" and "resolve_ports (index n) ms' q' = Inr (r', adv')"
    and "\<forall>x\<in>set ms. host x = None" and "\<forall>x\<in>set ms'. host x = None"
    and "dict_get (well_known r) ''adb'' = Some port" and "dict_get (well_known r') ''adb'' = Some (q_adb_port args)"
    and "\<And>s. s \<in> set (user_args args) \<Longrightarrow> \<not> contains s ''hostfwd=tcp:''"
  shows "\<not> names_instance (Some port) (proc_cmdline (build_qemu_argv args))"
proof -
  have mem: "port \<in> rp_host ` set r" "q_adb_port args \<in> rp_host ` set r'"
    using well_known_member assms(10,11) by blast+
  moreover have "rp_host ` set r \<inter> rp_host ` set r' = {}"
    by (rule auto_hosts_disjoint [OF assms(6,7) reachable_index_inject [OF assms(1,2,4,5,3)] assms(8,9)])
  ultimately have "port \<noteq> q_adb_port args" by blast
  moreover have "0 \<le> port" "0 \<le> q_adb_port args"
    using mem auto_host_nonneg [OF assms(6,8)] auto_host_nonneg [OF assms(7,9)] by auto
  ultimately show ?thesis
    using argv_token [of args port, OF assms(12)] by (auto simp: names_instance_def Let_def)
qed

theorem managers_tell_instances_apart_witness:
  "\<not> names_instance (Some 5555) (proc_cmdline (build_qemu_argv sample_args))"
proof -
  let ?m = "\<lparr>backend = Redroid ''/a'' [], index = 0, created_at = ''t''\<rparr>"
  let ?n = "\<lparr>backend = Redroid ''/b'' [], index = 1, created_at = ''t''\<rparr>"
  have g: "dict_get (rows_of strict_pyd two_rows) ''alpha'' = Some ?m"
    "dict_get (rows_of strict_pyd two_rows) ''beta'' = Some ?n"
    by (simp_all add: two_rows_rows)
  have r0: "resolve_ports (index ?m) default_port_mappings True = Inr (spec_ports 0 0 default_port_mappings, [])"
    and r1: "resolve_ports (index ?n) default_port_mappings True = Inr (spec_ports 1 0 default_port_mappings, [])"
    by code_simp+
  have w: "dict_get (well_known (spec_ports 0 0 default_port_mappings)) ''adb'' = Some 5555"
    "dict_get (well_known (spec_ports 1 0 default_port_mappings)) ''adb'' = Some (q_adb_port sample_args)"
    by code_simp+
  show ?thesis
    by (rule managers_tell_instances_apart [OF strict_pyd_laws two_rows_reachable _ g r0 r1
          default_unpinned default_unpinned w sample_args_quiet]) simp_all
qed

end
